(* ===== verification/Prelude.thy ===== *)
theory Prelude
  imports Main "HOL-Library.Word" "HOL-Library.Sublist" "HOL-Library.Multiset"
begin

unbundle bit_operations_syntax

section \<open>Shared vocabulary of the Portal development\<close>

text \<open>
  This theory holds what the component theories share.

  \<^item> C strings are values of type \<open>string\<close> (lists of 8-bit characters without the
    terminating NUL). A \<open>char *\<close> that the code tests against NULL is a
    \<open>string option\<close>. Byte buffers are character lists as well.
  \<^item> \<open>csnprintf n s\<close> is what \<open>snprintf(buf, n, "%s", s)\<close> leaves in \<open>buf\<close>: at most
    \<open>n - 1\<close> characters of \<open>s\<close>.
  \<^item> \<open>find_index P xs\<close> is the C idiom of a \<open>for\<close> loop that returns the first index at
    which \<open>P\<close> holds.
  \<^item> \<open>b8\<close> and \<open>w8\<close> are the conversions between machine words and bytes.
  \<^item> Functions of the source that return an \<open>int\<close> code return an \<open>int\<close> here, paired
    with the new state where they change it.

  Two collections feed the simplifier in the component theories: \<open>cstr_simps\<close> for
  strings and buffers and \<open>index_simps\<close> for the search loops.
\<close>

named_theorems cstr_simps \<open>facts about truncated copies, prefixes and separators\<close>
named_theorems index_simps \<open>facts about first-index searches\<close>

subsection \<open>Constants of include/portal/constants.h\<close>

abbreviation (input) PORTAL_MAX_PATH_LEN :: nat where "PORTAL_MAX_PATH_LEN \<equiv> 1024"
abbreviation (input) PORTAL_MAX_MODULE_NAME :: nat where "PORTAL_MAX_MODULE_NAME \<equiv> 64"
abbreviation (input) PORTAL_MAX_MODULES :: nat where "PORTAL_MAX_MODULES \<equiv> 256"
abbreviation (input) PORTAL_MAX_HEADERS :: nat where "PORTAL_MAX_HEADERS \<equiv> 32"
abbreviation (input) PORTAL_MAX_LABELS :: nat where "PORTAL_MAX_LABELS \<equiv> 32"
abbreviation (input) PORTAL_MAX_LABEL_LEN :: nat where "PORTAL_MAX_LABEL_LEN \<equiv> 64"
abbreviation (input) PORTAL_ROOT_USER :: string where "PORTAL_ROOT_USER \<equiv> ''root''"

abbreviation (input) PORTAL_METHOD_GET :: "8 word" where "PORTAL_METHOD_GET \<equiv> 1"
abbreviation (input) PORTAL_METHOD_SET :: "8 word" where "PORTAL_METHOD_SET \<equiv> 2"
abbreviation (input) PORTAL_METHOD_CALL :: "8 word" where "PORTAL_METHOD_CALL \<equiv> 3"
abbreviation (input) PORTAL_METHOD_EVENT :: "8 word" where "PORTAL_METHOD_EVENT \<equiv> 4"
abbreviation (input) PORTAL_METHOD_SUB :: "8 word" where "PORTAL_METHOD_SUB \<equiv> 5"
abbreviation (input) PORTAL_METHOD_UNSUB :: "8 word" where "PORTAL_METHOD_UNSUB \<equiv> 6"

abbreviation (input) PORTAL_OK :: "16 word" where "PORTAL_OK \<equiv> 200"
abbreviation (input) PORTAL_CREATED :: "16 word" where "PORTAL_CREATED \<equiv> 201"
abbreviation (input) PORTAL_BAD_REQUEST :: "16 word" where "PORTAL_BAD_REQUEST \<equiv> 400"
abbreviation (input) PORTAL_UNAUTHORIZED :: "16 word" where "PORTAL_UNAUTHORIZED \<equiv> 401"
abbreviation (input) PORTAL_FORBIDDEN :: "16 word" where "PORTAL_FORBIDDEN \<equiv> 403"
abbreviation (input) PORTAL_NOT_FOUND :: "16 word" where "PORTAL_NOT_FOUND \<equiv> 404"
abbreviation (input) PORTAL_CONFLICT :: "16 word" where "PORTAL_CONFLICT \<equiv> 409"
abbreviation (input) PORTAL_INTERNAL_ERROR :: "16 word" where "PORTAL_INTERNAL_ERROR \<equiv> 500"
abbreviation (input) PORTAL_UNAVAILABLE :: "16 word" where "PORTAL_UNAVAILABLE \<equiv> 503"

subsection \<open>Truncated copies\<close>

definition csnprintf :: "nat \<Rightarrow> string \<Rightarrow> string" where
  "csnprintf n s = take (n - 1) s"

lemma csnprintf_fits [cstr_simps]: "length s < n \<Longrightarrow> csnprintf n s = s"
  by (simp add: csnprintf_def)

lemma length_csnprintf [simp]: "0 < n \<Longrightarrow> length (csnprintf n s) < n"
  by (cases n) (auto simp: csnprintf_def)

lemma csnprintf_idem [cstr_simps]: "csnprintf n (csnprintf n s) = csnprintf n s"
  by (simp add: csnprintf_def)

lemma prefix_csnprintf [cstr_simps]: "prefix (csnprintf n s) s"
  by (simp add: csnprintf_def take_is_prefix)

subsection \<open>Comparison of a fixed number of characters\<close>

text \<open>\<open>strncmp(a, b, n) == 0\<close> on strings without embedded NULs.\<close>

definition strncmp_eq :: "string \<Rightarrow> string \<Rightarrow> nat \<Rightarrow> bool" where
  "strncmp_eq a b n \<longleftrightarrow> take n a = take n b"

lemma strncmp_eq_prefix [cstr_simps]: "strncmp_eq a b (length b) \<longleftrightarrow> prefix b a"
proof
  assume "strncmp_eq a b (length b)"
  then have "take (length b) a = b" by (simp add: strncmp_eq_def)
  then show "prefix b a" by (metis take_is_prefix)
qed (auto simp: strncmp_eq_def prefix_def)

subsection \<open>Separators\<close>

text \<open>
  \<open>strchr_split c s\<close> cuts \<open>s\<close> at the first \<open>c\<close>: the part before it and, when there is
  one, the part after it.
\<close>

definition strchr_split :: "char \<Rightarrow> string \<Rightarrow> string \<times> string option" where
  "strchr_split c s =
     (takeWhile (\<lambda>x. x \<noteq> c) s,
      if c \<in> set s then Some (tl (dropWhile (\<lambda>x. x \<noteq> c) s)) else None)"

lemma strchr_split_None [cstr_simps]: "c \<notin> set s \<Longrightarrow> strchr_split c s = (s, None)"
  by (auto simp: strchr_split_def)

lemma strchr_split_append [cstr_simps]:
  "c \<notin> set s \<Longrightarrow> strchr_split c (s @ c # t) = (s, Some t)"
  by (auto simp: strchr_split_def takeWhile_append dropWhile_append)

lemma takeWhile_tl_dropWhile:
  "c \<in> set s \<Longrightarrow> s = takeWhile (\<lambda>x. x \<noteq> c) s @ c # tl (dropWhile (\<lambda>x. x \<noteq> c) s)"
  by (induction s) auto

lemma strchr_split_Some:
  assumes "strchr_split c s = (a, Some b)"
  shows "s = a @ c # b" and "c \<notin> set a"
  using assms takeWhile_tl_dropWhile [of c s]
  by (auto simp: strchr_split_def dest: set_takeWhileD split: if_splits)

text \<open>\<open>strrchr\<close> as the position of the last occurrence.\<close>

definition strrchr :: "char \<Rightarrow> string \<Rightarrow> nat option" where
  "strrchr c s =
     (if c \<in> set s then Some (length s - 1 - length (takeWhile (\<lambda>x. x \<noteq> c) (rev s))) else None)"

lemma strrchr_append: "c \<notin> set t \<Longrightarrow> strrchr c (s @ c # t) = Some (length s)"
  by (simp add: strrchr_def takeWhile_append)

lemma strrchr_Some:
  assumes "strrchr c s = Some i"
  obtains t where "s = take i s @ c # t" and "c \<notin> set t" and "i < length s"
proof -
  from assms have "c \<in> set s" by (auto simp: strrchr_def split: if_splits)
  then obtain a t where "s = a @ c # t" "c \<notin> set t" by (meson split_list_last)
  with assms strrchr_append [of c t a] that show thesis by auto
qed

text \<open>\<open>strtok_r\<close> with one separator returns the non-empty pieces.\<close>

fun split_on :: "char \<Rightarrow> string \<Rightarrow> string list" where
  "split_on c [] = [[]]"
| "split_on c (x # s) =
     (if x = c then [] # split_on c s
      else case split_on c s of [] \<Rightarrow> [[x]] | w # ws \<Rightarrow> (x # w) # ws)"

definition strtok :: "char \<Rightarrow> string \<Rightarrow> string list" where
  "strtok c s = filter (\<lambda>w. w \<noteq> []) (split_on c s)"

lemma split_on_none: "c \<notin> set s \<Longrightarrow> split_on c s = [s]"
  by (induction s) auto

lemma split_on_append: "c \<notin> set s \<Longrightarrow> split_on c (s @ c # t) = s # split_on c t"
  by (induction s) auto

subsection \<open>First index of a match\<close>

primrec find_index :: "('a \<Rightarrow> bool) \<Rightarrow> 'a list \<Rightarrow> nat option" where
  "find_index P [] = None"
| "find_index P (x # xs) = (if P x then Some 0 else map_option Suc (find_index P xs))"

lemma find_index_None_iff [index_simps]:
  "find_index P xs = None \<longleftrightarrow> (\<forall>x\<in>set xs. \<not> P x)"
  by (induction xs) auto

lemma find_index_Some_iff:
  "find_index P xs = Some i \<longleftrightarrow> i < length xs \<and> P (xs ! i) \<and> (\<forall>j<i. \<not> P (xs ! j))"
proof (induction xs arbitrary: i)
  case Nil
  then show ?case by simp
next
  case (Cons x xs)
  show ?case
  proof (cases i)
    case 0
    then show ?thesis by auto
  next
    case (Suc k)
    with Cons show ?thesis by (auto simp: All_less_Suc2)
  qed
qed

lemma find_index_SomeD:
  assumes "find_index P xs = Some i"
  shows "i < length xs" and "P (xs ! i)"
  using assms by (auto simp: find_index_Some_iff)

lemma find_index_eq_Some [index_simps]:
  "(\<exists>i. find_index (\<lambda>l. l = x) xs = Some i) \<longleftrightarrow> x \<in> set xs"
  by (induction xs) auto

lemma find_index_eqD: "find_index (\<lambda>l. l = x) xs = Some i \<Longrightarrow> x \<in> set xs"
  by (auto simp flip: find_index_eq_Some)

lemma find_index_exI: "x \<in> set xs \<Longrightarrow> P x \<Longrightarrow> \<exists>i. find_index P xs = Some i"
  by (metis find_index_None_iff not_None_eq)

lemma find_index_append [index_simps]:
  "find_index P (xs @ ys) =
     (case find_index P xs of
        Some i \<Rightarrow> Some i
      | None \<Rightarrow> map_option (\<lambda>i. i + length xs) (find_index P ys))"
  by (induction xs) (auto simp: option.map_comp comp_def option.map_ident split: option.splits)

subsection \<open>Tables with inactive entries\<close>

text \<open>
  Several components keep a list of entries with an \<open>active\<close> flag: a search returns the first
  active entry with a key, and removal clears the flag of that entry.
\<close>

lemma find_append_single:
  "find P (xs @ [x]) = (case find P xs of Some y \<Rightarrow> Some y | None \<Rightarrow> if P x then Some x else None)"
  by (induction xs) auto

lemma find_index_skip: "\<forall>x\<in>set xs. \<not> P x \<Longrightarrow> P y \<Longrightarrow> find_index P (xs @ y # ys) = Some (length xs)"
  by (induction xs) simp_all

lemma list_all_put: "list_all P xs \<Longrightarrow> P x \<Longrightarrow> list_all P (xs[i := x])"
  by (auto simp: list_all_iff dest: set_update_subset_insert [THEN subsetD])

lemma find_index_update_same: "P y = P (xs ! i) \<Longrightarrow> find_index P (xs[i := y]) = find_index P xs"
  by (induction xs arbitrary: i) (auto split: nat.split)

lemma list_all_update: "list_all P xs \<Longrightarrow> P y \<Longrightarrow> list_all P (xs[i := y])"
  using set_update_subset_insert [of xs i y] by (auto simp: list_all_iff)

lemma find_index_find: "find P xs = map_option ((!) xs) (find_index P xs)"
  by (induction xs) (auto simp: option.map_comp comp_def)

lemma find_None_filter: "k \<notin> set (map key (filter act xs)) \<Longrightarrow> find (\<lambda>x. act x \<and> key x = k) xs = None"
  by (auto simp: find_None_iff)

lemma filter_update_inactive:
  assumes "distinct (map key (filter act xs))" "find_index (\<lambda>x. act x \<and> key x = k) xs = Some i" "\<not> act y"
  shows "filter act (xs[i := y]) = filter (\<lambda>x. key x \<noteq> k) (filter act xs)"
  using assms
proof (induction xs arbitrary: i)
  case (Cons x xs)
  show ?case
  proof (cases "act x \<and> key x = k")
    case True
    with Cons.prems have "i = 0" "k \<notin> key ` set (filter act xs)" by auto
    then have "i = 0" "\<forall>z\<in>set xs. act z \<longrightarrow> key z \<noteq> k" by (auto simp: image_iff)
    with True Cons.prems(3) show ?thesis by (auto intro!: filter_cong)
  next
    case False
    with Cons.prems(2) obtain j where "i = Suc j" "find_index (\<lambda>x. act x \<and> key x = k) xs = Some j" by auto
    with False Cons.IH [of j] Cons.prems show ?thesis by (auto split: if_splits)
  qed
qed simp

lemma find_filter: "find (\<lambda>x. act x \<and> key x = k) xs = find (\<lambda>x. key x = k) (filter act xs)"
  by (induction xs) auto

lemma find_filter_neq: "find (\<lambda>x. key x = k') (filter (\<lambda>x. key x \<noteq> k) xs) =
    (if k' = k then None else find (\<lambda>x. key x = k') xs)"
  by (induction xs) auto

lemma find_update_inactive:
  assumes "distinct (map key (filter act xs))" "find_index (\<lambda>x. act x \<and> key x = k) xs = Some i" "\<not> act y"
  shows "find (\<lambda>x. act x \<and> key x = k') (xs[i := y]) =
           (if k' = k then None else find (\<lambda>x. act x \<and> key x = k') xs)"
  unfolding find_filter filter_update_inactive [OF assms] by (rule find_filter_neq)

lemma distinct_map_filter_key: "distinct (map key xs) \<Longrightarrow> distinct (map key (filter P xs))"
  by (induction xs) auto

lemma find_update_fresh:
  assumes "i < length xs" "\<not> act (xs ! i)" "act y" "key y \<notin> set (map key (filter act xs))"
    "distinct (map key (filter act xs))"
  shows "find (\<lambda>x. act x \<and> key x = k) (xs[i := y]) = (if k = key y then Some y else find (\<lambda>x. act x \<and> key x = k) xs)"
    and "distinct (map key (filter act (xs[i := y])))"
proof -
  have xs: "xs = take i xs @ xs ! i # drop (Suc i) xs" using assms(1) by (rule id_take_nth_drop)
  have up: "xs[i := y] = take i xs @ y # drop (Suc i) xs" using assms(1) by (rule upd_conv_take_nth_drop)
  have f: "filter act xs = filter act (take i xs) @ filter act (drop (Suc i) xs)"
    by (subst xs) (simp add: assms(2))
  have g: "filter act (xs[i := y]) = filter act (take i xs) @ y # filter act (drop (Suc i) xs)"
    unfolding up by (simp add: assms(3))
  have app: "find P (as @ bs) = (case find P as of None \<Rightarrow> find P bs | Some z \<Rightarrow> Some z)" for P and as bs :: "'a list"
    by (induction as) auto
  have none: "find (\<lambda>x. key x = key y) (filter act (take i xs)) = None"
  proof (rule ccontr)
    assume "find (\<lambda>x. key x = key y) (filter act (take i xs)) \<noteq> None"
    then obtain x where "x \<in> set (filter act (take i xs))" "key x = key y"
      unfolding find_None_iff by blast
    moreover from this(1) have "x \<in> set (filter act xs)" unfolding f by simp
    ultimately show False using assms(4) by (metis image_eqI set_map)
  qed
  show "find (\<lambda>x. act x \<and> key x = k) (xs[i := y]) = (if k = key y then Some y else find (\<lambda>x. act x \<and> key x = k) xs)"
    unfolding find_filter f g app using none by (auto split: option.splits)
  show "distinct (map key (filter act (xs[i := y])))"
    unfolding g using assms(4,5) unfolding f by auto
qed

subsection \<open>Association lists with distinct keys\<close>

lemma map_of_mset_eq:
  assumes "mset xs = mset ys" and "distinct (map fst ys)"
  shows "distinct (map fst xs)" and "map_of xs = map_of ys"
proof -
  from assms show *: "distinct (map fst xs)"
    by (metis mset_eq_imp_distinct_iff mset_map)
  show "map_of xs = map_of ys"
  proof
    fix k
    have "map_of xs k = Some v \<longleftrightarrow> map_of ys k = Some v" for v
      using * assms mset_eq_setD [OF assms(1)] by (simp add: map_of_eq_Some_iff)
    then show "map_of xs k = map_of ys k" by (metis not_None_eq)
  qed
qed

lemma map_of_remove1:
  assumes "distinct (map fst xs)" and "(k, v) \<in> set xs"
  shows "distinct (map fst (remove1 (k, v) xs))"
    and "map_of (remove1 (k, v) xs) = (map_of xs)(k := None)"
    and "k \<notin> fst ` set (remove1 (k, v) xs)"
proof -
  from assms(1) show "distinct (map fst (remove1 (k, v) xs))"
    by (induction xs) (auto dest!: set_remove1_subset [THEN subsetD] simp: rev_image_eqI)
  from assms show *: "k \<notin> fst ` set (remove1 (k, v) xs)"
    by (induction xs) (auto simp: rev_image_eqI)
  have "map_of (remove1 (k, v) xs) x = map_of xs x" if "x \<noteq> k" for x
    using that by (induction xs) auto
  with * show "map_of (remove1 (k, v) xs) = (map_of xs)(k := None)"
    by (auto simp: fun_eq_iff map_of_eq_None_iff)
qed

subsection \<open>Words and bytes\<close>

text \<open>
  \<open>b8 w\<close> is the byte \<open>(uint8_t) w\<close>; \<open>w8 c\<close> is the byte \<open>c\<close> as an unsigned word.
\<close>

definition b8 :: "'a::len word \<Rightarrow> char" where
  "b8 w = char_of (unat w)"

definition w8 :: "char \<Rightarrow> 'a::len word" where
  "w8 c = word_of_nat (of_char c)"

lemma w8_b8: "(w8 (b8 w) :: 'a::len word) = take_bit 8 w"
proof -
  have "(w8 (b8 w) :: 'a word) = word_of_nat (unat w mod 256)"
    by (simp add: w8_def b8_def)
  also have "\<dots> = word_of_nat (take_bit 8 (unat w))"
    by (simp add: take_bit_eq_mod)
  also have "\<dots> = take_bit 8 w"
    by (rule bit_word_eqI) (simp add: bit_take_bit_iff bit_of_nat_iff bit_unsigned_iff)
  finally show ?thesis .
qed

lemma b8_mask: "b8 (w AND 0xff) = b8 (w :: 'a::len word)"
proof -
  have "w AND 0xff = take_bit 8 w"
    by (simp add: take_bit_eq_mask mask_eq_decr_exp)
  moreover have "unat (take_bit 8 w) = unat w mod 256"
    by (simp only: unsigned_take_bit_eq) (simp add: take_bit_eq_mod)
  ultimately show ?thesis by (simp only: b8_def char_of_mod_256)
qed


subsection \<open>Decimal numbers\<close>

text \<open>\<open>dec\<close> is what \<open>%d\<close> prints; \<open>pad n\<close> is the left-justified field \<open>%-ns\<close>.\<close>

fun dec_nat :: "nat \<Rightarrow> string" where
  "dec_nat n = (if n < 10 then [char_of (48 + n)] else dec_nat (n div 10) @ [char_of (48 + n mod 10)])"

declare dec_nat.simps [simp del]

definition dec :: "int \<Rightarrow> string" where
  "dec i = (if i < 0 then CHR ''-'' # dec_nat (nat (- i)) else dec_nat (nat i))"

definition pad :: "nat \<Rightarrow> string \<Rightarrow> string" where
  "pad n s = s @ replicate (n - length s) CHR '' ''"

definition undec :: "string \<Rightarrow> nat" where
  "undec s = foldl (\<lambda>n c. 10 * n + (of_char c - 48)) 0 s"

lemma undec_dec_nat: "undec (dec_nat n) = n"
proof (induction n rule: dec_nat.induct)
  case (1 n)
  have d: "of_char (char_of (48 + m) :: char) = 48 + m" if "m < 10" for m :: nat
    using that by simp
  show ?case
  proof (cases "n < 10")
    case True
    then show ?thesis by (subst dec_nat.simps) (simp add: undec_def d)
  next
    case False
    with 1 have "foldl (\<lambda>n c. 10 * n + (of_char c - 48)) 0 (dec_nat (n div 10)) = n div 10" by (simp add: undec_def)
    with False show ?thesis by (subst dec_nat.simps) (simp add: undec_def d)
  qed
qed

lemma dec_nat_hd: "dec_nat n \<noteq> [] \<and> hd (dec_nat n) \<noteq> CHR ''-''"
proof (induction n rule: dec_nat.induct)
  case (1 n)
  have "char_of (48 + m) \<noteq> CHR ''-''" if "m < 10" for m :: nat
  proof
    assume "char_of (48 + m) = CHR ''-''"
    then have "of_char (char_of (48 + m) :: char) = (of_char CHR ''-'' :: nat)" by simp
    with that show False by simp
  qed
  with 1 show ?case by (subst (1 2) dec_nat.simps) (auto simp: hd_append)
qed

lemma dec_inj: "dec i = dec j \<longleftrightarrow> i = j"
proof -
  have eq: "dec_nat m = dec_nat n \<longleftrightarrow> m = n" for m n using undec_dec_nat by metis
  have ne: "dec_nat n \<noteq> CHR ''-'' # s" for n s using dec_nat_hd [of n] by auto
  show ?thesis
    by (cases "i < 0"; cases "j < 0") (simp_all add: dec_def eq ne ne [symmetric] eq_nat_nat_iff)
qed

lemma length_dec_nat: "0 < k \<Longrightarrow> n < 10 ^ k \<Longrightarrow> length (dec_nat n) \<le> k"
proof (induction n arbitrary: k rule: dec_nat.induct)
  case (1 n)
  show ?case
  proof (cases "n < 10")
    case True
    with 1 show ?thesis by (subst dec_nat.simps) simp
  next
    case False
    with 1(3) obtain j where k: "k = Suc j" "0 < j" by (cases k; cases "k - 1") auto
    with 1(3) have "n div 10 < 10 ^ j" by (simp add: less_mult_imp_div_less mult.commute)
    with 1(1) [OF False k(2)] False k show ?thesis by (subst dec_nat.simps) simp
  qed
qed

lemma length_dec: "\<bar>i\<bar> < 2 ^ 31 \<Longrightarrow> length (dec i) < 16"
  using length_dec_nat [of 10 "nat \<bar>i\<bar>"] by (auto simp: dec_def nat_less_iff)

end
