(* ===== verification/Message.thy ===== *)
theory Message
  imports Prelude
begin

section \<open>Messages, responses and label sets (types.h, core_message.c)\<close>

text \<open>
  The universal message of \<^verbatim>\<open>include/portal/types.h\<close> and the operations of
  \<^verbatim>\<open>src/core/core_message.c\<close>. A label set is the list of the first \<open>count\<close> rows of
  the C array \<open>labels\<close>; the rows behind \<open>count\<close> are never read. A body is the byte
  list of length \<open>body_len\<close> (the empty list is the NULL body). Arguments that the
  model passes by value cannot be NULL, so the NULL guards on \<open>ls\<close>, \<open>label\<close> and
  \<open>data\<close> have no counterpart. Allocation succeeds; releasing memory
  (\<open>portal_msg_free\<close>, \<open>portal_resp_free\<close>) has no effect on values.
\<close>

subsection \<open>Data\<close>

type_synonym portal_labels = "string list"
type_synonym portal_header = "string option \<times> string option"

record portal_auth =
  auth_user :: "string option"
  auth_token :: "string option"
  auth_labels :: portal_labels

record portal_trace =
  trace_id :: "64 word"
  parent_id :: "64 word"
  timestamp_us :: "64 word"
  hops :: "16 word"

record portal_ctx =
  ctx_auth :: portal_auth
  ctx_trace :: portal_trace
  source_node :: "string option"
  source_module :: "string option"

record portal_msg =
  msg_id :: "64 word"
  msg_path :: "string option"
  msg_method :: "8 word"
  msg_headers :: "portal_header list"
  msg_body :: string
  msg_ctx :: "portal_ctx option"

record portal_resp =
  resp_status :: "16 word"
  resp_headers :: "portal_header list"
  resp_body :: string

text \<open>What \<open>calloc\<close> leaves in a context: NULL pointers and zeros.\<close>

definition ctx_zero :: portal_ctx where
  "ctx_zero =
     \<lparr>ctx_auth = \<lparr>auth_user = None, auth_token = None, auth_labels = []\<rparr>,
      ctx_trace = \<lparr>trace_id = 0, parent_id = 0, timestamp_us = 0, hops = 0\<rparr>,
      source_node = None, source_module = None\<rparr>"

subsection \<open>Messages and responses\<close>

text \<open>The counter \<open>g_msg_id\<close> is an explicit argument and result.\<close>

definition portal_msg_next_id :: "64 word \<Rightarrow> 64 word \<times> 64 word" where
  "portal_msg_next_id g_msg_id = (g_msg_id, g_msg_id + 1)"

definition portal_time_us :: "64 word \<Rightarrow> 64 word \<Rightarrow> 64 word" where
  "portal_time_us tv_sec tv_usec = tv_sec * 1000000 + tv_usec"

definition portal_msg_alloc :: "64 word \<Rightarrow> portal_msg \<times> 64 word" where
  "portal_msg_alloc g_msg_id =
     (let (i, g) = portal_msg_next_id g_msg_id
      in (\<lparr>msg_id = i, msg_path = None, msg_method = 0, msg_headers = [],
           msg_body = [], msg_ctx = None\<rparr>, g))"

definition portal_resp_alloc :: portal_resp where
  "portal_resp_alloc = \<lparr>resp_status = 0, resp_headers = [], resp_body = []\<rparr>"

definition portal_msg_set_path :: "portal_msg \<Rightarrow> string \<Rightarrow> int \<times> portal_msg" where
  "portal_msg_set_path msg path = (0, msg\<lparr>msg_path := Some path\<rparr>)"

definition portal_msg_set_method :: "portal_msg \<Rightarrow> 8 word \<Rightarrow> int \<times> portal_msg" where
  "portal_msg_set_method msg method = (0, msg\<lparr>msg_method := method\<rparr>)"

definition portal_msg_set_body :: "portal_msg \<Rightarrow> string \<Rightarrow> int \<times> portal_msg" where
  "portal_msg_set_body msg data = (0, msg\<lparr>msg_body := data\<rparr>)"

definition portal_msg_add_header :: "portal_msg \<Rightarrow> string \<Rightarrow> string \<Rightarrow> int \<times> portal_msg" where
  "portal_msg_add_header msg key val =
     (if PORTAL_MAX_HEADERS \<le> length (msg_headers msg) then (-1, msg)
      else (0, msg\<lparr>msg_headers := msg_headers msg @ [(Some key, Some val)]\<rparr>))"

definition portal_resp_set_status :: "portal_resp \<Rightarrow> 16 word \<Rightarrow> portal_resp" where
  "portal_resp_set_status resp status = resp\<lparr>resp_status := status\<rparr>"

definition portal_resp_set_body :: "portal_resp \<Rightarrow> string \<Rightarrow> portal_resp" where
  "portal_resp_set_body resp data = resp\<lparr>resp_body := data\<rparr>"

subsection \<open>Label sets\<close>

definition portal_labels_add :: "portal_labels \<Rightarrow> string \<Rightarrow> int \<times> portal_labels" where
  "portal_labels_add ls label =
     (if PORTAL_MAX_LABELS \<le> length ls then (-1, ls)
      else case find_index (\<lambda>l. l = label) ls of
        Some _ \<Rightarrow> (0, ls)
      | None \<Rightarrow> (0, ls @ [csnprintf PORTAL_MAX_LABEL_LEN label]))"

definition portal_labels_remove :: "portal_labels \<Rightarrow> string \<Rightarrow> int \<times> portal_labels" where
  "portal_labels_remove ls label =
     (case find_index (\<lambda>l. l = label) ls of
        Some i \<Rightarrow> (0, butlast (if i < length ls - 1 then ls[i := last ls] else ls))
      | None \<Rightarrow> (-1, ls))"

definition portal_labels_has :: "portal_labels \<Rightarrow> string \<Rightarrow> bool" where
  "portal_labels_has ls label \<longleftrightarrow> find_index (\<lambda>l. l = label) ls \<noteq> None"

definition portal_labels_intersects :: "portal_labels \<Rightarrow> portal_labels \<Rightarrow> bool" where
  "portal_labels_intersects a b \<longleftrightarrow> list_ex (\<lambda>x. list_ex (\<lambda>y. x = y) b) a"

definition portal_labels_clear :: "portal_labels \<Rightarrow> portal_labels" where
  "portal_labels_clear ls = []"

subsection \<open>Well-formed label sets\<close>

text \<open>
  The capacity bounds of \<open>portal_labels_t\<close>: at most \<open>PORTAL_MAX_LABELS\<close> rows, every row
  a terminated string of fewer than \<open>PORTAL_MAX_LABEL_LEN\<close> characters.
\<close>

definition labels_wf :: "portal_labels \<Rightarrow> bool" where
  "labels_wf ls \<longleftrightarrow>
     length ls \<le> PORTAL_MAX_LABELS \<and> (\<forall>l\<in>set ls. length l < PORTAL_MAX_LABEL_LEN)"

lemma labels_wf_Nil [simp]: "labels_wf []"
  by (simp add: labels_wf_def)

lemma portal_labels_has_iff [simp]: "portal_labels_has ls label \<longleftrightarrow> label \<in> set ls"
  unfolding portal_labels_has_def by (auto simp: index_simps)

lemma portal_labels_intersects_iff [simp]:
  "portal_labels_intersects a b \<longleftrightarrow> set a \<inter> set b \<noteq> {}"
  by (auto simp: portal_labels_intersects_def list_ex_iff)

lemma portal_labels_add_cases:
  obtains (full) "PORTAL_MAX_LABELS \<le> length ls" "portal_labels_add ls label = (-1, ls)"
  | (present) "length ls < PORTAL_MAX_LABELS" "label \<in> set ls"
      "portal_labels_add ls label = (0, ls)"
  | (added) "length ls < PORTAL_MAX_LABELS" "label \<notin> set ls"
      "portal_labels_add ls label = (0, ls @ [csnprintf PORTAL_MAX_LABEL_LEN label])"
  unfolding portal_labels_add_def
  by (cases "PORTAL_MAX_LABELS \<le> length ls"; cases "find_index (\<lambda>l. l = label) ls")
    (auto simp: index_simps dest: find_index_eqD)

lemma labels_wf_add: "labels_wf ls \<Longrightarrow> labels_wf (snd (portal_labels_add ls label))"
  by (rule portal_labels_add_cases [of ls label]) (auto simp: labels_wf_def)

text \<open>Removal by swapping with the last row removes exactly one row.\<close>

lemma swap_remove_mset:
  assumes "i < length xs"
  shows "mset (butlast (if i < length xs - 1 then xs[i := last xs] else xs)) =
           mset xs - {#xs ! i#}"
proof -
  from assms have ne: "xs \<noteq> []" by auto
  then obtain ys z where xs: "xs = ys @ [z]" by (metis rev_exhaust)
  show ?thesis
  proof (cases "i < length ys")
    case True
    then have "mset (ys[i := z]) = add_mset z (mset ys - {#ys ! i#})"
      by (simp add: mset_update)
    with True xs show ?thesis
      by (simp add: list_update_append nth_append mset_update
          add_mset_remove_trivial_If in_diff_count)
  next
    case False
    with assms xs show ?thesis by (simp add: nth_append)
  qed
qed

lemma distinct_swap_remove:
  assumes "distinct xs" and "i < length xs"
  shows "distinct (butlast (if i < length xs - 1 then xs[i := last xs] else xs))" (is "distinct ?ys")
    and "set (butlast (if i < length xs - 1 then xs[i := last xs] else xs)) = set xs - {xs ! i}"
proof -
  from assms have *: "mset ?ys = mset (remove1 (xs ! i) xs)"
    by (simp only: swap_remove_mset mset_remove1)
  with assms show "distinct ?ys" by (metis distinct_remove1 mset_eq_imp_distinct_iff)
  from * assms show "set ?ys = set xs - {xs ! i}"
    by (metis mset_eq_setD set_remove1_eq)
qed

lemma portal_labels_remove_cases:
  obtains (absent) "label \<notin> set ls" "portal_labels_remove ls label = (-1, ls)"
  | (found) i where "label \<in> set ls" "i < length ls" "ls ! i = label"
      "portal_labels_remove ls label =
         (0, butlast (if i < length ls - 1 then ls[i := last ls] else ls))"
proof (cases "find_index (\<lambda>l. l = label) ls")
  case None
  then have "label \<notin> set ls" by (auto simp: find_index_None_iff)
  with None that(1) show ?thesis by (simp add: portal_labels_remove_def)
next
  case (Some i)
  then show ?thesis
    using that(2) [of i] find_index_SomeD [OF Some] find_index_eqD [OF Some]
    by (simp add: portal_labels_remove_def)
qed

lemma portal_labels_remove_eq:
  assumes "distinct ls"
  shows "set (snd (portal_labels_remove ls label)) = set ls - {label}"
    and "distinct (snd (portal_labels_remove ls label))"
    and "fst (portal_labels_remove ls label) = (if label \<in> set ls then 0 else -1)"
  using assms distinct_swap_remove [OF assms]
  by (rule_tac portal_labels_remove_cases [of label ls]; force)+

lemma labels_wf_remove:
  assumes "labels_wf ls"
  shows "labels_wf (snd (portal_labels_remove ls label))"
proof (cases "find_index (\<lambda>l. l = label) ls")
  case None
  with assms show ?thesis by (simp add: portal_labels_remove_def)
next
  case (Some i)
  then have i: "i < length ls" by (rule find_index_SomeD)
  let ?ys = "butlast (if i < length ls - 1 then ls[i := last ls] else ls)"
  have "set_mset (mset ?ys) \<subseteq> set_mset (mset ls)"
    unfolding swap_remove_mset [OF i] by (rule set_mset_mono) simp
  then have "set ?ys \<subseteq> set ls" by (simp only: set_mset_mset)
  moreover have "length ?ys = length ls - 1" by simp
  ultimately show ?thesis
    using assms Some by (auto simp: labels_wf_def portal_labels_remove_def simp del: if_split)
qed

subsection \<open>The contract of a bounded set\<close>

text \<open>
  What the users of label sets (paths, events, accounts) rely on: adding an element that
  fits is set insertion while there is room and the identity afterwards, removing is set
  difference, and membership and intersection read the abstract set.
\<close>

locale bounded_set =
  fixes add :: "'s \<Rightarrow> 'a \<Rightarrow> int \<times> 's"
    and remove :: "'s \<Rightarrow> 'a \<Rightarrow> int \<times> 's"
    and abs :: "'s \<Rightarrow> 'a set"
    and inv :: "'s \<Rightarrow> bool"
    and fits :: "'a \<Rightarrow> bool"
    and cap :: nat
  assumes finite_abs: "inv s \<Longrightarrow> finite (abs s)"
    and abs_add: "inv s \<Longrightarrow> fits x \<Longrightarrow>
      abs (snd (add s x)) = (if card (abs s) < cap then insert x (abs s) else abs s)"
    and rc_add: "inv s \<Longrightarrow> fst (add s x) = (if card (abs s) < cap then 0 else -1)"
    and inv_add: "inv s \<Longrightarrow> fits x \<Longrightarrow> inv (snd (add s x))"
    and abs_remove: "inv s \<Longrightarrow> abs (snd (remove s x)) = abs s - {x}"
    and rc_remove: "inv s \<Longrightarrow> fst (remove s x) = (if x \<in> abs s then 0 else -1)"
    and inv_remove: "inv s \<Longrightarrow> inv (snd (remove s x))"
begin

lemma fold_add:
  assumes "inv s" and "\<forall>x\<in>set xs. fits x" and "card (abs s \<union> set xs) \<le> cap"
  shows "inv (fold (\<lambda>x s. snd (add s x)) xs s) \<and>
         abs (fold (\<lambda>x s. snd (add s x)) xs s) = abs s \<union> set xs"
  using assms
proof (induction xs arbitrary: s)
  case Nil
  then show ?case by simp
next
  case (Cons x xs)
  let ?s = "snd (add s x)"
  have fin: "finite (abs s \<union> set (x # xs))" using Cons.prems(1) finite_abs by simp
  have abs: "abs ?s = insert x (abs s)"
  proof (cases "card (abs s) < cap")
    case True
    with Cons.prems show ?thesis by (simp add: abs_add)
  next
    case False
    with Cons.prems(3) fin have "abs s \<union> set (x # xs) = abs s"
      by (intro card_seteq [symmetric]) auto
    then have "insert x (abs s) = abs s" by auto
    with False Cons.prems show ?thesis by (simp add: abs_add)
  qed
  with Cons.prems have "inv ?s" and "card (abs ?s \<union> set xs) \<le> cap"
    by (auto simp: inv_add)
  with Cons.IH [of ?s] Cons.prems(2) abs show ?case by simp
qed

lemma add_then_remove:
  "inv s \<Longrightarrow> fits x \<Longrightarrow> x \<notin> abs s \<Longrightarrow> abs (snd (remove (snd (add s x)) x)) = abs s"
  by (auto simp: abs_remove inv_add abs_add)

end

definition labels_inv :: "portal_labels \<Rightarrow> bool" where
  "labels_inv ls \<longleftrightarrow> labels_wf ls \<and> distinct ls"

definition label_fits :: "string \<Rightarrow> bool" where
  "label_fits l \<longleftrightarrow> length l < PORTAL_MAX_LABEL_LEN"

interpretation lbl: bounded_set portal_labels_add portal_labels_remove set labels_inv label_fits
  PORTAL_MAX_LABELS
proof
  fix s :: portal_labels and x :: string
  assume inv: "labels_inv s"
  then have card: "card (set s) = length s" by (simp add: labels_inv_def distinct_card)
  show "finite (set s)" by simp
  show "fst (portal_labels_add s x) = (if card (set s) < PORTAL_MAX_LABELS then 0 else - 1)"
    unfolding card by (rule portal_labels_add_cases [of s x]) auto
  show "set (snd (portal_labels_remove s x)) = set s - {x}"
    and "fst (portal_labels_remove s x) = (if x \<in> set s then 0 else - 1)"
    and "labels_inv (snd (portal_labels_remove s x))"
    using inv by (simp_all add: labels_inv_def portal_labels_remove_eq labels_wf_remove)
  assume fits: "label_fits x"
  show "set (snd (portal_labels_add s x)) =
          (if card (set s) < PORTAL_MAX_LABELS then insert x (set s) else set s)"
    unfolding card using fits
    by (rule_tac portal_labels_add_cases [of s x]) (auto simp: label_fits_def cstr_simps)
  show "labels_inv (snd (portal_labels_add s x))"
    using inv fits by (rule_tac portal_labels_add_cases [of s x])
      (auto simp: labels_inv_def label_fits_def cstr_simps labels_wf_def)
qed

subsection \<open>Properties\<close>

text \<open>
  On a label set without duplicates, adding a label that fits its row makes
  exactly this label a member, unless 32 labels are stored already, in which case the call
  returns -1 and changes nothing; removing a label takes away exactly this one and reports
  -1 when it was not there. Both keep the rows distinct, terminated and at most 32.
\<close>

lemma labels_add_remove_set:
  assumes "labels_inv ls" and "label_fits l"
  shows "(if length ls < 32
          then fst (portal_labels_add ls l) = 0 \<and>
               (\<forall>x. portal_labels_has (snd (portal_labels_add ls l)) x \<longleftrightarrow> x = l \<or> portal_labels_has ls x)
          else portal_labels_add ls l = (-1, ls)) \<and>
         fst (portal_labels_remove ls l) = (if portal_labels_has ls l then 0 else -1) \<and>
         (\<forall>x. portal_labels_has (snd (portal_labels_remove ls l)) x \<longleftrightarrow> x \<noteq> l \<and> portal_labels_has ls x) \<and>
         labels_inv (snd (portal_labels_add ls l)) \<and> labels_inv (snd (portal_labels_remove ls l))"
proof -
  have card: "card (set ls) = length ls" using assms(1) by (simp add: labels_inv_def distinct_card)
  have "portal_labels_add ls l = (-1, ls)" if "\<not> length ls < 32"
    using that by (simp add: portal_labels_add_def)
  then show ?thesis
    using lbl.abs_add [OF assms] lbl.rc_add [OF assms(1), of l] lbl.inv_add [OF assms]
      lbl.abs_remove [OF assms(1), of l] lbl.rc_remove [OF assms(1), of l] lbl.inv_remove [OF assms(1), of l]
    unfolding card by auto
qed

text \<open>
  A label of 64 or more characters is compared in full but stored truncated to
  63: after a successful add it is still not a member, and a second add stores a second
  copy of the truncated row.
\<close>

lemma labels_add_truncates:
  assumes "labels_wf ls" and "length ls < 31" and "64 \<le> length l"
  shows "fst (portal_labels_add ls l) = 0 \<and> \<not> portal_labels_has (snd (portal_labels_add ls l)) l \<and>
         snd (portal_labels_add (snd (portal_labels_add ls l)) l) = ls @ [take 63 l, take 63 l]"
proof -
  have no: "l \<notin> set ls" "l \<noteq> take 63 l"
  proof -
    show "l \<notin> set ls" using assms(1,3) by (auto simp: labels_wf_def)
    show "l \<noteq> take 63 l"
    proof
      assume "l = take 63 l"
      from arg_cong [OF this, of length] assms(3) show False by simp
    qed
  qed
  then have "find_index (\<lambda>x. x = l) ls = None" "find_index (\<lambda>x. x = l) (ls @ [take 63 l]) = None"
    by (auto simp: find_index_None_iff)
  with no assms(2) show ?thesis by (auto simp: portal_labels_add_def csnprintf_def)
qed

end
