(* ===== verification/Registry.thy ===== *)
theory Registry
  imports Message
begin

section \<open>The contract of a registry of named entries\<close>

text \<open>
  The path registry, the event registry, the storage providers and the CLI commands share
  one contract: entries are found by name, a name that is taken cannot be registered again,
  and unregistering removes exactly the named entry. \<open>fits\<close> says that the name is stored
  without truncation, \<open>room\<close> that the table has a free slot. Each component interprets the
  locale on its own operations.
\<close>

locale registry =
  fixes find :: "'s \<Rightarrow> string \<Rightarrow> 'e option"
    and register :: "'s \<Rightarrow> 'r \<Rightarrow> int \<times> 's"
    and unregister :: "'s \<Rightarrow> string \<Rightarrow> int \<times> 's"
    and name :: "'r \<Rightarrow> string"
    and make :: "'r \<Rightarrow> 'e"
    and ok :: "'s \<Rightarrow> bool"
    and fits :: "'r \<Rightarrow> bool"
    and room :: "'s \<Rightarrow> bool"
  assumes register_fresh: "ok s \<Longrightarrow> find s (name r) = None \<Longrightarrow> fits r \<Longrightarrow> room s \<Longrightarrow>
      fst (register s r) = 0 \<and> ok (snd (register s r)) \<and>
      find (snd (register s r)) = (find s)(name r \<mapsto> make r)"
    and register_taken: "ok s \<Longrightarrow> find s (name r) \<noteq> None \<Longrightarrow> register s r = (-1, s)"
    and unregister: "ok s \<Longrightarrow>
      fst (unregister s n) = (if find s n = None then -1 else 0) \<and> ok (snd (unregister s n)) \<and>
      find (snd (unregister s n)) = (find s)(n := None)"
begin

lemma register_twice:
  assumes "ok s" "find s (name r) = None" "fits r" "room s" "name r' = name r"
  shows "register (snd (register s r)) r' = (-1, snd (register s r))"
  using register_fresh [OF assms(1-4)] assms(5) by (intro register_taken) auto

lemma register_unregister:
  assumes "ok s" "find s (name r) = None" "fits r" "room s"
  shows "fst (unregister (snd (register s r)) (name r)) = 0"
    and "find (snd (unregister (snd (register s r)) (name r))) = find s"
proof -
  note r = register_fresh [OF assms]
  with unregister [of "snd (register s r)" "name r"] assms(2)
  show "fst (unregister (snd (register s r)) (name r)) = 0"
    and "find (snd (unregister (snd (register s r)) (name r))) = find s"
    by (auto simp: fun_eq_iff)
qed

lemma register_other:
  assumes "ok s" "fits r" "room s" "n \<noteq> name r"
  shows "find (snd (register s r)) n = find s n"
  using assms register_fresh [of s r] register_taken [of s r] by (cases "find s (name r)") auto

lemma unregister_all:
  assumes "ok s"
  shows "find (fold (\<lambda>n s. snd (unregister s n)) ns s) = (\<lambda>n. if n \<in> set ns then None else find s n)"
  using assms
proof (induction ns arbitrary: s)
  case (Cons n ns)
  then show ?case using unregister [OF Cons.prems, of n] by (auto simp: fun_eq_iff)
qed simp

end

end
