(* ===== verification/Events.thy ===== *)
theory Events
  imports Registry
begin

section \<open>The event registry (core_events.c)\<close>

text \<open>
  \<^verbatim>\<open>src/core/core_events.c\<close>: event definitions, subscriptions and delivery. The arrays
  \<open>defs\<close> and \<open>subs\<close> with their counts are lists; an entry keeps its place when it becomes
  inactive. A handler pointer is a number; what \<open>portal_events_emit\<close> does to the outside is
  the list of its deliveries: a call of a handler with a message, or a \<open>write\<close> of \<open>n\<close> bytes
  from the text buffer to a descriptor. \<open>write_ok fd\<close> says whether that write succeeds.
  Handlers run to their end without calling back into the registry.

  The lemmas show that active definitions have distinct paths, what a subscription receives,
  and that the access rule is applied at delivery time.
\<close>

subsection \<open>Data\<close>

abbreviation (input) EVENT_MAX_DEFS :: nat where "EVENT_MAX_DEFS \<equiv> 256"
abbreviation (input) EVENT_MAX_SUBS :: nat where "EVENT_MAX_SUBS \<equiv> 1024"
abbreviation (input) AUTH_TOKEN_SIZE :: nat where "AUTH_TOKEN_SIZE \<equiv> 33"

record event_def =
  ed_path :: string
  ed_module :: string
  ed_description :: string
  ed_labels :: portal_labels
  ed_active :: bool

record event_sub =
  es_event_path :: string
  es_subscriber :: string
  es_token :: string
  es_labels :: portal_labels
  es_handler :: "nat option"
  es_userdata :: "nat option"
  es_notify_fd :: int
  es_active :: bool

record event_registry =
  reg_defs :: "event_def list"
  reg_subs :: "event_sub list"

datatype delivery =
    DCall nat "nat option" portal_msg
  | DWrite int string nat

subsection \<open>Event definitions\<close>

definition portal_events_init :: event_registry where
  "portal_events_init = \<lparr>reg_defs = [], reg_subs = []\<rparr>"

definition portal_events_destroy :: "event_registry \<Rightarrow> event_registry" where
  "portal_events_destroy reg = \<lparr>reg_defs = [], reg_subs = []\<rparr>"

definition portal_events_find :: "event_registry \<Rightarrow> string \<Rightarrow> event_def option" where
  "portal_events_find reg path = find (\<lambda>d. ed_active d \<and> ed_path d = path) (reg_defs reg)"

definition opt_labels :: "portal_labels option \<Rightarrow> portal_labels" where
  "opt_labels ls = (case ls of None \<Rightarrow> [] | Some l \<Rightarrow> l)"

definition event_def_new ::
    "string \<Rightarrow> string \<Rightarrow> string option \<Rightarrow> portal_labels option \<Rightarrow> event_def" where
  "event_def_new path module_name description labels =
     \<lparr>ed_path = csnprintf PORTAL_MAX_PATH_LEN path,
      ed_module = csnprintf PORTAL_MAX_MODULE_NAME module_name,
      ed_description = csnprintf 256 (case description of None \<Rightarrow> [] | Some d \<Rightarrow> d),
      ed_labels = opt_labels labels, ed_active = True\<rparr>"

definition portal_events_register ::
    "event_registry \<Rightarrow> string \<Rightarrow> string \<Rightarrow> string option \<Rightarrow> portal_labels option \<Rightarrow>
     int \<times> event_registry" where
  "portal_events_register reg path module_name description labels =
     (if portal_events_find reg path \<noteq> None then (-1, reg)
      else if EVENT_MAX_DEFS \<le> length (reg_defs reg) then (-1, reg)
      else (0, reg\<lparr>reg_defs := reg_defs reg @ [event_def_new path module_name description labels]\<rparr>))"

definition portal_events_unregister :: "event_registry \<Rightarrow> string \<Rightarrow> int \<times> event_registry" where
  "portal_events_unregister reg path =
     (case find_index (\<lambda>d. ed_active d \<and> ed_path d = path) (reg_defs reg) of
        None \<Rightarrow> (-1, reg)
      | Some i \<Rightarrow>
          (0, reg\<lparr>reg_defs := (reg_defs reg)[i := (reg_defs reg ! i)\<lparr>ed_active := False\<rparr>]\<rparr>))"

definition portal_events_unregister_module :: "event_registry \<Rightarrow> string \<Rightarrow> int \<times> event_registry" where
  "portal_events_unregister_module reg module_name =
     (int (length (filter (\<lambda>d. ed_active d \<and> ed_module d = module_name) (reg_defs reg))),
      reg\<lparr>reg_defs := map (\<lambda>d. if ed_active d \<and> ed_module d = module_name then d\<lparr>ed_active := False\<rparr> else d)
                        (reg_defs reg)\<rparr>)"

subsection \<open>Patterns and access\<close>

definition pattern_matches :: "string \<Rightarrow> string \<Rightarrow> bool" where
  "pattern_matches pattern path =
     (let plen = length pattern
      in if 2 \<le> plen \<and> pattern ! (plen - 1) = CHR ''*'' \<and> pattern ! (plen - 2) = CHR ''/''
         then strncmp_eq pattern path (plen - 1)
         else if pattern = ''*'' then True
         else pattern = path)"

definition check_acl :: "event_def \<Rightarrow> portal_labels \<Rightarrow> bool" where
  "check_acl def sub_labels =
     (if length (ed_labels def) = 0 then True
      else if portal_labels_has sub_labels ''root'' then True
      else portal_labels_intersects (ed_labels def) sub_labels)"

subsection \<open>Subscriptions\<close>

definition same_sub :: "string \<Rightarrow> string \<Rightarrow> event_sub \<Rightarrow> bool" where
  "same_sub event_path subscriber s \<longleftrightarrow>
     es_active s \<and> es_event_path s = event_path \<and> es_subscriber s = subscriber"

definition portal_events_subscribe ::
    "event_registry \<Rightarrow> string \<Rightarrow> string \<Rightarrow> portal_labels option \<Rightarrow> nat option \<Rightarrow> nat option \<Rightarrow>
     int \<times> event_registry" where
  "portal_events_subscribe reg event_path subscriber subscriber_labels handler userdata =
     (case portal_events_find reg event_path of
        None \<Rightarrow> (-1, reg)
      | Some def \<Rightarrow>
          if \<not> check_acl def (opt_labels subscriber_labels) then (-1, reg)
          else if list_ex (same_sub event_path subscriber) (reg_subs reg) then (0, reg)
          else if EVENT_MAX_SUBS \<le> length (reg_subs reg) then (-1, reg)
          else (0, reg\<lparr>reg_subs := reg_subs reg @
                 [\<lparr>es_event_path = csnprintf PORTAL_MAX_PATH_LEN event_path,
                   es_subscriber = csnprintf PORTAL_MAX_LABEL_LEN subscriber, es_token = [],
                   es_labels = opt_labels subscriber_labels, es_handler = handler,
                   es_userdata = userdata, es_notify_fd = -1, es_active = True\<rparr>]\<rparr>))"

definition portal_events_subscribe_fd ::
    "event_registry \<Rightarrow> string \<Rightarrow> string \<Rightarrow> portal_labels option \<Rightarrow> string option \<Rightarrow> int \<Rightarrow>
     int \<times> event_registry" where
  "portal_events_subscribe_fd reg event_path subscriber subscriber_labels token notify_fd =
     (case portal_events_find reg event_path of
        None \<Rightarrow> (-1, reg)
      | Some def \<Rightarrow>
          if \<not> check_acl def (opt_labels subscriber_labels) then (-1, reg)
          else if list_ex (same_sub event_path subscriber) (reg_subs reg) then (0, reg)
          else if EVENT_MAX_SUBS \<le> length (reg_subs reg) then (-1, reg)
          else (0, reg\<lparr>reg_subs := reg_subs reg @
                 [\<lparr>es_event_path = csnprintf PORTAL_MAX_PATH_LEN event_path,
                   es_subscriber = csnprintf PORTAL_MAX_LABEL_LEN subscriber,
                   es_token = (case token of None \<Rightarrow> [] | Some t \<Rightarrow> csnprintf AUTH_TOKEN_SIZE t),
                   es_labels = opt_labels subscriber_labels, es_handler = None,
                   es_userdata = None, es_notify_fd = notify_fd, es_active = True\<rparr>]\<rparr>))"

definition deactivate_sub :: "event_registry \<Rightarrow> nat \<Rightarrow> event_registry" where
  "deactivate_sub reg i =
     reg\<lparr>reg_subs := (reg_subs reg)[i := (reg_subs reg ! i)\<lparr>es_active := False\<rparr>]\<rparr>"

definition portal_events_unsubscribe :: "event_registry \<Rightarrow> string \<Rightarrow> string \<Rightarrow> int \<times> event_registry" where
  "portal_events_unsubscribe reg event_path subscriber =
     (case find_index (same_sub event_path subscriber) (reg_subs reg) of
        None \<Rightarrow> (-1, reg)
      | Some i \<Rightarrow> (0, deactivate_sub reg i))"

definition portal_events_unsubscribe_all :: "event_registry \<Rightarrow> string \<Rightarrow> int \<times> event_registry" where
  "portal_events_unsubscribe_all reg subscriber =
     (int (length (filter (\<lambda>s. es_active s \<and> es_subscriber s = subscriber) (reg_subs reg))),
      reg\<lparr>reg_subs := map (\<lambda>s. if es_active s \<and> es_subscriber s = subscriber
                                then s\<lparr>es_active := False\<rparr> else s) (reg_subs reg)\<rparr>)"

definition portal_events_subscribe_pattern ::
    "event_registry \<Rightarrow> string \<Rightarrow> string option \<Rightarrow> portal_labels option \<Rightarrow> nat \<Rightarrow> nat option \<Rightarrow>
     int \<times> event_registry" where
  "portal_events_subscribe_pattern reg pattern subscriber subscriber_labels handler userdata =
     (let sub = \<lparr>es_event_path = csnprintf PORTAL_MAX_PATH_LEN pattern,
                 es_subscriber = csnprintf PORTAL_MAX_LABEL_LEN
                   (case subscriber of None \<Rightarrow> ''module'' | Some s \<Rightarrow> s),
                 es_token = [],
                 es_labels = (case subscriber_labels of Some l \<Rightarrow> l
                              | None \<Rightarrow> snd (portal_labels_add [] ''root'')),
                 es_handler = Some handler, es_userdata = userdata, es_notify_fd = -1,
                 es_active = True\<rparr>
      in if list_ex (\<lambda>s. es_active s \<and> es_handler s = Some handler \<and> es_event_path s = pattern) (reg_subs reg)
         then (0, reg)
         else case find_index (\<lambda>s. \<not> es_active s) (reg_subs reg) of
           Some i \<Rightarrow> (0, reg\<lparr>reg_subs := (reg_subs reg)[i := sub]\<rparr>)
         | None \<Rightarrow>
             if EVENT_MAX_SUBS \<le> length (reg_subs reg) then (-1, reg)
             else (0, reg\<lparr>reg_subs := reg_subs reg @ [sub]\<rparr>))"

definition portal_events_unsubscribe_handler ::
    "event_registry \<Rightarrow> string \<Rightarrow> nat \<Rightarrow> int \<times> event_registry" where
  "portal_events_unsubscribe_handler reg pattern handler =
     (case find_index (\<lambda>s. es_active s \<and> es_handler s = Some handler \<and> es_event_path s = pattern)
             (reg_subs reg) of
        None \<Rightarrow> (-1, reg)
      | Some i \<Rightarrow> (0, deactivate_sub reg i))"

subsection \<open>Emission\<close>

text \<open>
  The text of a notification before truncation; \<open>snprintf\<close> returns its length, whatever part
  of it fits the buffer of \<open>PORTAL_MAX_PATH_LEN + 256\<close> bytes.
\<close>

abbreviation (input) EVENT_BUF_SIZE :: nat where "EVENT_BUF_SIZE \<equiv> PORTAL_MAX_PATH_LEN + 256"

definition event_text :: "string \<Rightarrow> string \<Rightarrow> string" where
  "event_text event_path data =
     (if data \<noteq> []
      then ''[EVENT] '' @ event_path @ '': '' @ takeWhile (\<lambda>c. c \<noteq> CHR 0x00) data @ [CHR 0x0A]
      else ''[EVENT] '' @ event_path @ [CHR 0x0A])"

definition event_msg :: "string \<Rightarrow> string \<Rightarrow> portal_msg" where
  "event_msg event_path data =
     \<lparr>msg_id = 0, msg_path = Some event_path, msg_method = PORTAL_METHOD_EVENT, msg_headers = [],
      msg_body = data,
      msg_ctx = Some (ctx_zero\<lparr>ctx_auth := \<lparr>auth_user = Some ''__system__'', auth_token = None,
                        auth_labels = snd (portal_labels_add [] ''root'')\<rparr>\<rparr>)\<rparr>"

definition emit_allowed :: "event_def option \<Rightarrow> string \<Rightarrow> event_sub \<Rightarrow> bool" where
  "emit_allowed def event_path sub \<longleftrightarrow>
     es_active sub \<and> pattern_matches (es_event_path sub) event_path \<and>
     (case def of
        Some d \<Rightarrow> check_acl d (es_labels sub)
      | None \<Rightarrow> portal_labels_has (es_labels sub) ''root'')"

fun emit_loop ::
    "(int \<Rightarrow> bool) \<Rightarrow> event_def option \<Rightarrow> string \<Rightarrow> string \<Rightarrow> event_sub list \<Rightarrow>
     event_sub list \<times> delivery list \<times> int" where
  "emit_loop write_ok def event_path data [] = ([], [], 0)"
| "emit_loop write_ok def event_path data (sub # subs) =
     (let (subs', ds, n) = emit_loop write_ok def event_path data subs
      in if \<not> emit_allowed def event_path sub then (sub # subs', ds, n)
         else case es_handler sub of
           Some h \<Rightarrow> (sub # subs', DCall h (es_userdata sub) (event_msg event_path data) # ds, n + 1)
         | None \<Rightarrow>
             if 0 \<le> es_notify_fd sub then
               (let text = event_text event_path data;
                    d = DWrite (es_notify_fd sub) (csnprintf EVENT_BUF_SIZE text) (length text)
                in if write_ok (es_notify_fd sub) then (sub # subs', d # ds, n + 1)
                   else (sub\<lparr>es_active := False\<rparr> # subs', d # ds, n))
             else (sub # subs', ds, n))"

definition portal_events_emit ::
    "(int \<Rightarrow> bool) \<Rightarrow> event_registry \<Rightarrow> string \<Rightarrow> string \<Rightarrow> int \<times> delivery list \<times> event_registry" where
  "portal_events_emit write_ok reg event_path data =
     (let def = portal_events_find reg event_path;
          (subs, ds, delivered) = emit_loop write_ok def event_path data (reg_subs reg)
      in (delivered, ds, reg\<lparr>reg_subs := subs\<rparr>))"

subsection \<open>Listing\<close>

definition portal_events_list :: "event_registry \<Rightarrow> (event_def \<Rightarrow> 'a \<Rightarrow> 'a) \<Rightarrow> 'a \<Rightarrow> 'a" where
  "portal_events_list reg callback userdata = fold callback (filter ed_active (reg_defs reg)) userdata"

definition portal_events_list_subs ::
    "event_registry \<Rightarrow> string \<Rightarrow> (event_sub \<Rightarrow> 'a \<Rightarrow> 'a) \<Rightarrow> 'a \<Rightarrow> 'a" where
  "portal_events_list_subs reg subscriber callback userdata =
     fold callback (filter (\<lambda>s. es_active s \<and> es_subscriber s = subscriber) (reg_subs reg)) userdata"

definition portal_events_count :: "event_registry \<Rightarrow> int" where
  "portal_events_count reg = int (length (filter ed_active (reg_defs reg)))"

definition portal_events_sub_count :: "event_registry \<Rightarrow> int" where
  "portal_events_sub_count reg = int (length (filter es_active (reg_subs reg)))"

subsection \<open>Definitions stay unique\<close>

definition events_ok :: "event_registry \<Rightarrow> bool" where
  "events_ok reg \<longleftrightarrow> length (reg_defs reg) \<le> EVENT_MAX_DEFS \<and>
     distinct (map ed_path (filter ed_active (reg_defs reg)))"

lemma portal_events_find_None:
  "portal_events_find reg path = None \<longleftrightarrow> path \<notin> set (map ed_path (filter ed_active (reg_defs reg)))"
  by (auto simp: portal_events_find_def find_None_iff)

lemma portal_events_find_Some:
  "portal_events_find reg path = Some d \<Longrightarrow> d \<in> set (reg_defs reg) \<and> ed_active d \<and> ed_path d = path"
  by (auto simp: portal_events_find_def find_Some_iff)

lemma events_register_correct:
  assumes "events_ok reg" "portal_events_find reg path = None" "length path < PORTAL_MAX_PATH_LEN"
    "length (reg_defs reg) < EVENT_MAX_DEFS"
  shows "fst (portal_events_register reg path m desc ls) = 0"
    and "events_ok (snd (portal_events_register reg path m desc ls))"
    and "portal_events_find (snd (portal_events_register reg path m desc ls)) =
           (portal_events_find reg)(path \<mapsto> event_def_new path m desc ls)"
proof -
  let ?d = "event_def_new path m desc ls"
  have d: "ed_active ?d" "ed_path ?d = path"
    using assms(3) by (simp_all add: event_def_new_def csnprintf_fits)
  have r: "portal_events_register reg path m desc ls = (0, reg\<lparr>reg_defs := reg_defs reg @ [?d]\<rparr>)"
    using assms by (simp add: portal_events_register_def)
  then show "fst (portal_events_register reg path m desc ls) = 0" by simp
  show "events_ok (snd (portal_events_register reg path m desc ls))"
    using assms d portal_events_find_None [of reg path] r by (auto simp: events_ok_def)
  show "portal_events_find (snd (portal_events_register reg path m desc ls)) = (portal_events_find reg)(path \<mapsto> ?d)"
    using assms(2) d r by (auto simp: portal_events_find_def find_append_single fun_eq_iff split: option.splits)
qed

lemma events_unregister_correct:
  assumes "events_ok reg"
  shows "fst (portal_events_unregister reg path) = (if portal_events_find reg path = None then -1 else 0)"
    and "events_ok (snd (portal_events_unregister reg path))"
    and "portal_events_find (snd (portal_events_unregister reg path)) = (portal_events_find reg)(path := None)"
proof -
  let ?P = "\<lambda>d. ed_active d \<and> ed_path d = path"
  have "fst (portal_events_unregister reg path) = (if portal_events_find reg path = None then -1 else 0) \<and>
    events_ok (snd (portal_events_unregister reg path)) \<and>
    portal_events_find (snd (portal_events_unregister reg path)) = (portal_events_find reg)(path := None)"
  proof (cases "find_index ?P (reg_defs reg)")
    case None
    then show ?thesis using assms
      by (auto simp: portal_events_unregister_def portal_events_find_def find_index_find fun_eq_iff)
  next
    case (Some i)
    have dist: "distinct (map ed_path (filter ed_active (reg_defs reg)))"
      and len: "length (reg_defs reg) \<le> EVENT_MAX_DEFS" using assms by (simp_all add: events_ok_def)
    let ?y = "(reg_defs reg ! i)\<lparr>ed_active := False\<rparr>"
    have y: "\<not> ed_active ?y" by simp
    have "distinct (map ed_path (filter ed_active ((reg_defs reg)[i := ?y])))"
      unfolding filter_update_inactive [OF dist Some y] using dist by (rule distinct_map_filter_key)
    with len Some show ?thesis
      using find_update_inactive [OF dist Some y]
      by (auto simp: portal_events_unregister_def portal_events_find_def events_ok_def fun_eq_iff find_index_find [of ?P])
  qed
  then show "fst (portal_events_unregister reg path) = (if portal_events_find reg path = None then -1 else 0)"
    and "events_ok (snd (portal_events_unregister reg path))"
    and "portal_events_find (snd (portal_events_unregister reg path)) = (portal_events_find reg)(path := None)"
    by blast+
qed

interpretation er: registry portal_events_find
  "\<lambda>reg (path, m, desc, ls). portal_events_register reg path m desc ls" portal_events_unregister
  fst "\<lambda>(path, m, desc, ls). event_def_new path m desc ls" events_ok
  "\<lambda>r. length (fst r) < PORTAL_MAX_PATH_LEN" "\<lambda>reg. length (reg_defs reg) < EVENT_MAX_DEFS"
proof
  show "(case r of (path, m, desc, ls) \<Rightarrow> portal_events_register s path m desc ls) = (-1, s)"
    if "portal_events_find s (fst r) \<noteq> None" for s r
    using that by (auto simp: portal_events_register_def split: prod.splits)
qed (auto simp: events_register_correct events_unregister_correct split: prod.splits)

subsection \<open>Delivery\<close>

text \<open>What one subscription that may receive the event gets.\<close>

definition sub_delivery :: "string \<Rightarrow> string \<Rightarrow> event_sub \<Rightarrow> delivery option" where
  "sub_delivery event_path data sub =
     (case es_handler sub of
        Some h \<Rightarrow> Some (DCall h (es_userdata sub) (event_msg event_path data))
      | None \<Rightarrow>
          if 0 \<le> es_notify_fd sub
          then Some (DWrite (es_notify_fd sub) (csnprintf EVENT_BUF_SIZE (event_text event_path data))
                       (length (event_text event_path data)))
          else None)"

definition delivery_ok :: "(int \<Rightarrow> bool) \<Rightarrow> delivery \<Rightarrow> bool" where
  "delivery_ok write_ok d = (case d of DCall _ _ _ \<Rightarrow> True | DWrite fd _ _ \<Rightarrow> write_ok fd)"

lemma emit_loop_deliveries:
  "fst (snd (emit_loop write_ok def event_path data subs)) =
   [d. Some d \<leftarrow> map (sub_delivery event_path data) (filter (emit_allowed def event_path) subs)]"
  by (induction subs) (auto simp: sub_delivery_def split_beta Let_def split: option.splits)

lemma emit_loop_count:
  "snd (snd (emit_loop write_ok def event_path data subs)) =
   int (length (filter (delivery_ok write_ok) (fst (snd (emit_loop write_ok def event_path data subs)))))"
  by (induction subs) (auto simp: delivery_ok_def split_beta Let_def split: option.splits)

lemma emit_loop_subs:
  "fst (emit_loop write_ok def event_path data subs) =
   map (\<lambda>s. if emit_allowed def event_path s \<and> es_handler s = None \<and> 0 \<le> es_notify_fd s \<and> \<not> write_ok (es_notify_fd s)
            then s\<lparr>es_active := False\<rparr> else s) subs"
  by (induction subs) (auto simp: split_beta Let_def split: option.splits)

lemma pattern_matches_wildcard: "pattern_matches (p @ ''/*'') path \<longleftrightarrow> prefix (p @ ''/'') path"
proof -
  have *: "take (Suc (length p)) (p @ ''/*'') = p @ ''/''" by simp
  have "pattern_matches (p @ ''/*'') path \<longleftrightarrow> take (Suc (length p)) path = p @ ''/''"
    unfolding pattern_matches_def Let_def strncmp_eq_def using * by (auto simp: nth_append)
  also have "\<dots> \<longleftrightarrow> prefix (p @ ''/'') path"
    using strncmp_eq_prefix [of path "p @ ''/''"] by (simp add: strncmp_eq_def)
  finally show ?thesis .
qed

lemma pattern_matches_exact:
  assumes "\<And>p. pattern \<noteq> p @ ''/*''" "pattern \<noteq> ''*''"
  shows "pattern_matches pattern path \<longleftrightarrow> pattern = path"
proof -
  have "\<not> (2 \<le> length pattern \<and> pattern ! (length pattern - 1) = CHR ''*'' \<and> pattern ! (length pattern - 2) = CHR ''/'')"
  proof
    assume a: "2 \<le> length pattern \<and> pattern ! (length pattern - 1) = CHR ''*'' \<and> pattern ! (length pattern - 2) = CHR ''/''"
    then obtain q b where q: "pattern = q @ [b]" by (cases pattern rule: rev_cases) auto
    with a obtain r c where "q = r @ [c]" by (cases q rule: rev_cases) auto
    with a q have "pattern = r @ ''/*''" by (simp add: nth_append)
    with assms(1) show False by blast
  qed
  with assms(2) show ?thesis unfolding pattern_matches_def Let_def by auto
qed

subsection \<open>Properties\<close>

text \<open>
  On a registry with distinct active paths, a new event is found with the labels
  it was registered with, registering the same path again is refused and changes nothing, and
  unregistering it restores every lookup; definitions of other paths are never affected.
\<close>

lemma events_register_unregister:
  assumes "events_ok reg" and "portal_events_find reg path = None" and "length path < 1024"
    and "length (reg_defs reg) < 256"
  defines "reg1 \<equiv> \<lambda>m d ls. snd (portal_events_register reg path m d ls)"
  shows "fst (portal_events_register reg path m d ls) = 0 \<and>
         portal_events_find (reg1 m d ls) = (portal_events_find reg)(path \<mapsto> event_def_new path m d ls) \<and>
         portal_events_register (reg1 m d ls) path m' d' ls' = (-1, reg1 m d ls) \<and>
         portal_events_find (snd (portal_events_unregister (reg1 m d ls) path)) = portal_events_find reg"
  using er.register_fresh [of reg "(path, m, d, ls)"] er.register_twice [of reg "(path, m, d, ls)" "(path, m', d', ls')"]
    er.register_unregister [of reg "(path, m, d, ls)"] assms by simp

text \<open>
  Property C14. Emission delivers to exactly the active subscriptions whose pattern matches and
  who pass the access rule at that moment: for a declared event its labels are empty, the
  subscriber holds \<open>root\<close> or shares a label; for an undeclared event the subscriber holds
  \<open>root\<close>. The result counts the deliveries that succeeded, and a subscription whose write
  failed is inactive afterwards.
\<close>

theorem events_emit_acl:
  assumes "portal_events_emit write_ok reg path data = (n, ds, reg')"
  defines "may \<equiv> \<lambda>s. es_active s \<and> pattern_matches (es_event_path s) path \<and>
     (''root'' \<in> set (es_labels s) \<or>
      (\<exists>d. portal_events_find reg path = Some d \<and>
           (ed_labels d = [] \<or> set (ed_labels d) \<inter> set (es_labels s) \<noteq> {})))"
  shows "ds = [d. Some d \<leftarrow> map (sub_delivery path data) (filter may (reg_subs reg))] \<and>
         n = int (length (filter (delivery_ok write_ok) ds)) \<and>
         reg_subs reg' = map (\<lambda>s. if may s \<and> es_handler s = None \<and> 0 \<le> es_notify_fd s \<and> \<not> write_ok (es_notify_fd s)
            then s\<lparr>es_active := False\<rparr> else s) (reg_subs reg)"
proof -
  have may: "emit_allowed (portal_events_find reg path) path = may"
    by (auto simp: emit_allowed_def may_def check_acl_def fun_eq_iff split: option.splits)
  show ?thesis
    using assms(1) emit_loop_deliveries [of write_ok "portal_events_find reg path" path data "reg_subs reg"]
      emit_loop_count [of write_ok "portal_events_find reg path" path data "reg_subs reg"]
      emit_loop_subs [of write_ok "portal_events_find reg path" path data "reg_subs reg"]
    by (auto simp: portal_events_emit_def Let_def may split: prod.splits)
qed

theorem events_emit_acl_witness:
  "fst (snd (portal_events_emit (\<lambda>fd. True)
     \<lparr>reg_defs = [], reg_subs = [\<lparr>es_event_path = ''/events/*'', es_subscriber = ''bob'', es_token = [],
        es_labels = [''dev''], es_handler = Some 1, es_userdata = None, es_notify_fd = -1, es_active = True\<rparr>]\<rparr>
     ''/events/x'' '''')) = []"
proof -
  let ?reg = "\<lparr>reg_defs = [], reg_subs = [\<lparr>es_event_path = ''/events/*'', es_subscriber = ''bob'', es_token = [],
        es_labels = [''dev''], es_handler = Some 1, es_userdata = None, es_notify_fd = -1, es_active = True\<rparr>]\<rparr>"
  obtain n ds reg' where e: "portal_events_emit (\<lambda>fd. True) ?reg ''/events/x'' '''' = (n, ds, reg')"
    by (cases "portal_events_emit (\<lambda>fd. True) ?reg ''/events/x'' ''''") auto
  from events_emit_acl [OF e] have "ds = []" by (simp add: portal_events_find_def)
  with e show ?thesis by simp
qed

text \<open>
  A pattern ending in a slash and a star matches exactly the paths below that
  prefix, a lone star matches every path, and any other pattern matches only itself.
\<close>

lemma pattern_matches_iff:
  "pattern_matches pattern path \<longleftrightarrow>
   (\<exists>p. pattern = p @ ''/*'' \<and> prefix (p @ ''/'') path) \<or> pattern = ''*'' \<or>
   (pattern = path \<and> \<not> suffix ''/*'' pattern)"
proof (cases "\<exists>p. pattern = p @ ''/*''")
  case True
  then show ?thesis by (auto simp: pattern_matches_wildcard suffix_def)
next
  case False
  then show ?thesis
    using pattern_matches_exact [of pattern path] by (auto simp: suffix_def pattern_matches_def Let_def)
qed

text \<open>
  After \<open>portal_events_unsubscribe_all\<close> no active subscription of that subscriber is
  left, the subscriptions of all others are unchanged, and the result is the number removed.
\<close>

lemma events_unsubscribe_all_complete:
  defines "r \<equiv> \<lambda>reg who. portal_events_unsubscribe_all reg who"
  shows "filter es_active (reg_subs (snd (r reg who))) =
           filter (\<lambda>s. es_subscriber s \<noteq> who) (filter es_active (reg_subs reg)) \<and>
         fst (r reg who) = portal_events_sub_count reg - portal_events_sub_count (snd (r reg who))"
proof -
  define new where "new = map (\<lambda>s. if es_active s \<and> es_subscriber s = who then s\<lparr>es_active := False\<rparr> else s)
      (reg_subs reg)"
  have "filter es_active (map (\<lambda>s. if es_active s \<and> es_subscriber s = who then s\<lparr>es_active := False\<rparr> else s) ss) =
      filter (\<lambda>s. es_subscriber s \<noteq> who) (filter es_active ss)" for ss
    by (induction ss) auto
  then have 1: "filter es_active new = filter (\<lambda>s. es_subscriber s \<noteq> who) (filter es_active (reg_subs reg))"
    unfolding new_def .
  have 2: "length (filter (\<lambda>s. es_active s \<and> es_subscriber s = who) ss) +
      length (filter (\<lambda>s. es_subscriber s \<noteq> who) (filter es_active ss)) = length (filter es_active ss)" for ss
    by (induction ss) auto
  show ?thesis
    using 1 2 [of "reg_subs reg"]
    by (simp add: r_def portal_events_unsubscribe_all_def portal_events_sub_count_def flip: new_def)
qed

text \<open>
  Inactive definitions are never reused: after 256 rounds of registering and
  unregistering one event the registry is empty for every reader, and yet no event can be
  registered any more.
\<close>

lemma events_slots_exhausted:
  defines "round \<equiv> \<lambda>reg. snd (portal_events_unregister (snd (portal_events_register reg ''/e'' ''m'' None None)) ''/e'')"
  shows "portal_events_count ((round ^^ 256) portal_events_init) = 0 \<and>
         fst (portal_events_register ((round ^^ 256) portal_events_init) path m d ls) = -1"
proof -
  define d where "d = event_def_new ''/e'' ''m'' None None"
  define e where "e = d\<lparr>ed_active := False\<rparr>"
  have d: "ed_active d" "ed_path d = ''/e''" and e: "\<not> ed_active e"
    by (simp_all add: d_def e_def event_def_new_def csnprintf_def)
  have step: "round (portal_events_init\<lparr>reg_defs := replicate n e\<rparr>) = portal_events_init\<lparr>reg_defs := replicate (Suc n) e\<rparr>"
    if "n < 256" for n
  proof -
    have "find (\<lambda>d. ed_active d \<and> ed_path d = ''/e'') (replicate n e) = None"
      "find_index (\<lambda>d. ed_active d \<and> ed_path d = ''/e'') (replicate n e) = None"
      using e by (auto simp: find_None_iff find_index_None_iff)
    with that d show ?thesis
      unfolding round_def
      by (simp add: portal_events_register_def portal_events_unregister_def portal_events_find_def
          find_index_append list_update_append nth_append replicate_append_same
          flip: d_def e_def)
  qed
  have "(round ^^ n) portal_events_init = portal_events_init\<lparr>reg_defs := replicate n e\<rparr>" if "n \<le> 256" for n
    using that by (induction n) (auto simp: step, simp add: portal_events_init_def)
  from this [of 256] e show ?thesis
    by (simp add: portal_events_count_def portal_events_register_def)
qed

text \<open>
  A notification that does not fit the text buffer is written with the length
  \<open>snprintf\<close> returned, not with the length of the buffer: for a long payload the \<open>write\<close> takes
  more bytes than the buffer of 1280 holds.
\<close>

lemma events_emit_overread:
  assumes "sub \<in> set (reg_subs reg)" and "emit_allowed (portal_events_find reg path) path sub"
    and "es_handler sub = None" and "0 \<le> es_notify_fd sub"
    and "CHR 0x00 \<notin> set data" and "1280 \<le> length data"
  shows "\<exists>text n. DWrite (es_notify_fd sub) text n \<in> set (fst (snd (portal_events_emit write_ok reg path data))) \<and>
           length text < 1280 \<and> 1280 < n"
proof -
  have ne: "data \<noteq> []" using assms(6) by auto
  have "takeWhile (\<lambda>c. c \<noteq> CHR 0x00) data = data" using assms(5) by (auto simp: takeWhile_eq_all_conv)
  then have tw: "length (takeWhile (\<lambda>c. c \<noteq> CHR 0x00) data) = length data" by (simp only:)
  have n: "1280 < length (event_text path data)"
    using assms(5,6) ne tw by (simp add: event_text_def)
  have "DWrite (es_notify_fd sub) (csnprintf EVENT_BUF_SIZE (event_text path data)) (length (event_text path data))
      \<in> set (fst (snd (portal_events_emit write_ok reg path data)))"
    using assms(1-4) emit_loop_deliveries [of write_ok "portal_events_find reg path" path data "reg_subs reg"]
    by (force simp: portal_events_emit_def Let_def split_beta sub_delivery_def)
  moreover have "length (csnprintf EVENT_BUF_SIZE (event_text path data)) < 1280"
    using length_csnprintf [of EVENT_BUF_SIZE "event_text path data"] by simp
  ultimately show ?thesis using n by blast
qed

end
