(* ===== verification/Hashtable.thy ===== *)
theory Hashtable
  imports Prelude
begin

section \<open>The open-addressing hash table (core_hashtable.c)\<close>

text \<open>
  \<^verbatim>\<open>src/core/core_hashtable.c\<close>: FNV-1a hashing, linear probing, tombstones, doubling
  at a load factor of 0.75. An \<open>ht_entry_t\<close> with its \<open>occupied\<close> tag (0, 1, 2) is the
  datatype \<open>slot\<close>; the key and value of a slot that is not occupied are NULL in C. A
  value is a \<open>void *\<close>, hence an \<open>option\<close> whose \<open>None\<close> is the NULL pointer.

  \<open>size_t\<close> is 64 bits wide for the hash and unbounded for sizes, which are bounded by
  the memory of the machine. The test \<open>(double)(count + 1) / capacity > 0.75\<close> is exact
  for sizes below \<open>2 ^ 50\<close> and is written without division. The mutual recursion of
  \<open>ht_resize\<close> and \<open>portal_ht_set\<close> is unrolled with a depth counter; the lemma
  \<open>ht_set_rec_depth\<close> shows that depth 2 is enough, because a table that was just
  doubled never asks for another resize.

  The lemmas show: the invariant \<open>ht_wf\<close> (probe paths have no holes, the count and the
  load bound) is kept by every operation; on tables without duplicate keys the
  operations refine map lookup, update and deletion, provided that \<open>portal_ht_set\<close> is
  called with a fresh key or on a table without tombstones. The last proviso is needed:
  \<open>portal_ht_set\<close> stops at the first tombstone without looking for the key behind it.
\<close>

subsection \<open>Data\<close>

datatype 'v slot = Empty | Occupied string "'v option" | Tombstone

record 'v ht =
  ht_entries :: "'v slot list"
  ht_capacity :: nat
  ht_count :: nat

abbreviation (input) HT_INITIAL_CAPACITY :: nat where "HT_INITIAL_CAPACITY \<equiv> 64"

subsection \<open>Operations\<close>

primrec fnv1a_loop :: "64 word \<Rightarrow> string \<Rightarrow> 64 word" where
  "fnv1a_loop hash [] = hash"
| "fnv1a_loop hash (c # cs) = fnv1a_loop ((hash XOR w8 c) * 0x100000001b3) cs"

definition fnv1a :: "string \<Rightarrow> 64 word" where
  "fnv1a key = fnv1a_loop 0xcbf29ce484222325 key"

definition home :: "nat \<Rightarrow> string \<Rightarrow> nat" where
  "home capacity key = unat (fnv1a key) mod capacity"

definition probe :: "nat \<Rightarrow> string \<Rightarrow> nat \<Rightarrow> nat" where
  "probe capacity key i = (home capacity key + i) mod capacity"

definition portal_ht_init :: "nat \<Rightarrow> 'v ht" where
  "portal_ht_init initial_capacity =
     (let cap = (if initial_capacity < HT_INITIAL_CAPACITY then HT_INITIAL_CAPACITY
                 else initial_capacity)
      in \<lparr>ht_entries = replicate cap Empty, ht_capacity = cap, ht_count = 0\<rparr>)"

definition portal_ht_destroy :: "'v ht \<Rightarrow> 'v ht" where
  "portal_ht_destroy ht = \<lparr>ht_entries = [], ht_capacity = 0, ht_count = 0\<rparr>"

text \<open>
  The probing loop of \<open>portal_ht_set\<close>: the slot it stops at, and whether it inserts
  there (empty or tombstone) or updates the value of the key it found.
\<close>

fun ht_set_loop :: "'v ht \<Rightarrow> string \<Rightarrow> nat list \<Rightarrow> (nat \<times> bool) option" where
  "ht_set_loop ht key [] = None"
| "ht_set_loop ht key (i # is) =
     (let s = probe (ht_capacity ht) key i
      in case ht_entries ht ! s of
           Empty \<Rightarrow> Some (s, True)
         | Tombstone \<Rightarrow> Some (s, True)
         | Occupied k v \<Rightarrow> if k = key then Some (s, False) else ht_set_loop ht key is)"

definition ht_insert :: "'v ht \<Rightarrow> string \<Rightarrow> 'v option \<Rightarrow> int \<times> 'v ht" where
  "ht_insert ht key val =
     (case ht_set_loop ht key [0..<ht_capacity ht] of
        None \<Rightarrow> (-1, ht)
      | Some (s, True) \<Rightarrow>
          (0, ht\<lparr>ht_entries := (ht_entries ht)[s := Occupied key val],
                 ht_count := ht_count ht + 1\<rparr>)
      | Some (s, False) \<Rightarrow>
          (0, ht\<lparr>ht_entries := (ht_entries ht)[s := Occupied key val]\<rparr>))"

text \<open>
  \<open>ht_resize\<close> re-inserts the occupied slots of the old array in array order through the
  set operation it is given; \<open>calloc_ok n\<close> says whether \<open>calloc\<close> of \<open>n\<close> slots succeeds.
\<close>

definition ht_reinsert ::
    "('v ht \<Rightarrow> string \<Rightarrow> 'v option \<Rightarrow> int \<times> 'v ht) \<Rightarrow> 'v slot \<Rightarrow> 'v ht \<Rightarrow> 'v ht" where
  "ht_reinsert set_fn s ht =
     (case s of Occupied k v \<Rightarrow> snd (set_fn ht k v) | _ \<Rightarrow> ht)"

definition ht_resize ::
    "('v ht \<Rightarrow> string \<Rightarrow> 'v option \<Rightarrow> int \<times> 'v ht) \<Rightarrow> (nat \<Rightarrow> bool) \<Rightarrow>
     'v ht \<Rightarrow> nat \<Rightarrow> int \<times> 'v ht" where
  "ht_resize set_fn calloc_ok ht new_capacity =
     (if \<not> calloc_ok new_capacity then (-1, ht)
      else (0, fold (ht_reinsert set_fn) (ht_entries ht)
                 \<lparr>ht_entries = replicate new_capacity Empty, ht_capacity = new_capacity,
                  ht_count = 0\<rparr>))"

definition ht_overloaded :: "'v ht \<Rightarrow> bool" where
  "ht_overloaded ht \<longleftrightarrow> 3 * ht_capacity ht < 4 * (ht_count ht + 1)"

primrec ht_set_rec ::
    "(nat \<Rightarrow> bool) \<Rightarrow> nat \<Rightarrow> 'v ht \<Rightarrow> string \<Rightarrow> 'v option \<Rightarrow> int \<times> 'v ht" where
  "ht_set_rec calloc_ok 0 = (\<lambda>ht key val. (-1, ht))"
| "ht_set_rec calloc_ok (Suc depth) = (\<lambda>ht key val.
     if ht_overloaded ht then
       (case ht_resize (ht_set_rec calloc_ok depth) calloc_ok ht (ht_capacity ht * 2) of
          (rc, ht') \<Rightarrow> if rc < 0 then (-1, ht') else ht_insert ht' key val)
     else ht_insert ht key val)"

definition portal_ht_set_alloc ::
    "(nat \<Rightarrow> bool) \<Rightarrow> 'v ht \<Rightarrow> string \<Rightarrow> 'v option \<Rightarrow> int \<times> 'v ht" where
  "portal_ht_set_alloc calloc_ok = ht_set_rec calloc_ok 2"

text \<open>The other components call the table in a process that does not run out of memory.\<close>

definition portal_ht_set :: "'v ht \<Rightarrow> string \<Rightarrow> 'v option \<Rightarrow> int \<times> 'v ht" where
  "portal_ht_set = portal_ht_set_alloc (\<lambda>n. True)"

text \<open>The probing loop that \<open>portal_ht_get\<close> and \<open>portal_ht_del\<close> share.\<close>

fun ht_scan :: "'v ht \<Rightarrow> string \<Rightarrow> nat list \<Rightarrow> nat option" where
  "ht_scan ht key [] = None"
| "ht_scan ht key (i # is) =
     (let s = probe (ht_capacity ht) key i
      in case ht_entries ht ! s of
           Empty \<Rightarrow> None
         | Occupied k v \<Rightarrow> if k = key then Some s else ht_scan ht key is
         | Tombstone \<Rightarrow> ht_scan ht key is)"

definition ht_find :: "'v ht \<Rightarrow> string \<Rightarrow> nat option" where
  "ht_find ht key = ht_scan ht key [0..<ht_capacity ht]"

definition portal_ht_get :: "'v ht \<Rightarrow> string \<Rightarrow> 'v option" where
  "portal_ht_get ht key =
     (case ht_find ht key of
        None \<Rightarrow> None
      | Some s \<Rightarrow> (case ht_entries ht ! s of Occupied k v \<Rightarrow> v | _ \<Rightarrow> None))"

definition portal_ht_del :: "'v ht \<Rightarrow> string \<Rightarrow> int \<times> 'v ht" where
  "portal_ht_del ht key =
     (case ht_find ht key of
        None \<Rightarrow> (-1, ht)
      | Some s \<Rightarrow> (0, ht\<lparr>ht_entries := (ht_entries ht)[s := Tombstone],
                        ht_count := ht_count ht - 1\<rparr>))"

text \<open>
  A client that holds the pointer \<open>portal_ht_get\<close> returned may write through it; the
  table then holds the changed object in the same slot.
\<close>

definition ht_modify :: "'v ht \<Rightarrow> string \<Rightarrow> ('v \<Rightarrow> 'v) \<Rightarrow> 'v ht" where
  "ht_modify ht key f =
     (case ht_find ht key of
        None \<Rightarrow> ht
      | Some s \<Rightarrow> (case ht_entries ht ! s of
            Occupied k v \<Rightarrow>
              ht\<lparr>ht_entries := (ht_entries ht)[s := Occupied k (map_option f v)]\<rparr>
          | _ \<Rightarrow> ht))"

fun ht_items :: "'v slot list \<Rightarrow> (string \<times> 'v option) list" where
  "ht_items [] = []"
| "ht_items (Occupied k v # es) = (k, v) # ht_items es"
| "ht_items (e # es) = ht_items es"

text \<open>\<open>portal_ht_iter\<close> calls back with the items in array order.\<close>

definition portal_ht_iter :: "'v ht \<Rightarrow> (string \<Rightarrow> 'v option \<Rightarrow> 'a \<Rightarrow> 'a) \<Rightarrow> 'a \<Rightarrow> 'a" where
  "portal_ht_iter ht cb userdata = fold (\<lambda>(k, v). cb k v) (ht_items (ht_entries ht)) userdata"

definition portal_ht_count :: "'v ht \<Rightarrow> nat" where
  "portal_ht_count ht = ht_count ht"

subsection \<open>Items\<close>

lemma set_ht_items: "(k, v) \<in> set (ht_items es) \<longleftrightarrow> Occupied k v \<in> set es"
  by (induction es rule: ht_items.induct) auto

definition keys :: "'v slot list \<Rightarrow> string set" where
  "keys es = fst ` set (ht_items es)"

lemma in_keys_iff: "k \<in> keys es \<longleftrightarrow> (\<exists>v. Occupied k v \<in> set es)"
  by (force simp: keys_def simp flip: set_ht_items)

definition occupied :: "'v slot \<Rightarrow> bool" where
  "occupied e \<longleftrightarrow> (\<exists>k v. e = Occupied k v)"

lemma occupied_simps [simp]:
  "occupied (Occupied k v)" "\<not> occupied Empty" "\<not> occupied Tombstone"
  by (auto simp: occupied_def)

lemma ht_items_append [simp]: "ht_items (xs @ ys) = ht_items xs @ ht_items ys"
  by (induction xs rule: ht_items.induct) auto

lemma ht_items_Cons: "ht_items (e # es) = ht_items [e] @ ht_items es"
  by (cases e) auto

lemma ht_items_not_occupied: "\<not> occupied e \<Longrightarrow> ht_items (e # es) = ht_items es"
  by (cases e) auto

lemma ht_items_replicate_Empty [simp]: "ht_items (replicate n Empty) = []"
  by (induction n) auto

text \<open>Updating a slot exchanges the item it held for the item it now holds.\<close>

lemma ht_items_update_split:
  assumes "s < length es"
  obtains xs ys where "ht_items es = xs @ ht_items [es ! s] @ ys"
    and "\<And>e. ht_items (es[s := e]) = xs @ ht_items [e] @ ys"
proof
  show "ht_items es = ht_items (take s es) @ ht_items [es ! s] @ ht_items (drop (Suc s) es)"
    by (subst id_take_nth_drop [OF assms]) (simp add: ht_items_Cons [of _ "drop (Suc s) es"])
  show "ht_items (es[s := e]) = ht_items (take s es) @ ht_items [e] @ ht_items (drop (Suc s) es)" for e
    by (subst upd_conv_take_nth_drop [OF assms]) (simp add: ht_items_Cons [of _ "drop (Suc s) es"])
qed

lemma mset_ht_items_update:
  assumes "s < length es"
  shows "mset (ht_items (es[s := e])) =
           mset (ht_items es) - mset (ht_items [es ! s]) + mset (ht_items [e])"
  by (rule ht_items_update_split [OF assms]) simp

lemma length_ht_items_update:
  assumes "s < length es"
  shows "length (ht_items (es[s := e])) + length (ht_items [es ! s]) =
           length (ht_items es) + length (ht_items [e])"
  by (rule ht_items_update_split [OF assms]) simp

subsection \<open>Probe sequences\<close>

lemma probe_less: "0 < cap \<Longrightarrow> probe cap key i < cap"
  by (simp add: probe_def)

lemma probe_inj:
  assumes "i < cap" "j < cap" "probe cap key i = probe cap key j"
  shows "i = j"
proof -
  have *: "a = b" if "a \<le> b" "b < cap" "(h + a) mod cap = (h + b) mod cap" for a b h
  proof -
    from that have "cap dvd (h + b) - (h + a)"
      by (metis add_le_cancel_left mod_eq_dvd_iff_nat)
    then have "cap dvd b - a" by simp
    with that show ?thesis by (auto dest: dvd_imp_le)
  qed
  show ?thesis
    using assms * [of i j "home cap key"] * [of j i "home cap key"] nat_le_linear [of i j]
    unfolding probe_def by metis
qed

lemma probe_surj:
  assumes "s < cap"
  obtains i where "i < cap" "probe cap key i = s"
proof -
  have "inj_on (probe cap key) {..<cap}" by (auto intro: inj_onI probe_inj)
  moreover have "probe cap key ` {..<cap} \<subseteq> {..<cap}"
    using assms by (auto simp: probe_less)
  ultimately have "probe cap key ` {..<cap} = {..<cap}"
    by (simp add: endo_inj_surj)
  with assms have "s \<in> probe cap key ` {..<cap}" by simp
  then show ?thesis by (auto intro: that)
qed

subsection \<open>The search loops\<close>

lemma ht_scan_SomeD:
  "ht_scan ht key is = Some s \<Longrightarrow>
     \<exists>i v. i \<in> set is \<and> s = probe (ht_capacity ht) key i \<and> ht_entries ht ! s = Occupied key v"
  by (induction "is") (auto simp: Let_def split: slot.splits if_splits)

lemma ht_scan_not_None:
  assumes "\<forall>j\<in>set xs. ht_entries ht ! probe (ht_capacity ht) key j \<noteq> Empty"
    and "ht_entries ht ! probe (ht_capacity ht) key d = Occupied key v"
  shows "ht_scan ht key (xs @ d # ys) \<noteq> None"
  using assms by (induction xs) (auto simp: Let_def split: slot.splits)

lemma upt_split_at: "d < n \<Longrightarrow> [0..<n] = [0..<d] @ d # [Suc d..<n]"
  using upt_add_eq_append [of 0 d "n - d"] upt_conv_Cons [of d n] by simp

lemma ht_set_loop_True:
  "ht_set_loop ht key is = Some (s, True) \<Longrightarrow>
     \<exists>xs d ys. is = xs @ d # ys \<and> s = probe (ht_capacity ht) key d \<and>
       \<not> occupied (ht_entries ht ! s) \<and>
       (\<forall>j\<in>set xs. \<exists>k v. ht_entries ht ! probe (ht_capacity ht) key j = Occupied k v \<and> k \<noteq> key)"
proof (induction "is")
  case (Cons i "is")
  let ?e = "ht_entries ht ! probe (ht_capacity ht) key i"
  show ?case
  proof (cases ?e)
    case (Occupied k v)
    with Cons.prems have k: "k \<noteq> key" and "ht_set_loop ht key is = Some (s, True)"
      by (auto simp: Let_def split: if_splits)
    from Cons.IH [OF this(2)] obtain xs d ys where *: "is = xs @ d # ys"
        "s = probe (ht_capacity ht) key d" "\<not> occupied (ht_entries ht ! s)"
        "\<forall>j\<in>set xs. \<exists>k v. ht_entries ht ! probe (ht_capacity ht) key j = Occupied k v \<and> k \<noteq> key"
      by blast
    with Occupied k show ?thesis
      by (intro exI [of _ "i # xs"] exI [of _ d] exI [of _ ys]) auto
  next
    case Empty
    with Cons.prems show ?thesis by (intro exI [of _ "[]"]) (auto simp: Let_def)
  next
    case Tombstone
    with Cons.prems show ?thesis by (intro exI [of _ "[]"]) (auto simp: Let_def)
  qed
qed simp

lemma ht_set_loop_False:
  "ht_set_loop ht key is = Some (s, False) \<Longrightarrow>
     \<exists>i v. i \<in> set is \<and> s = probe (ht_capacity ht) key i \<and> ht_entries ht ! s = Occupied key v"
  by (induction "is") (auto simp: Let_def split: slot.splits if_splits)

lemma ht_set_loop_None:
  "ht_set_loop ht key is = None \<Longrightarrow> i \<in> set is \<Longrightarrow>
     occupied (ht_entries ht ! probe (ht_capacity ht) key i)"
  by (induction "is") (auto simp: Let_def split: slot.splits if_splits)

subsection \<open>The invariant\<close>

text \<open>
  No probe path has a hole: between the home slot of an occupied slot's key and that
  slot there is no empty slot.
\<close>

definition ht_reach :: "'v ht \<Rightarrow> bool" where
  "ht_reach ht \<longleftrightarrow>
     (\<forall>k v d. d < ht_capacity ht \<longrightarrow>
        ht_entries ht ! probe (ht_capacity ht) k d = Occupied k v \<longrightarrow>
        (\<forall>j<d. ht_entries ht ! probe (ht_capacity ht) k j \<noteq> Empty))"

definition ht_wf :: "'v ht \<Rightarrow> bool" where
  "ht_wf ht \<longleftrightarrow>
     length (ht_entries ht) = ht_capacity ht \<and> HT_INITIAL_CAPACITY \<le> ht_capacity ht \<and>
     ht_count ht = length (ht_items (ht_entries ht)) \<and>
     4 * ht_count ht \<le> 3 * ht_capacity ht \<and> ht_reach ht"

definition ht_nodup :: "'v ht \<Rightarrow> bool" where
  "ht_nodup ht \<longleftrightarrow> distinct (map fst (ht_items (ht_entries ht)))"

definition ht_tombfree :: "'v ht \<Rightarrow> bool" where
  "ht_tombfree ht \<longleftrightarrow> Tombstone \<notin> set (ht_entries ht)"

definition ht_inv :: "'v ht \<Rightarrow> bool" where
  "ht_inv ht \<longleftrightarrow> ht_wf ht \<and> ht_nodup ht"

definition ht_map :: "'v ht \<Rightarrow> string \<rightharpoonup> 'v option" where
  "ht_map ht = map_of (ht_items (ht_entries ht))"

lemma ht_wfD:
  assumes "ht_wf ht"
  shows "length (ht_entries ht) = ht_capacity ht" and "HT_INITIAL_CAPACITY \<le> ht_capacity ht"
    and "ht_count ht = length (ht_items (ht_entries ht))"
    and "4 * ht_count ht \<le> 3 * ht_capacity ht" and "ht_reach ht" and "0 < ht_capacity ht"
  using assms by (auto simp: ht_wf_def)

lemma ht_invD: "ht_inv ht \<Longrightarrow> ht_wf ht" "ht_inv ht \<Longrightarrow> ht_nodup ht"
  by (auto simp: ht_inv_def)

lemma ht_inv_init: "ht_inv (portal_ht_init n)" "ht_map (portal_ht_init n) = Map.empty"
  "ht_tombfree (portal_ht_init n)"
  by (auto simp: ht_inv_def ht_wf_def ht_nodup_def ht_reach_def ht_map_def ht_tombfree_def
      portal_ht_init_def Let_def probe_less)

lemma ht_map_None_iff: "ht_map ht k = None \<longleftrightarrow> k \<notin> keys (ht_entries ht)"
  by (simp add: ht_map_def keys_def map_of_eq_None_iff)

lemma ht_map_Some_iff:
  "ht_nodup ht \<Longrightarrow> ht_map ht k = Some v \<longleftrightarrow> Occupied k v \<in> set (ht_entries ht)"
  by (simp add: ht_map_def ht_nodup_def map_of_eq_Some_iff set_ht_items)

lemma ht_map_SomeI:
  "ht_nodup ht \<Longrightarrow> s < length (ht_entries ht) \<Longrightarrow> ht_entries ht ! s = Occupied k v \<Longrightarrow>
   ht_map ht k = Some v"
  by (metis ht_map_Some_iff nth_mem)

subsection \<open>Lookup\<close>

lemma ht_find_Some:
  assumes "ht_wf ht" "ht_find ht k = Some s"
  obtains v where "s < ht_capacity ht" "ht_entries ht ! s = Occupied k v"
  using ht_scan_SomeD [of ht k "[0..<ht_capacity ht]" s] assms ht_wfD(6) [OF assms(1)]
  by (auto simp: ht_find_def probe_less)

lemma ht_find_not_None:
  assumes "ht_wf ht" "Occupied k v \<in> set (ht_entries ht)"
  shows "ht_find ht k \<noteq> None"
proof -
  note wf = ht_wfD [OF assms(1)]
  from assms(2) obtain s where s: "s < ht_capacity ht" "ht_entries ht ! s = Occupied k v"
    by (metis in_set_conv_nth wf(1))
  obtain d where d: "d < ht_capacity ht" "probe (ht_capacity ht) k d = s"
    using probe_surj [OF s(1)] .
  with s wf(5) have "\<forall>j<d. ht_entries ht ! probe (ht_capacity ht) k j \<noteq> Empty"
    by (auto simp: ht_reach_def)
  with d s show ?thesis
    unfolding ht_find_def by (subst upt_split_at [OF d(1)], intro ht_scan_not_None) auto
qed

lemma ht_find_None_iff: "ht_wf ht \<Longrightarrow> ht_find ht k = None \<longleftrightarrow> ht_map ht k = None"
  by (metis ht_find_Some ht_find_not_None ht_map_None_iff ht_wfD(1) in_keys_iff nth_mem
      not_None_eq)

lemma portal_ht_get_map:
  assumes "ht_inv ht"
  shows "portal_ht_get ht k = (case ht_map ht k of None \<Rightarrow> None | Some v \<Rightarrow> v)"
proof (cases "ht_find ht k")
  case None
  then have "ht_map ht k = None" using ht_find_None_iff assms ht_invD by blast
  with None show ?thesis by (simp add: portal_ht_get_def)
next
  case (Some s)
  then obtain v where s: "s < ht_capacity ht" "ht_entries ht ! s = Occupied k v"
    using ht_find_Some assms ht_invD by blast
  with assms have "ht_map ht k = Some v" by (metis ht_invD ht_map_SomeI ht_wfD(1))
  with Some s show ?thesis by (simp add: portal_ht_get_def)
qed

subsection \<open>Updating one slot\<close>

lemma ht_reach_count [simp]: "ht_reach (ht\<lparr>ht_count := c\<rparr>) = ht_reach ht"
  by (simp add: ht_reach_def)

lemma ht_reach_update:
  assumes "ht_reach ht" "length (ht_entries ht) = ht_capacity ht" "s < ht_capacity ht" "e \<noteq> Empty"
    and "\<And>k v d j. e = Occupied k v \<Longrightarrow> d < ht_capacity ht \<Longrightarrow>
           probe (ht_capacity ht) k d = s \<Longrightarrow> j < d \<Longrightarrow>
           ht_entries ht ! probe (ht_capacity ht) k j \<noteq> Empty"
  shows "ht_reach (ht\<lparr>ht_entries := (ht_entries ht)[s := e]\<rparr>)"
  unfolding ht_reach_def
proof (intro allI impI)
  let ?cap = "ht_capacity ht" and ?es = "ht_entries ht"
  let ?ht = "ht\<lparr>ht_entries := ?es[s := e]\<rparr>"
  fix k v d j
  assume d: "d < ht_capacity ?ht" "ht_entries ?ht ! probe (ht_capacity ?ht) k d = Occupied k v"
    and j: "j < d"
  have "?es ! probe ?cap k j \<noteq> Empty"
  proof (cases "probe ?cap k d = s")
    case True
    with d assms(2,3) have "e = Occupied k v" by simp
    with assms(5) True d j show ?thesis by simp
  next
    case False
    with d assms(1) j show ?thesis by (auto simp: ht_reach_def)
  qed
  with assms(2-4) show "ht_entries ?ht ! probe (ht_capacity ?ht) k j \<noteq> Empty"
    by (cases "probe ?cap k j = s") auto
qed

lemma ht_items_length_le: "length (ht_items es) \<le> length es"
  by (induction es rule: ht_items.induct) auto

lemma ht_items_all_occupied: "\<forall>e\<in>set es. occupied e \<Longrightarrow> length (ht_items es) = length es"
  by (induction es rule: ht_items.induct) auto

text \<open>The abstract effect of the three kinds of slot update.\<close>

lemma slot_insert:
  assumes "distinct (map fst (ht_items es))" "s < length es" "\<not> occupied (es ! s)" "k \<notin> keys es"
  shows "distinct (map fst (ht_items (es[s := Occupied k v])))"
    and "map_of (ht_items (es[s := Occupied k v])) = (map_of (ht_items es))(k \<mapsto> v)"
proof -
  have "ht_items [es ! s] = []" using assms(3) by (cases "es ! s") auto
  then have m: "mset (ht_items (es[s := Occupied k v])) = mset ((k, v) # ht_items es)"
    using mset_ht_items_update [OF assms(2), of "Occupied k v"] by simp
  have d: "distinct (map fst ((k, v) # ht_items es))"
    using assms(1,4) by (simp add: keys_def)
  show "distinct (map fst (ht_items (es[s := Occupied k v])))"
    and "map_of (ht_items (es[s := Occupied k v])) = (map_of (ht_items es))(k \<mapsto> v)"
    using map_of_mset_eq [OF m d] by simp_all
qed

lemma slot_item:
  assumes "s < length es" "es ! s = Occupied k w"
  shows "(k, w) \<in> set (ht_items es)"
  using assms by (metis nth_mem set_ht_items)

lemma slot_replace:
  assumes "distinct (map fst (ht_items es))" "s < length es" "es ! s = Occupied k w"
  shows "distinct (map fst (ht_items (es[s := Occupied k v])))"
    and "map_of (ht_items (es[s := Occupied k v])) = (map_of (ht_items es))(k \<mapsto> v)"
proof -
  note r = map_of_remove1 [OF assms(1) slot_item [OF assms(2,3)]]
  have m: "mset (ht_items (es[s := Occupied k v])) = mset ((k, v) # remove1 (k, w) (ht_items es))"
    using mset_ht_items_update [OF assms(2), of "Occupied k v"] assms(3) by simp
  have d: "distinct (map fst ((k, v) # remove1 (k, w) (ht_items es)))"
    using r by simp
  show "distinct (map fst (ht_items (es[s := Occupied k v])))"
    and "map_of (ht_items (es[s := Occupied k v])) = (map_of (ht_items es))(k \<mapsto> v)"
    using map_of_mset_eq [OF m d] r(2) by simp_all
qed

lemma slot_remove:
  assumes "distinct (map fst (ht_items es))" "s < length es" "es ! s = Occupied k w"
  shows "distinct (map fst (ht_items (es[s := Tombstone])))"
    and "map_of (ht_items (es[s := Tombstone])) = (map_of (ht_items es))(k := None)"
proof -
  note r = map_of_remove1 [OF assms(1) slot_item [OF assms(2,3)]]
  have m: "mset (ht_items (es[s := Tombstone])) = mset (remove1 (k, w) (ht_items es))"
    using mset_ht_items_update [OF assms(2), of Tombstone] assms(3) by simp
  show "distinct (map fst (ht_items (es[s := Tombstone])))"
    and "map_of (ht_items (es[s := Tombstone])) = (map_of (ht_items es))(k := None)"
    using map_of_mset_eq [OF m r(1)] r(2) by simp_all
qed

subsection \<open>Deletion and writing through the pointer\<close>

lemma ht_inv_replace:
  assumes "ht_inv ht" "s < ht_capacity ht" "ht_entries ht ! s = Occupied k w"
  shows "ht_inv (ht\<lparr>ht_entries := (ht_entries ht)[s := Occupied k v]\<rparr>)" (is "ht_inv ?ht")
    and "ht_map (ht\<lparr>ht_entries := (ht_entries ht)[s := Occupied k v]\<rparr>) = (ht_map ht)(k \<mapsto> v)"
proof -
  note wf = ht_wfD [OF ht_invD(1) [OF assms(1)]]
  have nodup: "distinct (map fst (ht_items (ht_entries ht)))"
    using assms(1) by (simp add: ht_inv_def ht_nodup_def)
  have s: "s < length (ht_entries ht)" using assms(2) wf(1) by simp
  note sl = slot_replace [OF nodup s assms(3), of v]
  show "ht_map ?ht = (ht_map ht)(k \<mapsto> v)" using sl(2) by (simp add: ht_map_def)
  have "ht_reach ?ht"
    using wf(5) assms(3) by (intro ht_reach_update wf assms(2)) (auto simp: ht_reach_def)
  moreover have "length (ht_items ((ht_entries ht)[s := Occupied k v])) = ht_count ht"
    using length_ht_items_update [OF s, of "Occupied k v"] assms(3) wf(3) by simp
  ultimately show "ht_inv ?ht" using wf sl(1) by (simp add: ht_inv_def ht_wf_def ht_nodup_def)
qed

lemma portal_ht_del_correct:
  assumes "ht_inv ht"
  shows "fst (portal_ht_del ht k) = (if ht_map ht k = None then -1 else 0)"
    and "ht_inv (snd (portal_ht_del ht k))"
    and "ht_map (snd (portal_ht_del ht k)) = (ht_map ht)(k := None)"
proof -
  note wf = ht_wfD [OF ht_invD(1) [OF assms]]
  have "fst (portal_ht_del ht k) = (if ht_map ht k = None then -1 else 0) \<and>
        ht_inv (snd (portal_ht_del ht k)) \<and>
        ht_map (snd (portal_ht_del ht k)) = (ht_map ht)(k := None)"
  proof (cases "ht_find ht k")
    case None
    then have "ht_map ht k = None" using ht_find_None_iff assms ht_invD by blast
    with None assms show ?thesis by (auto simp: portal_ht_del_def)
  next
    case (Some s)
    then obtain v where s: "s < ht_capacity ht" "ht_entries ht ! s = Occupied k v"
      using ht_find_Some assms ht_invD by blast
    have nodup: "distinct (map fst (ht_items (ht_entries ht)))"
      using assms by (simp add: ht_inv_def ht_nodup_def)
    have len: "s < length (ht_entries ht)" using s wf(1) by simp
    note sl = slot_remove [OF nodup len s(2)]
    have "ht_map ht k \<noteq> None"
      using ht_map_SomeI [OF ht_invD(2) [OF assms] len s(2)] by simp
    moreover have "ht_reach (ht\<lparr>ht_entries := (ht_entries ht)[s := Tombstone]\<rparr>)"
      by (intro ht_reach_update wf s(1)) auto
    moreover have "length (ht_items ((ht_entries ht)[s := Tombstone])) = ht_count ht - 1"
      using length_ht_items_update [OF len, of Tombstone] s(2) wf(3) by simp
    ultimately show ?thesis
      using Some wf sl by (simp add: portal_ht_del_def ht_inv_def ht_wf_def ht_nodup_def ht_map_def)
  qed
  then show "fst (portal_ht_del ht k) = (if ht_map ht k = None then -1 else 0)"
    and "ht_inv (snd (portal_ht_del ht k))"
    and "ht_map (snd (portal_ht_del ht k)) = (ht_map ht)(k := None)" by blast+
qed

lemma ht_modify_correct:
  assumes "ht_inv ht"
  shows "ht_inv (ht_modify ht k f)"
    and "ht_map (ht_modify ht k f) =
           (case ht_map ht k of None \<Rightarrow> ht_map ht | Some v \<Rightarrow> (ht_map ht)(k \<mapsto> map_option f v))"
proof -
  have "ht_inv (ht_modify ht k f) \<and> ht_map (ht_modify ht k f) =
           (case ht_map ht k of None \<Rightarrow> ht_map ht | Some v \<Rightarrow> (ht_map ht)(k \<mapsto> map_option f v))"
  proof (cases "ht_find ht k")
    case None
    then have "ht_map ht k = None" using ht_find_None_iff assms ht_invD by blast
    with None assms show ?thesis by (simp add: ht_modify_def)
  next
    case (Some s)
    then obtain v where s: "s < ht_capacity ht" "ht_entries ht ! s = Occupied k v"
      using ht_find_Some assms ht_invD by blast
    then have "ht_map ht k = Some v"
      using ht_map_SomeI assms ht_invD ht_wfD(1) by metis
    with Some s show ?thesis
      using ht_inv_replace [OF assms s, of "map_option f v"] by (simp add: ht_modify_def)
  qed
  then show "ht_inv (ht_modify ht k f)"
    and "ht_map (ht_modify ht k f) =
           (case ht_map ht k of None \<Rightarrow> ht_map ht | Some v \<Rightarrow> (ht_map ht)(k \<mapsto> map_option f v))"
    by blast+
qed

subsection \<open>Insertion\<close>

lemma upt_eq_append_ConsD:
  assumes "[0..<n] = xs @ d # ys"
  shows "d < n" and "set xs = {..<d}"
proof -
  from arg_cong [OF assms, of length] have len: "length xs < n" by simp
  from arg_cong [OF assms, of "\<lambda>zs. zs ! length xs"] len have d: "d = length xs" by simp
  with len show "d < n" by simp
  from arg_cong [OF assms, of "take (length xs)"] len have "xs = [0..<length xs]"
    by (simp add: take_upt)
  with d show "set xs = {..<d}" by (metis atLeast_upt)
qed

lemma ht_insert_cases:
  assumes wf: "ht_wf ht" and room: "ht_count ht < ht_capacity ht"
  obtains (fresh) d where "d < ht_capacity ht"
      "\<not> occupied (ht_entries ht ! probe (ht_capacity ht) key d)"
      "\<forall>j<d. \<exists>k v. ht_entries ht ! probe (ht_capacity ht) key j = Occupied k v \<and> k \<noteq> key"
      "ht_insert ht key val =
         (0, ht\<lparr>ht_entries := (ht_entries ht)[probe (ht_capacity ht) key d := Occupied key val],
               ht_count := ht_count ht + 1\<rparr>)"
  | (found) s w where "s < ht_capacity ht" "ht_entries ht ! s = Occupied key w"
      "ht_insert ht key val = (0, ht\<lparr>ht_entries := (ht_entries ht)[s := Occupied key val]\<rparr>)"
proof (cases "ht_set_loop ht key [0..<ht_capacity ht]")
  case None
  have "\<forall>e\<in>set (ht_entries ht). occupied e"
  proof
    fix e assume "e \<in> set (ht_entries ht)"
    then obtain s where s: "s < ht_capacity ht" "e = ht_entries ht ! s"
      by (metis in_set_conv_nth ht_wfD(1) [OF wf])
    obtain d where "d < ht_capacity ht" "probe (ht_capacity ht) key d = s"
      using probe_surj [OF s(1)] .
    with s ht_set_loop_None [OF None, of d] show "occupied e" by simp
  qed
  then have "length (ht_items (ht_entries ht)) = ht_capacity ht"
    using ht_items_all_occupied ht_wfD(1) [OF wf] by metis
  with room ht_wfD(3) [OF wf] show ?thesis by simp
next
  case (Some p)
  obtain s b where p: "p = (s, b)" by (cases p)
  show ?thesis
  proof (cases b)
    case True
    with Some p have "ht_set_loop ht key [0..<ht_capacity ht] = Some (s, True)" by simp
    from ht_set_loop_True [OF this] obtain xs d ys where *: "[0..<ht_capacity ht] = xs @ d # ys"
        "s = probe (ht_capacity ht) key d" "\<not> occupied (ht_entries ht ! s)"
        "\<forall>j\<in>set xs. \<exists>k v. ht_entries ht ! probe (ht_capacity ht) key j = Occupied k v \<and> k \<noteq> key"
      by blast
    show ?thesis
      using fresh [of d] upt_eq_append_ConsD [OF *(1)] * Some p True
      by (auto simp: ht_insert_def)
  next
    case False
    with Some p have "ht_set_loop ht key [0..<ht_capacity ht] = Some (s, False)" by simp
    from ht_set_loop_False [OF this] obtain w where "ht_entries ht ! s = Occupied key w"
        "s < ht_capacity ht" using ht_wfD(6) [OF wf] by (auto simp: probe_less)
    then show ?thesis using found [of s w] Some p False by (simp add: ht_insert_def)
  qed
qed

text \<open>
  A fresh slot is only chosen for a key that is absent, unless the probe path holds a
  tombstone.
\<close>

lemma ht_fresh_key:
  assumes "ht_wf ht" "d < ht_capacity ht"
    and "ht_entries ht ! probe (ht_capacity ht) key d = Empty"
    and "\<forall>j<d. \<exists>k v. ht_entries ht ! probe (ht_capacity ht) key j = Occupied k v \<and> k \<noteq> key"
  shows "key \<notin> keys (ht_entries ht)"
proof
  assume "key \<in> keys (ht_entries ht)"
  then obtain v s where s: "s < ht_capacity ht" "ht_entries ht ! s = Occupied key v"
    by (metis in_keys_iff in_set_conv_nth ht_wfD(1) [OF assms(1)])
  obtain e where e: "e < ht_capacity ht" "probe (ht_capacity ht) key e = s"
    using probe_surj [OF s(1)] .
  with s assms(3) ht_wfD(5) [OF assms(1)] have "\<not> d < e" "d \<noteq> e"
    by (auto simp: ht_reach_def)
  with assms(4) e s show False by (metis linorder_neqE_nat slot.inject)
qed

lemma ht_insert_correct:
  assumes inv: "ht_inv ht" and room: "\<not> ht_overloaded ht"
    and safe: "ht_map ht k = None \<or> ht_tombfree ht"
  shows "fst (ht_insert ht k v) = 0" and "ht_inv (snd (ht_insert ht k v))"
    and "ht_map (snd (ht_insert ht k v)) = (ht_map ht)(k \<mapsto> v)"
    and "ht_capacity (snd (ht_insert ht k v)) = ht_capacity ht"
    and "ht_tombfree ht \<Longrightarrow> ht_tombfree (snd (ht_insert ht k v))"
proof -
  let ?ht = "snd (ht_insert ht k v)"
  note wf = ht_wfD [OF ht_invD(1) [OF inv]]
  from room have load: "4 * (ht_count ht + 1) \<le> 3 * ht_capacity ht"
    by (simp add: ht_overloaded_def)
  then have "ht_count ht < ht_capacity ht" by simp
  from ht_invD(1) [OF inv] this
  have "fst (ht_insert ht k v) = 0 \<and> ht_inv ?ht \<and> ht_map ?ht = (ht_map ht)(k \<mapsto> v) \<and>
        ht_capacity ?ht = ht_capacity ht \<and> (ht_tombfree ht \<longrightarrow> ht_tombfree ?ht)"
  proof (cases rule: ht_insert_cases [of ht k v])
    case (fresh d)
    let ?s = "probe (ht_capacity ht) k d"
    have s: "?s < length (ht_entries ht)" using wf by (simp add: probe_less)
    have nodup: "distinct (map fst (ht_items (ht_entries ht)))"
      using inv by (simp add: ht_inv_def ht_nodup_def)
    have key: "k \<notin> keys (ht_entries ht)"
    proof (cases "ht_map ht k = None")
      case True
      then show ?thesis by (simp add: ht_map_None_iff)
    next
      case False
      with safe have "ht_entries ht ! ?s \<noteq> Tombstone" using s by (metis ht_tombfree_def nth_mem)
      with fresh(2) have "ht_entries ht ! ?s = Empty" by (cases "ht_entries ht ! ?s") auto
      with fresh show ?thesis using ht_fresh_key ht_invD(1) [OF inv] by blast
    qed
    note sl = slot_insert [OF nodup s fresh(2) key, of v]
    have "ht_reach (ht\<lparr>ht_entries := (ht_entries ht)[?s := Occupied k v]\<rparr>)"
    proof (rule ht_reach_update)
      fix k' v' d' j
      assume eq: "Occupied k v = Occupied k' v'" and "d' < ht_capacity ht"
        "probe (ht_capacity ht) k' d' = probe (ht_capacity ht) k d" "j < d'"
      with fresh(1) have "j < d" using probe_inj by blast
      with fresh(3) eq show "ht_entries ht ! probe (ht_capacity ht) k' j \<noteq> Empty" by force
    qed (use wf s in auto)
    moreover have "length (ht_items ((ht_entries ht)[?s := Occupied k v])) = ht_count ht + 1"
      using length_ht_items_update [OF s, of "Occupied k v"] fresh(2) wf(3)
      by (cases "ht_entries ht ! ?s") auto
    moreover have "ht_tombfree ht \<longrightarrow> ht_tombfree ?ht"
      using fresh(4) by (auto simp: ht_tombfree_def dest: set_update_subset_insert [THEN subsetD])
    ultimately show ?thesis
      using fresh(4) wf sl load by (simp add: ht_inv_def ht_wf_def ht_nodup_def ht_map_def)
  next
    case (found s w)
    moreover have "ht_tombfree ht \<longrightarrow> ht_tombfree ?ht"
      using found(3) by (auto simp: ht_tombfree_def dest: set_update_subset_insert [THEN subsetD])
    ultimately show ?thesis using ht_inv_replace [OF inv found(1,2), of v] by simp
  qed
  then show "fst (ht_insert ht k v) = 0" and "ht_inv ?ht" and "ht_map ?ht = (ht_map ht)(k \<mapsto> v)"
    and "ht_capacity ?ht = ht_capacity ht" and "ht_tombfree ht \<Longrightarrow> ht_tombfree ?ht"
    by blast+
qed

lemma ht_count_dom: "ht_inv ht \<Longrightarrow> ht_count ht = card (dom (ht_map ht))"
  using ht_wfD(3) [OF ht_invD(1)] ht_invD(2)
  by (metis distinct_card dom_map_of_conv_image_fst ht_map_def ht_nodup_def length_map list.set_map)

lemma finite_dom_ht_map [simp]: "finite (dom (ht_map ht))"
  by (simp add: ht_map_def finite_dom_map_of)

lemma ht_insert_rc:
  assumes "ht_inv ht" "\<not> ht_overloaded ht"
  shows "fst (ht_insert ht k v) = 0"
proof -
  from assms(2) have "ht_count ht < ht_capacity ht" by (simp add: ht_overloaded_def)
  from ht_invD(1) [OF assms(1)] this show ?thesis by (rule ht_insert_cases [of ht k v]) simp_all
qed

lemma ht_insert_count:
  assumes "ht_inv ht" "\<not> ht_overloaded ht" "ht_map ht k = None"
  shows "ht_count (snd (ht_insert ht k v)) = ht_count ht + 1"
  using ht_insert_correct [OF assms(1,2), of k v] assms
  by (simp add: ht_count_dom domIff)

subsection \<open>Resizing\<close>

lemma ht_reinsert_simps:
  "ht_reinsert set_fn (Occupied k v) ht = snd (set_fn ht k v)"
  "ht_reinsert set_fn Empty ht = ht" "ht_reinsert set_fn Tombstone ht = ht"
  by (simp_all add: ht_reinsert_def)

lemma fold_reinsert:
  assumes set_fn: "\<And>ht k v. \<not> ht_overloaded ht \<Longrightarrow> set_fn ht k v = ht_insert ht k v"
    and "ht_inv acc" "ht_tombfree acc" "distinct (map fst (ht_items es))"
    and "\<forall>k\<in>keys es. ht_map acc k = None"
    and "4 * (ht_count acc + length (ht_items es)) \<le> 3 * ht_capacity acc"
  defines "r \<equiv> fold (ht_reinsert set_fn) es acc"
  shows "ht_inv r \<and> ht_tombfree r \<and> ht_capacity r = ht_capacity acc \<and>
         ht_map r = ht_map acc ++ map_of (ht_items es) \<and> r = fold (ht_reinsert ht_insert) es acc"
  using assms(2-6) unfolding r_def
proof (induction es arbitrary: acc rule: ht_items.induct)
  case (2 k v es)
  have none: "ht_map acc k = None" and room: "\<not> ht_overloaded acc"
    using "2.prems" by (auto simp: keys_def ht_overloaded_def)
  let ?acc = "snd (ht_insert acc k v)"
  note ins = ht_insert_correct [OF "2.prems"(1) room, of k v]
    ht_insert_count [OF "2.prems"(1) room none, of v]
  have "ht_inv (fold (ht_reinsert set_fn) es ?acc) \<and> ht_tombfree (fold (ht_reinsert set_fn) es ?acc) \<and>
      ht_capacity (fold (ht_reinsert set_fn) es ?acc) = ht_capacity ?acc \<and>
      ht_map (fold (ht_reinsert set_fn) es ?acc) = ht_map ?acc ++ map_of (ht_items es) \<and>
      fold (ht_reinsert set_fn) es ?acc = fold (ht_reinsert ht_insert) es ?acc"
    by (rule "2.IH") (use "2.prems" none ins in \<open>auto simp: keys_def\<close>)
  moreover have "(ht_map acc)(k \<mapsto> v) ++ map_of (ht_items es) =
      ht_map acc ++ map_of (ht_items (Occupied k v # es))"
    using "2.prems"(3) by (simp add: map_add_upd_left dom_map_of_conv_image_fst)
  moreover have "fold (ht_reinsert set_fn) (Occupied k v # es) acc = fold (ht_reinsert set_fn) es ?acc"
    using set_fn [OF room] by (simp add: ht_reinsert_simps)
  moreover have "fold (ht_reinsert ht_insert) (Occupied k v # es) acc = fold (ht_reinsert ht_insert) es ?acc"
    by (simp add: ht_reinsert_simps)
  ultimately show ?case using ins(3,4) none by metis
qed (simp_all add: ht_reinsert_simps keys_def, metis+)

lemma ht_resize_correct:
  assumes set_fn: "\<And>ht k v. \<not> ht_overloaded ht \<Longrightarrow> set_fn ht k v = ht_insert ht k v"
    and "ht_inv ht" "ht_capacity ht \<le> n" "calloc_ok n"
  shows "fst (ht_resize set_fn calloc_ok ht n) = 0"
    and "ht_inv (snd (ht_resize set_fn calloc_ok ht n))"
    and "ht_tombfree (snd (ht_resize set_fn calloc_ok ht n))"
    and "ht_map (snd (ht_resize set_fn calloc_ok ht n)) = ht_map ht"
    and "ht_capacity (snd (ht_resize set_fn calloc_ok ht n)) = n"
    and "ht_count (snd (ht_resize set_fn calloc_ok ht n)) = ht_count ht"
    and "ht_resize set_fn calloc_ok ht n = ht_resize ht_insert calloc_ok ht n"
proof -
  note wf = ht_wfD [OF ht_invD(1) [OF assms(2)]]
  have init: "\<lparr>ht_entries = replicate n Empty, ht_capacity = n, ht_count = 0\<rparr> =
      (portal_ht_init n :: 'a ht)"
    using wf assms(3) by (simp add: portal_ht_init_def Let_def)
  have cap: "ht_capacity (portal_ht_init n :: 'a ht) = n" "ht_count (portal_ht_init n :: 'a ht) = 0"
    by (simp_all flip: init)
  have res: "ht_resize f calloc_ok ht n = (0, fold (ht_reinsert f) (ht_entries ht) (portal_ht_init n))"
    for f using assms(4) by (simp add: ht_resize_def init)
  have "ht_inv (fold (ht_reinsert set_fn) (ht_entries ht) (portal_ht_init n)) \<and>
    ht_tombfree (fold (ht_reinsert set_fn) (ht_entries ht) (portal_ht_init n)) \<and>
    ht_capacity (fold (ht_reinsert set_fn) (ht_entries ht) (portal_ht_init n)) =
      n \<and>
    ht_map (fold (ht_reinsert set_fn) (ht_entries ht) (portal_ht_init n)) =
      ht_map (portal_ht_init n) ++ map_of (ht_items (ht_entries ht)) \<and>
    fold (ht_reinsert set_fn) (ht_entries ht) (portal_ht_init n) =
      fold (ht_reinsert ht_insert) (ht_entries ht) (portal_ht_init n)"
    using cap wf assms(3) ht_invD(2) [OF assms(2)] fold_reinsert [of set_fn "portal_ht_init n" "ht_entries ht", OF set_fn]
    by (simp add: ht_nodup_def ht_inv_init) metis
  then show "fst (ht_resize set_fn calloc_ok ht n) = 0"
    and "ht_inv (snd (ht_resize set_fn calloc_ok ht n))"
    and "ht_tombfree (snd (ht_resize set_fn calloc_ok ht n))"
    and m: "ht_map (snd (ht_resize set_fn calloc_ok ht n)) = ht_map ht"
    and "ht_capacity (snd (ht_resize set_fn calloc_ok ht n)) = n"
    and "ht_resize set_fn calloc_ok ht n = ht_resize ht_insert calloc_ok ht n"
    unfolding res [of set_fn] res [of ht_insert] snd_conv
    by (auto simp: ht_inv_init(2)) (simp add: ht_map_def)
  then show "ht_count (snd (ht_resize set_fn calloc_ok ht n)) = ht_count ht"
    using ht_count_dom assms(2) by metis
qed

subsection \<open>The set operation\<close>

lemma ht_set_rec_not_overloaded:
  "\<not> ht_overloaded ht \<Longrightarrow> ht_set_rec calloc_ok (Suc depth) ht k v = ht_insert ht k v"
  by simp

lemma ht_set_rec_overloaded:
  fixes depth
  assumes "ht_inv ht" "ht_overloaded ht" "calloc_ok (ht_capacity ht * 2)"
  defines "ht' \<equiv> snd (ht_resize (ht_set_rec calloc_ok (Suc depth)) calloc_ok ht (ht_capacity ht * 2))"
  shows "ht_set_rec calloc_ok (Suc (Suc depth)) ht k v = ht_insert ht' k v"
    and "ht_inv ht'" "ht_tombfree ht'" "ht_map ht' = ht_map ht" "\<not> ht_overloaded ht'"
    and "ht_capacity ht' = ht_capacity ht * 2"
proof -
  note r = ht_resize_correct [where set_fn = "ht_set_rec calloc_ok (Suc depth)" and calloc_ok = calloc_ok
      and n = "ht_capacity ht * 2", OF ht_set_rec_not_overloaded assms(1) _ assms(3), folded ht'_def]
  show "ht_set_rec calloc_ok (Suc (Suc depth)) ht k v = ht_insert ht' k v"
    using r(1) assms(2) unfolding ht_set_rec.simps(2) [of _ "Suc depth"] by (simp add: ht'_def split_beta)
  show "ht_inv ht'" "ht_tombfree ht'" "ht_map ht' = ht_map ht" "ht_capacity ht' = ht_capacity ht * 2"
    using r by simp_all
  have "ht_count ht' = ht_count ht" using r by simp
  with r ht_wfD [OF ht_invD(1) [OF assms(1)]] show "\<not> ht_overloaded ht'"
    by (simp add: ht_overloaded_def)
qed

lemma portal_ht_set_alloc_correct:
  assumes "ht_inv ht" "ht_map ht k = None \<or> ht_tombfree ht"
    and "ht_overloaded ht \<longrightarrow> calloc_ok (ht_capacity ht * 2)"
  shows "fst (portal_ht_set_alloc calloc_ok ht k v) = 0"
    and "ht_inv (snd (portal_ht_set_alloc calloc_ok ht k v))"
    and "ht_map (snd (portal_ht_set_alloc calloc_ok ht k v)) = (ht_map ht)(k \<mapsto> v)"
    and "ht_tombfree ht \<Longrightarrow> ht_tombfree (snd (portal_ht_set_alloc calloc_ok ht k v))"
proof -
  have "\<exists>ht'. ht_inv ht' \<and> \<not> ht_overloaded ht' \<and> ht_map ht' = ht_map ht \<and>
          (ht_tombfree ht \<longrightarrow> ht_tombfree ht') \<and> (ht_map ht' k = None \<or> ht_tombfree ht') \<and>
          portal_ht_set_alloc calloc_ok ht k v = ht_insert ht' k v"
  proof (cases "ht_overloaded ht")
    case True
    with assms(3) have "calloc_ok (ht_capacity ht * 2)" by simp
    from ht_set_rec_overloaded [where calloc_ok = calloc_ok and depth = 0, OF assms(1) True this] show ?thesis
      unfolding portal_ht_set_alloc_def numeral_2_eq_2 by blast
  next
    case False
    then show ?thesis
      using assms(1,2) ht_set_rec_not_overloaded
      unfolding portal_ht_set_alloc_def numeral_2_eq_2 by blast
  qed
  then obtain ht' where h: "ht_inv ht'" "\<not> ht_overloaded ht'" "ht_map ht' = ht_map ht"
      "ht_tombfree ht \<longrightarrow> ht_tombfree ht'" "ht_map ht' k = None \<or> ht_tombfree ht'"
      "portal_ht_set_alloc calloc_ok ht k v = ht_insert ht' k v" by blast
  show "fst (portal_ht_set_alloc calloc_ok ht k v) = 0"
    and "ht_inv (snd (portal_ht_set_alloc calloc_ok ht k v))"
    and "ht_map (snd (portal_ht_set_alloc calloc_ok ht k v)) = (ht_map ht)(k \<mapsto> v)"
    and "ht_tombfree ht \<Longrightarrow> ht_tombfree (snd (portal_ht_set_alloc calloc_ok ht k v))"
    using ht_insert_correct [OF h(1,2,5), of v] h by simp_all
qed

lemmas portal_ht_set_correct =
  portal_ht_set_alloc_correct [where calloc_ok = "\<lambda>n. True", folded portal_ht_set_def, simplified]

text \<open>
  More depth never changes the result: every insertion that \<open>ht_resize\<close> makes finds room
  in the doubled array.
\<close>

lemma ht_set_rec_depth:
  assumes "ht_inv ht"
  shows "ht_set_rec calloc_ok (Suc (Suc depth)) ht k v = portal_ht_set_alloc calloc_ok ht k v"
proof -
  have "ht_resize (ht_set_rec calloc_ok (Suc d)) calloc_ok ht (ht_capacity ht * 2) =
        ht_resize ht_insert calloc_ok ht (ht_capacity ht * 2)" for d
  proof (cases "calloc_ok (ht_capacity ht * 2)")
    case True
    show ?thesis
      by (rule ht_resize_correct(7)) (use assms True ht_set_rec_not_overloaded in auto)
  qed (simp add: ht_resize_def)
  then show ?thesis
    unfolding portal_ht_set_alloc_def numeral_2_eq_2 ht_set_rec.simps(2) [of _ "Suc _"] by simp
qed

subsection \<open>The interface the clients rely on\<close>

text \<open>
  The path registry and the event loop store no NULL value and call \<open>portal_ht_set\<close> only
  after \<open>portal_ht_get\<close> returned NULL for the key. Under this discipline the table is a map;
  the locale states the contract and proves it for whole sequences of operations.
\<close>

datatype 'v table_op = TPut string 'v | TDel string | TModify string "'v \<Rightarrow> 'v"

definition guarded_put ::
    "('t \<Rightarrow> string \<Rightarrow> 'v option) \<Rightarrow> ('t \<Rightarrow> string \<Rightarrow> 'v option \<Rightarrow> int \<times> 't) \<Rightarrow>
     't \<Rightarrow> string \<Rightarrow> 'v \<Rightarrow> int \<times> 't" where
  "guarded_put get put t k v = (if get t k \<noteq> None then (-1, t) else put t k (Some v))"

fun table_step ::
    "('t \<Rightarrow> string \<Rightarrow> 'v option) \<Rightarrow> ('t \<Rightarrow> string \<Rightarrow> 'v option \<Rightarrow> int \<times> 't) \<Rightarrow>
     ('t \<Rightarrow> string \<Rightarrow> int \<times> 't) \<Rightarrow> ('t \<Rightarrow> string \<Rightarrow> ('v \<Rightarrow> 'v) \<Rightarrow> 't) \<Rightarrow>
     'v table_op \<Rightarrow> 't \<Rightarrow> int \<times> 't" where
  "table_step get put del modify (TPut k v) t = guarded_put get put t k v"
| "table_step get put del modify (TDel k) t = del t k"
| "table_step get put del modify (TModify k f) t = (0, modify t k f)"

fun map_step :: "'v table_op \<Rightarrow> (string \<rightharpoonup> 'v) \<Rightarrow> int \<times> (string \<rightharpoonup> 'v)" where
  "map_step (TPut k v) m = (if k \<in> dom m then (-1, m) else (0, m(k \<mapsto> v)))"
| "map_step (TDel k) m = (if k \<in> dom m then 0 else -1, m(k := None))"
| "map_step (TModify k f) m = (0, m(k := map_option f (m k)))"

primrec run_ops :: "('op \<Rightarrow> 's \<Rightarrow> int \<times> 's) \<Rightarrow> 'op list \<Rightarrow> 's \<Rightarrow> int list \<times> 's" where
  "run_ops step [] s = ([], s)"
| "run_ops step (p # ps) s =
     (let (rc, s') = step p s; (rcs, s'') = run_ops step ps s' in (rc # rcs, s''))"

locale guarded_table =
  fixes get :: "'t \<Rightarrow> string \<Rightarrow> 'v option"
    and put :: "'t \<Rightarrow> string \<Rightarrow> 'v option \<Rightarrow> int \<times> 't"
    and del :: "'t \<Rightarrow> string \<Rightarrow> int \<times> 't"
    and modify :: "'t \<Rightarrow> string \<Rightarrow> ('v \<Rightarrow> 'v) \<Rightarrow> 't"
    and ok :: "'t \<Rightarrow> bool"
  assumes put_fresh: "ok t \<Longrightarrow> get t k = None \<Longrightarrow>
      fst (put t k (Some v)) = 0 \<and> ok (snd (put t k (Some v))) \<and>
      get (snd (put t k (Some v))) = (get t)(k \<mapsto> v)"
    and del: "ok t \<Longrightarrow> fst (del t k) = (if get t k = None then -1 else 0) \<and>
      ok (snd (del t k)) \<and> get (snd (del t k)) = (get t)(k := None)"
    and modify: "ok t \<Longrightarrow> ok (modify t k f) \<and> get (modify t k f) = (get t)(k := map_option f (get t k))"
begin

lemma guarded_put:
  assumes "ok t"
  shows "fst (guarded_put get put t k v) = (if get t k = None then 0 else -1)"
    and "ok (snd (guarded_put get put t k v))"
    and "get (snd (guarded_put get put t k v)) = (if get t k = None then (get t)(k \<mapsto> v) else get t)"
  using put_fresh [OF assms, of k v] assms by (auto simp: guarded_put_def)

lemma step_refines:
  assumes "ok t"
  shows "fst (table_step get put del modify p t) = fst (map_step p (get t))"
    and "ok (snd (table_step get put del modify p t))"
    and "get (snd (table_step get put del modify p t)) = snd (map_step p (get t))"
  using guarded_put [OF assms] del [OF assms] modify [OF assms] by (cases p; auto)+

lemma run_refines:
  assumes "ok t"
  shows "fst (run_ops (table_step get put del modify) ps t) = fst (run_ops map_step ps (get t)) \<and>
         ok (snd (run_ops (table_step get put del modify) ps t)) \<and>
         get (snd (run_ops (table_step get put del modify) ps t)) = snd (run_ops map_step ps (get t))"
  using assms
proof (induction ps arbitrary: t)
  case (Cons p ps)
  show ?case using step_refines [OF Cons.prems, of p] Cons.IH by (simp add: split_beta Let_def)
qed simp

end

definition ht_ok :: "'v ht \<Rightarrow> bool" where
  "ht_ok ht \<longleftrightarrow> ht_inv ht \<and> Some None \<notin> range (ht_map ht)"

lemma ht_okD: "ht_ok ht \<Longrightarrow> ht_inv ht" "ht_ok ht \<Longrightarrow> ht_map ht k \<noteq> Some None"
  by (auto simp: ht_ok_def) (metis rangeI)

lemma ht_ok_init: "ht_ok (portal_ht_init n)" "portal_ht_get (portal_ht_init n) = Map.empty"
  by (auto simp: ht_ok_def ht_inv_init portal_ht_get_map)

lemma ht_ok_get: "ht_ok ht \<Longrightarrow> ht_map ht k = map_option Some (portal_ht_get ht k)"
  using ht_okD(2) [of ht k] ht_okD(1) [of ht]
  by (cases "ht_map ht k") (auto simp: portal_ht_get_map)

lemma ht_okI:
  assumes "ht_inv ht" "\<And>k. ht_map ht k = map_option Some (m k)"
  shows "ht_ok ht" and "portal_ht_get ht = m"
proof -
  show "ht_ok ht" using assms by (auto simp: ht_ok_def) (metis map_option_eq_Some option.distinct(1))
  show "portal_ht_get ht = m"
    using assms by (auto simp: portal_ht_get_map fun_eq_iff split: option.splits)
qed

lemma ht_ok_items:
  assumes "ht_ok ht"
  shows "(k, v) \<in> set (ht_items (ht_entries ht)) \<longleftrightarrow> v \<noteq> None \<and> portal_ht_get ht k = v"
proof -
  have "(k, v) \<in> set (ht_items (ht_entries ht)) \<longleftrightarrow> ht_map ht k = Some v"
    using ht_map_Some_iff ht_invD(2) ht_okD(1) [OF assms] by (metis set_ht_items)
  then show ?thesis using ht_ok_get [OF assms, of k] by auto
qed

lemma ht_ok_count: "ht_ok ht \<Longrightarrow> portal_ht_count ht = card (dom (portal_ht_get ht))"
  using ht_count_dom [OF ht_okD(1), of ht]
  by (simp add: portal_ht_count_def dom_def ht_ok_get)

interpretation tbl: guarded_table portal_ht_get portal_ht_set portal_ht_del ht_modify ht_ok
proof
  fix t :: "'a ht" and k v
  assume t: "ht_ok t"
  { assume "portal_ht_get t k = None"
    then have none: "ht_map t k = None" using ht_ok_get [OF t] by simp
    note s = portal_ht_set_correct [OF ht_okD(1) [OF t] disjI1 [OF none], of "Some v"]
    show "fst (portal_ht_set t k (Some v)) = 0 \<and> ht_ok (snd (portal_ht_set t k (Some v))) \<and>
          portal_ht_get (snd (portal_ht_set t k (Some v))) = (portal_ht_get t)(k \<mapsto> v)"
      using s ht_okI [OF s(2), of "(portal_ht_get t)(k \<mapsto> v)"] ht_ok_get [OF t] by simp }
  note d = portal_ht_del_correct [OF ht_okD(1) [OF t], of k]
  show "fst (portal_ht_del t k) = (if portal_ht_get t k = None then -1 else 0) \<and>
        ht_ok (snd (portal_ht_del t k)) \<and>
        portal_ht_get (snd (portal_ht_del t k)) = (portal_ht_get t)(k := None)"
    using d ht_okI [OF d(2), of "(portal_ht_get t)(k := None)"] ht_ok_get [OF t] by simp
  fix f :: "'a \<Rightarrow> 'a"
  note m = ht_modify_correct [OF ht_okD(1) [OF t], of k f]
  show "ht_ok (ht_modify t k f) \<and>
        portal_ht_get (ht_modify t k f) = (portal_ht_get t)(k := map_option f (portal_ht_get t k))"
    using m ht_okI [OF m(1), of "(portal_ht_get t)(k := map_option f (portal_ht_get t k))"]
      ht_ok_get [OF t] by (simp split: option.splits)
qed

text \<open>The pairs of a table without NULL values, in array order.\<close>

fun some_items :: "('k \<times> 'v option) list \<Rightarrow> ('k \<times> 'v) list" where
  "some_items [] = []"
| "some_items ((k, Some v) # xs) = (k, v) # some_items xs"
| "some_items ((k, None) # xs) = some_items xs"

lemma set_some_items: "(k, v) \<in> set (some_items xs) \<longleftrightarrow> (k, Some v) \<in> set xs"
  by (induction xs rule: some_items.induct) auto

lemma distinct_some_items: "distinct (map fst xs) \<Longrightarrow> distinct (map fst (some_items xs))"
  by (induction xs rule: some_items.induct) (auto simp: set_some_items, force)

lemma fold_some_items:
  "fold (\<lambda>(k, v). (\<lambda>u. case v of None \<Rightarrow> u | Some e \<Rightarrow> cb k e u)) xs u = fold (\<lambda>(k, e). cb k e) (some_items xs) u"
  by (induction xs arbitrary: u rule: some_items.induct) auto

lemma ht_ok_some_items:
  assumes "ht_ok ht"
  shows "distinct (map fst (some_items (ht_items (ht_entries ht))))"
    and "map_of (some_items (ht_items (ht_entries ht))) = portal_ht_get ht"
proof -
  show d: "distinct (map fst (some_items (ht_items (ht_entries ht))))"
    using assms by (intro distinct_some_items) (simp add: ht_ok_def ht_inv_def ht_nodup_def)
  have "map_of (some_items (ht_items (ht_entries ht))) k = Some v \<longleftrightarrow> portal_ht_get ht k = Some v" for k v
    using d ht_ok_items [OF assms, of k "Some v"] by (simp add: map_of_eq_Some_iff set_some_items)
  then show "map_of (some_items (ht_items (ht_entries ht))) = portal_ht_get ht"
    by (auto simp: fun_eq_iff) (metis not_None_eq)
qed

lemma ht_init_64: "portal_ht_init 64 = \<lparr>ht_entries = replicate 64 Empty, ht_capacity = 64, ht_count = 0\<rparr>"
  by (simp add: portal_ht_init_def)

lemma upt_0_64: "[0..<64] = 0 # Suc 0 # [2..<64]"
  by (simp add: upt_rec)

subsection \<open>Properties\<close>

text \<open>
  On a table that satisfies the invariant, \<open>portal_ht_set\<close> with a key that is
  absent, or on a table without tombstones, returns 0, keeps the invariant, and afterwards
  \<open>portal_ht_get\<close> returns the new value for the key and the old value for every other key,
  also when the insertion doubled the table.
\<close>

lemma ht_set_get:
  assumes "ht_inv ht" and "ht_map ht k = None \<or> ht_tombfree ht"
    and "ht_overloaded ht \<longrightarrow> calloc_ok (ht_capacity ht * 2)"
  shows "fst (portal_ht_set_alloc calloc_ok ht k v) = 0 \<and>
         ht_inv (snd (portal_ht_set_alloc calloc_ok ht k v)) \<and>
         portal_ht_get (snd (portal_ht_set_alloc calloc_ok ht k v)) = (portal_ht_get ht)(k := v)"
  using portal_ht_set_alloc_correct [where calloc_ok = calloc_ok and v = v, OF assms] assms(1)
  by (auto simp: fun_eq_iff portal_ht_get_map)

text \<open>
  Property C12. Any sequence of guarded insertions, deletions and updates through the
  returned pointer, started on a fresh table, returns the same codes as on a finite map and
  leaves a table whose lookups are those of the map, whatever collisions, tombstones and
  resizes happened on the way.
\<close>

theorem ht_refines_map:
  defines "run \<equiv> run_ops (table_step portal_ht_get portal_ht_set portal_ht_del ht_modify)"
  shows "fst (run ps (portal_ht_init n)) = fst (run_ops map_step ps Map.empty) \<and>
         portal_ht_get (snd (run ps (portal_ht_init n))) = snd (run_ops map_step ps Map.empty) \<and>
         ht_inv (snd (run ps (portal_ht_init n)))"
  using tbl.run_refines [OF ht_ok_init(1), of ps n] ht_okD(1)
  by (auto simp: run_def ht_ok_init(2))

text \<open>
  The mutual recursion of \<open>portal_ht_set\<close> and \<open>ht_resize\<close> ends after one
  level: with any depth of at least two nested calls the result is the same, and a failed
  allocation returns -1 and leaves the table as it was.
\<close>

lemma ht_set_resize_depth:
  assumes "ht_inv ht"
  shows "ht_set_rec calloc_ok (Suc (Suc depth)) ht k v = ht_set_rec calloc_ok 2 ht k v \<and>
         (fst (ht_set_rec calloc_ok 2 ht k v) \<noteq> 0 \<longrightarrow>
            \<not> calloc_ok (ht_capacity ht * 2) \<and> ht_set_rec calloc_ok 2 ht k v = (-1, ht))"
proof -
  have "fst (ht_set_rec calloc_ok 2 ht k v) = 0" if "\<not> ht_overloaded ht \<or> calloc_ok (ht_capacity ht * 2)"
  proof (cases "ht_overloaded ht")
    case True
    with that have "calloc_ok (ht_capacity ht * 2)" by simp
    from ht_set_rec_overloaded [where calloc_ok = calloc_ok and depth = 0, OF assms True this]
    show ?thesis unfolding numeral_2_eq_2 by (simp add: ht_insert_rc del: ht_set_rec.simps)
  qed (simp add: numeral_2_eq_2 ht_insert_rc assms)
  moreover have "ht_set_rec calloc_ok 2 ht k v = (-1, ht)"
    if "ht_overloaded ht" "\<not> calloc_ok (ht_capacity ht * 2)"
    using that by (simp add: numeral_2_eq_2 ht_resize_def)
  ultimately show ?thesis
    using ht_set_rec_depth [OF assms] unfolding portal_ht_set_alloc_def by metis
qed

text \<open>
  The proviso on \<open>portal_ht_set\<close> is needed. For two keys with the same home
  slot: after the first is deleted, setting the second again stores another copy of it in
  the slot the first left, and deleting the second uncovers its old value.
\<close>

lemma ht_set_stale_value:
  fixes v w x :: "'v option"
  assumes "a \<noteq> b" and "home 64 a = home 64 b"
  defines "ops \<equiv> [\<lambda>t. portal_ht_set t a v, \<lambda>t. portal_ht_set t b w, \<lambda>t. portal_ht_del t a,
                   \<lambda>t. portal_ht_set t b x, \<lambda>t. portal_ht_del t b]"
  shows "portal_ht_get (fold (\<lambda>f t. snd (f t)) ops (portal_ht_init 64)) b = w"
proof -
  define h n e where "h = home 64 b" and "n = probe 64 b (Suc 0)"
    and "e = (replicate 64 Empty :: 'v slot list)"
  have h: "h < 64" by (simp add: h_def home_def)
  then have p: "probe 64 a 0 = h" "probe 64 b 0 = h" "probe 64 a (Suc 0) = n" "probe 64 b (Suc 0) = n"
    "n < 64" "n \<noteq> h" "h \<noteq> n"
    using assms(2) by (auto simp: probe_def h_def n_def mod_Suc)
  with h have e: "length e = 64" "e ! h = Empty" "e ! n = Empty" by (simp_all add: e_def)
  note set_defs = portal_ht_set_def portal_ht_set_alloc_def numeral_2_eq_2 ht_overloaded_def ht_insert_def
    ht_init_64 e_def [symmetric] upt_0_64
  note find_defs = portal_ht_del_def portal_ht_get_def ht_find_def upt_0_64
  define T where "T c es = \<lparr>ht_entries = es, ht_capacity = 64, ht_count = c\<rparr>"
    for c and es :: "'v slot list"
  have "portal_ht_set (portal_ht_init 64) a v = (0, T 1 (e[h := Occupied a v]))"
    using h e p by (simp add: set_defs T_def)
  moreover have "portal_ht_set (T 1 (e[h := Occupied a v])) b w =
      (0, T 2 (e[h := Occupied a v, n := Occupied b w]))"
    using h e p assms(1) by (simp add: set_defs T_def)
  moreover have "portal_ht_del (T 2 (e[h := Occupied a v, n := Occupied b w])) a =
      (0, T 1 (e[h := Tombstone, n := Occupied b w]))"
    using h e p assms(1) by (simp add: find_defs T_def list_update_swap)
  moreover have "portal_ht_set (T 1 (e[h := Tombstone, n := Occupied b w])) b x =
      (0, T 2 (e[h := Occupied b x, n := Occupied b w]))"
    using h e p by (simp add: set_defs T_def list_update_swap)
  moreover have "portal_ht_del (T 2 (e[h := Occupied b x, n := Occupied b w])) b =
      (0, T 1 (e[h := Tombstone, n := Occupied b w]))"
    using h e p by (simp add: find_defs T_def list_update_swap)
  moreover have "portal_ht_get (T 1 (e[h := Tombstone, n := Occupied b w])) b = w"
    using h e p by (simp add: find_defs T_def)
  ultimately show ?thesis by (simp add: ops_def)
qed

end
