(* ===== verification/Paths.thy ===== *)
theory Paths
  imports Registry Hashtable
begin

section \<open>The path registry (core_path.c)\<close>

text \<open>
  \<^verbatim>\<open>src/core/core_path.c\<close>: the table of registered paths, each with its module, its labels,
  its access mode and a description, and the two label checks of the access control. The
  table is the hash table of \<open>Hashtable\<close>; an entry is allocated per path, and the code that
  changes an entry through the pointer \<open>portal_ht_get\<close> returned is modelled with
  \<open>ht_modify\<close>. The lemmas refine the registry to a map from paths to entries, keep the
  entry count equal to the number of registered paths, and characterise who may access a
  path.
\<close>

subsection \<open>Data\<close>

abbreviation (input) PORTAL_ACCESS_READ :: "8 word" where "PORTAL_ACCESS_READ \<equiv> 1"
abbreviation (input) PORTAL_ACCESS_WRITE :: "8 word" where "PORTAL_ACCESS_WRITE \<equiv> 2"
abbreviation (input) PORTAL_ACCESS_RW :: "8 word" where "PORTAL_ACCESS_RW \<equiv> 3"

record path_entry =
  pe_path :: string
  pe_module_name :: string
  pe_labels :: portal_labels
  pe_access_mode :: "8 word"
  pe_description :: string

record portal_path_tree =
  tree_table :: "path_entry ht"
  tree_count :: int

subsection \<open>Operations\<close>

definition portal_path_init :: portal_path_tree where
  "portal_path_init = \<lparr>tree_table = portal_ht_init HT_INITIAL_CAPACITY, tree_count = 0\<rparr>"

definition portal_path_destroy :: "portal_path_tree \<Rightarrow> portal_path_tree" where
  "portal_path_destroy tree = \<lparr>tree_table = portal_ht_destroy (tree_table tree), tree_count = 0\<rparr>"

definition path_entry_new :: "string \<Rightarrow> string \<Rightarrow> path_entry" where
  "path_entry_new path module_name =
     \<lparr>pe_path = csnprintf PORTAL_MAX_PATH_LEN path,
      pe_module_name = csnprintf PORTAL_MAX_MODULE_NAME module_name,
      pe_labels = [], pe_access_mode = PORTAL_ACCESS_RW, pe_description = []\<rparr>"

definition portal_path_register ::
    "portal_path_tree \<Rightarrow> string \<Rightarrow> string \<Rightarrow> int \<times> portal_path_tree" where
  "portal_path_register tree path module_name =
     (case portal_ht_get (tree_table tree) path of
        Some _ \<Rightarrow> (-1, tree)
      | None \<Rightarrow>
          (let (rc, table) = portal_ht_set (tree_table tree) path
                               (Some (path_entry_new path module_name))
           in if rc < 0 then (-1, tree\<lparr>tree_table := table\<rparr>)
              else (0, tree\<lparr>tree_table := table, tree_count := tree_count tree + 1\<rparr>)))"

definition portal_path_unregister :: "portal_path_tree \<Rightarrow> string \<Rightarrow> int \<times> portal_path_tree" where
  "portal_path_unregister tree path =
     (case portal_ht_get (tree_table tree) path of
        None \<Rightarrow> (-1, tree)
      | Some entry \<Rightarrow>
          (0, tree\<lparr>tree_table := snd (portal_ht_del (tree_table tree) path),
                   tree_count := tree_count tree - 1\<rparr>))"

definition portal_path_lookup :: "portal_path_tree \<Rightarrow> string \<Rightarrow> string option" where
  "portal_path_lookup tree path =
     (case portal_ht_get (tree_table tree) path of
        None \<Rightarrow> None
      | Some entry \<Rightarrow> Some (pe_module_name entry))"

definition portal_path_lookup_entry :: "portal_path_tree \<Rightarrow> string \<Rightarrow> path_entry option" where
  "portal_path_lookup_entry tree path = portal_ht_get (tree_table tree) path"

text \<open>A write through the pointer that \<open>portal_path_lookup_entry\<close> returns.\<close>

definition path_modify ::
    "portal_path_tree \<Rightarrow> string \<Rightarrow> (path_entry \<Rightarrow> path_entry) \<Rightarrow> portal_path_tree" where
  "path_modify tree path f = tree\<lparr>tree_table := ht_modify (tree_table tree) path f\<rparr>"

definition portal_path_set_labels ::
    "portal_path_tree \<Rightarrow> string \<Rightarrow> portal_labels option \<Rightarrow> int \<times> portal_path_tree" where
  "portal_path_set_labels tree path labels =
     (case portal_ht_get (tree_table tree) path of
        None \<Rightarrow> (-1, tree)
      | Some entry \<Rightarrow>
          (0, path_modify tree path (\<lambda>e. e\<lparr>pe_labels :=
                (case labels of Some ls \<Rightarrow> ls | None \<Rightarrow> portal_labels_clear (pe_labels e))\<rparr>)))"

definition portal_path_add_label ::
    "portal_path_tree \<Rightarrow> string \<Rightarrow> string \<Rightarrow> int \<times> portal_path_tree" where
  "portal_path_add_label tree path label =
     (case portal_ht_get (tree_table tree) path of
        None \<Rightarrow> (-1, tree)
      | Some entry \<Rightarrow>
          (fst (portal_labels_add (pe_labels entry) label),
           path_modify tree path
             (\<lambda>e. e\<lparr>pe_labels := snd (portal_labels_add (pe_labels e) label)\<rparr>)))"

definition portal_path_set_description ::
    "portal_path_tree \<Rightarrow> string \<Rightarrow> string \<Rightarrow> int \<times> portal_path_tree" where
  "portal_path_set_description tree path description =
     (case portal_ht_get (tree_table tree) path of
        None \<Rightarrow> (-1, tree)
      | Some entry \<Rightarrow>
          (0, path_modify tree path (\<lambda>e. e\<lparr>pe_description := csnprintf 256 description\<rparr>)))"

definition portal_path_remove_label ::
    "portal_path_tree \<Rightarrow> string \<Rightarrow> string \<Rightarrow> int \<times> portal_path_tree" where
  "portal_path_remove_label tree path label =
     (case portal_ht_get (tree_table tree) path of
        None \<Rightarrow> (-1, tree)
      | Some entry \<Rightarrow>
          (fst (portal_labels_remove (pe_labels entry) label),
           path_modify tree path
             (\<lambda>e. e\<lparr>pe_labels := snd (portal_labels_remove (pe_labels e) label)\<rparr>)))"

definition portal_path_get_labels :: "portal_path_tree \<Rightarrow> string \<Rightarrow> portal_labels option" where
  "portal_path_get_labels tree path =
     (case portal_ht_get (tree_table tree) path of
        None \<Rightarrow> None
      | Some entry \<Rightarrow> Some (pe_labels entry))"

definition ctx_is_root :: "portal_ctx option \<Rightarrow> bool" where
  "ctx_is_root ctx \<longleftrightarrow>
     (case ctx of None \<Rightarrow> False | Some c \<Rightarrow> auth_user (ctx_auth c) = Some PORTAL_ROOT_USER)"

definition portal_path_check_access ::
    "portal_path_tree \<Rightarrow> string \<Rightarrow> portal_ctx option \<Rightarrow> bool" where
  "portal_path_check_access tree path ctx =
     (case portal_ht_get (tree_table tree) path of
        None \<Rightarrow> False
      | Some entry \<Rightarrow>
          if ctx_is_root ctx then True
          else if length (pe_labels entry) = 0 then True
          else (case ctx of
                  None \<Rightarrow> False
                | Some c \<Rightarrow>
                    if auth_user (ctx_auth c) = None then False
                    else portal_labels_intersects (pe_labels entry) (auth_labels (ctx_auth c))))"

text \<open>\<open>portal_labels_allow\<close> returns the decision and the bypass flag.\<close>

definition portal_labels_allow ::
    "portal_ctx option \<Rightarrow> portal_labels option \<Rightarrow> bool \<times> bool" where
  "portal_labels_allow ctx row_labels =
     (case ctx of
        None \<Rightarrow> (True, False)
      | Some c \<Rightarrow>
          if auth_user (ctx_auth c) = Some PORTAL_ROOT_USER then (True, False)
          else if portal_labels_has (auth_labels (ctx_auth c)) ''sys.see_all'' then (True, True)
          else (case row_labels of
                  None \<Rightarrow> (True, False)
                | Some row \<Rightarrow>
                    if length row = 0 then (True, False)
                    else if length (auth_labels (ctx_auth c)) = 0 then (False, False)
                    else (portal_labels_intersects (auth_labels (ctx_auth c)) row, False)))"

text \<open>\<open>portal_path_list\<close> passes every key with the module of its entry to the callback.\<close>

definition portal_path_list ::
    "portal_path_tree \<Rightarrow> (string \<Rightarrow> string \<Rightarrow> 'a \<Rightarrow> 'a) \<Rightarrow> 'a \<Rightarrow> 'a" where
  "portal_path_list tree callback userdata =
     portal_ht_iter (tree_table tree)
       (\<lambda>key val u. case val of None \<Rightarrow> u | Some entry \<Rightarrow> callback key (pe_module_name entry) u)
       userdata"

subsection \<open>The registry as a map\<close>

abbreviation paths :: "portal_path_tree \<Rightarrow> string \<rightharpoonup> path_entry" where
  "paths tree \<equiv> portal_ht_get (tree_table tree)"

definition tree_ok :: "portal_path_tree \<Rightarrow> bool" where
  "tree_ok tree \<longleftrightarrow> ht_ok (tree_table tree) \<and> tree_count tree = int (card (dom (paths tree)))"

lemma finite_dom_get: "ht_ok t \<Longrightarrow> finite (dom (portal_ht_get t))"
proof -
  assume "ht_ok t"
  then have "dom (portal_ht_get t) = dom (ht_map t)" by (simp add: dom_def ht_ok_get)
  then show ?thesis by simp
qed

lemma tree_ok_init: "tree_ok portal_path_init" "paths portal_path_init = Map.empty"
  by (simp_all add: tree_ok_def portal_path_init_def ht_ok_init)

lemma path_modify_ok:
  assumes "tree_ok tree"
  shows "tree_ok (path_modify tree path f)"
    and "paths (path_modify tree path f) = (paths tree)(path := map_option f (paths tree path))"
proof -
  have t: "ht_ok (tree_table tree)" using assms by (simp add: tree_ok_def)
  note m = tbl.modify [OF t, of path f]
  then show p: "paths (path_modify tree path f) = (paths tree)(path := map_option f (paths tree path))"
    by (simp add: path_modify_def)
  have "dom (paths (path_modify tree path f)) = dom (paths tree)" unfolding p by (auto simp: dom_def)
  with m assms show "tree_ok (path_modify tree path f)" by (simp add: tree_ok_def path_modify_def)
qed

lemma portal_path_register_fresh:
  assumes "tree_ok tree" "paths tree path = None"
  shows "fst (portal_path_register tree path m) = 0"
    and "tree_ok (snd (portal_path_register tree path m))"
    and "paths (snd (portal_path_register tree path m)) = (paths tree)(path \<mapsto> path_entry_new path m)"
proof -
  have t: "ht_ok (tree_table tree)" using assms by (simp add: tree_ok_def)
  note p = tbl.put_fresh [OF t assms(2), of "path_entry_new path m"]
  then have r: "portal_path_register tree path m =
      (0, tree\<lparr>tree_table := snd (portal_ht_set (tree_table tree) path (Some (path_entry_new path m))),
              tree_count := tree_count tree + 1\<rparr>)"
    using assms(2) by (simp add: portal_path_register_def split_beta Let_def)
  from r show "fst (portal_path_register tree path m) = 0" by simp
  from r p show m: "paths (snd (portal_path_register tree path m)) = (paths tree)(path \<mapsto> path_entry_new path m)"
    by simp
  show "tree_ok (snd (portal_path_register tree path m))"
    unfolding tree_ok_def m using r p assms finite_dom_get [OF t] by (simp add: tree_ok_def domIff)
qed

lemma portal_path_register_taken:
  "paths tree path \<noteq> None \<Longrightarrow> portal_path_register tree path m = (-1, tree)"
  by (auto simp: portal_path_register_def)

lemma portal_path_unregister_correct:
  assumes "tree_ok tree"
  shows "fst (portal_path_unregister tree path) = (if paths tree path = None then -1 else 0)"
    and "tree_ok (snd (portal_path_unregister tree path))"
    and "paths (snd (portal_path_unregister tree path)) = (paths tree)(path := None)"
proof -
  have t: "ht_ok (tree_table tree)" using assms by (simp add: tree_ok_def)
  note d = tbl.del [OF t, of path]
  show "fst (portal_path_unregister tree path) = (if paths tree path = None then -1 else 0)"
    by (simp add: portal_path_unregister_def split: option.splits)
  show m: "paths (snd (portal_path_unregister tree path)) = (paths tree)(path := None)"
    using d by (cases "paths tree path") (auto simp: portal_path_unregister_def)
  show "tree_ok (snd (portal_path_unregister tree path))"
  proof (cases "paths tree path")
    case (Some e)
    then have "Suc (card (dom (paths tree) - {path})) = card (dom (paths tree))"
      using finite_dom_get [OF t] by (intro card_Suc_Diff1) auto
    then show ?thesis
      unfolding tree_ok_def m using Some assms d by (simp add: tree_ok_def portal_path_unregister_def)
  qed (use assms in \<open>simp add: portal_path_unregister_def\<close>)
qed

interpretation pr: registry paths "\<lambda>tree (path, m). portal_path_register tree path m" portal_path_unregister
  fst "\<lambda>(path, m). path_entry_new path m" tree_ok "\<lambda>r. True" "\<lambda>tree. True"
  by unfold_locales
    (auto simp: portal_path_register_fresh portal_path_register_taken portal_path_unregister_correct
      split: prod.splits)

subsection \<open>Histories of the registry\<close>

datatype path_op =
    PRegister string string
  | PUnregister string
  | PSetLabels string "portal_labels option"
  | PAddLabel string string
  | PRemoveLabel string string
  | PSetDescription string string

fun path_step :: "path_op \<Rightarrow> portal_path_tree \<Rightarrow> int \<times> portal_path_tree" where
  "path_step (PRegister path m) tree = portal_path_register tree path m"
| "path_step (PUnregister path) tree = portal_path_unregister tree path"
| "path_step (PSetLabels path ls) tree = portal_path_set_labels tree path ls"
| "path_step (PAddLabel path l) tree = portal_path_add_label tree path l"
| "path_step (PRemoveLabel path l) tree = portal_path_remove_label tree path l"
| "path_step (PSetDescription path d) tree = portal_path_set_description tree path d"

text \<open>The specification: a map from paths to entries, updated at one path per operation.\<close>

definition on_entry ::
    "(path_entry \<Rightarrow> int \<times> path_entry) \<Rightarrow> string \<Rightarrow> (string \<rightharpoonup> path_entry) \<Rightarrow> int \<times> (string \<rightharpoonup> path_entry)" where
  "on_entry f path m =
     (case m path of None \<Rightarrow> (-1, m) | Some e \<Rightarrow> (fst (f e), m(path \<mapsto> snd (f e))))"

definition on_labels ::
    "(portal_labels \<Rightarrow> int \<times> portal_labels) \<Rightarrow> path_entry \<Rightarrow> int \<times> path_entry" where
  "on_labels f e = (fst (f (pe_labels e)), e\<lparr>pe_labels := snd (f (pe_labels e))\<rparr>)"

fun path_spec_step :: "path_op \<Rightarrow> (string \<rightharpoonup> path_entry) \<Rightarrow> int \<times> (string \<rightharpoonup> path_entry)" where
  "path_spec_step (PRegister path md) m =
     (if path \<in> dom m then (-1, m) else (0, m(path \<mapsto> path_entry_new path md)))"
| "path_spec_step (PUnregister path) m = (if path \<in> dom m then 0 else -1, m(path := None))"
| "path_spec_step (PSetLabels path ls) m =
     on_entry (on_labels (\<lambda>_. (0, case ls of Some l \<Rightarrow> l | None \<Rightarrow> []))) path m"
| "path_spec_step (PAddLabel path l) m = on_entry (on_labels (\<lambda>ls. portal_labels_add ls l)) path m"
| "path_spec_step (PRemoveLabel path l) m = on_entry (on_labels (\<lambda>ls. portal_labels_remove ls l)) path m"
| "path_spec_step (PSetDescription path d) m =
     on_entry (\<lambda>e. (0, e\<lparr>pe_description := take 255 d\<rparr>)) path m"

lemmas path_writers = portal_path_set_labels_def portal_path_add_label_def
  portal_path_remove_label_def portal_path_set_description_def

lemma path_step_refines:
  assumes "tree_ok tree"
  shows "fst (path_step p tree) = fst (path_spec_step p (paths tree)) \<and>
         tree_ok (snd (path_step p tree)) \<and> paths (snd (path_step p tree)) = snd (path_spec_step p (paths tree))"
proof (cases p)
  case (PRegister path m)
  then show ?thesis
    using portal_path_register_fresh [OF assms, of path m] portal_path_register_taken [of tree path m] assms
    by (cases "paths tree path") auto
next
  case (PUnregister path)
  then show ?thesis using portal_path_unregister_correct [OF assms, of path] by auto
qed (use path_modify_ok [OF assms] assms in
    \<open>auto simp: path_writers on_entry_def on_labels_def portal_labels_clear_def csnprintf_def
      fun_eq_iff split: option.splits\<close>)

lemma path_run_refines:
  assumes "tree_ok tree"
  shows "fst (run_ops path_step ps tree) = fst (run_ops path_spec_step ps (paths tree)) \<and>
         tree_ok (snd (run_ops path_step ps tree)) \<and>
         paths (snd (run_ops path_step ps tree)) = snd (run_ops path_spec_step ps (paths tree))"
  using assms
proof (induction ps arbitrary: tree)
  case (Cons p ps)
  show ?case using path_step_refines [OF Cons.prems, of p] Cons.IH by (simp add: split_beta Let_def)
qed simp

subsection \<open>Access decisions\<close>

text \<open>The rule of the access control on the abstract registry.\<close>

definition access_rule :: "(string \<rightharpoonup> path_entry) \<Rightarrow> string \<Rightarrow> portal_ctx option \<Rightarrow> bool" where
  "access_rule m path ctx \<longleftrightarrow>
     (\<exists>e. m path = Some e \<and>
        (ctx_is_root ctx \<or> pe_labels e = [] \<or>
         (\<exists>c l. ctx = Some c \<and> auth_user (ctx_auth c) \<noteq> None \<and>
                l \<in> set (pe_labels e) \<and> l \<in> set (auth_labels (ctx_auth c)))))"

lemma check_access_rule: "portal_path_check_access tree path ctx \<longleftrightarrow> access_rule (paths tree) path ctx"
  by (auto simp: portal_path_check_access_def access_rule_def split: option.splits)

subsection \<open>Listing\<close>

definition path_items :: "portal_path_tree \<Rightarrow> (string \<times> string) list" where
  "path_items tree =
     map (\<lambda>(k, e). (k, pe_module_name e)) (some_items (ht_items (ht_entries (tree_table tree))))"

lemma portal_path_list_fold:
  "portal_path_list tree cb u = fold (\<lambda>(p, m). cb p m) (path_items tree) u"
  using fold_some_items [of "\<lambda>k e. cb k (pe_module_name e)"]
  by (simp add: portal_path_list_def portal_ht_iter_def path_items_def fold_map comp_def case_prod_unfold)

lemma path_items_props:
  assumes "tree_ok tree"
  shows "distinct (map fst (path_items tree))"
    and "(p, m) \<in> set (path_items tree) \<longleftrightarrow> portal_path_lookup tree p = Some m"
proof -
  have t: "ht_ok (tree_table tree)" using assms by (simp add: tree_ok_def)
  then show "distinct (map fst (path_items tree))"
    using distinct_some_items [of "ht_items (ht_entries (tree_table tree))"]
    by (simp add: path_items_def ht_ok_def ht_inv_def ht_nodup_def split_beta comp_def)
  have "(p, m) \<in> set (path_items tree) \<longleftrightarrow>
        (\<exists>e. (p, Some e) \<in> set (ht_items (ht_entries (tree_table tree))) \<and> m = pe_module_name e)"
    unfolding path_items_def by (force simp: set_some_items)
  also have "\<dots> \<longleftrightarrow> portal_path_lookup tree p = Some m"
    using ht_ok_items [OF t] by (auto simp: portal_path_lookup_def split: option.splits)
  finally show "(p, m) \<in> set (path_items tree) \<longleftrightarrow> portal_path_lookup tree p = Some m" .
qed

subsection \<open>Properties\<close>

text \<open>
  Property C13. For every history of registrations, removals and label or description
  changes, the registry returns the same codes and holds the same entries as a map from
  paths to entries, \<open>count\<close> is the number of registered paths, and the access check decides
  by the rule on that map: root, a path without labels, or a known user who shares a label
  with the path.
\<close>

theorem paths_refine_map:
  defines "tree \<equiv> \<lambda>ps. snd (run_ops path_step ps portal_path_init)"
    and "spec \<equiv> \<lambda>ps. snd (run_ops path_spec_step ps Map.empty)"
  shows "fst (run_ops path_step ps portal_path_init) = fst (run_ops path_spec_step ps Map.empty) \<and>
         portal_path_lookup_entry (tree ps) = spec ps \<and>
         tree_count (tree ps) = int (card (dom (spec ps))) \<and>
         portal_path_check_access (tree ps) path ctx = access_rule (spec ps) path ctx"
  using path_run_refines [OF tree_ok_init(1), of ps] tree_ok_init(2)
  by (simp add: tree_def spec_def tree_ok_def check_access_rule portal_path_lookup_entry_def [abs_def])

text \<open>
  A path that was registered and then labelled is closed to every known user
  who is not root and does not hold the label, open to one who does, and open to everybody
  again once the label is removed.
\<close>

lemma path_label_guard:
  fixes m :: string
  assumes "tree_ok tree" and "portal_path_lookup_entry tree path = None" and "label_fits l"
    and "auth_user (ctx_auth c) = Some u" and "u \<noteq> ''root''"
  defines "t1 \<equiv> snd (portal_path_add_label (snd (portal_path_register tree path m)) path l)"
  shows "portal_path_check_access t1 path (Some c) = portal_labels_has (auth_labels (ctx_auth c)) l \<and>
         portal_path_check_access (snd (portal_path_remove_label t1 path l)) path (Some c)"
proof -
  let ?t0 = "snd (portal_path_register tree path m)"
  have none: "paths tree path = None" using assms(2) by (simp add: portal_path_lookup_entry_def)
  note r = portal_path_register_fresh [OF assms(1) none, of m]
  have add: "snd (portal_labels_add [] l) = [l]"
    using assms(3) by (simp add: portal_labels_add_def label_fits_def cstr_simps index_simps)
  have p1: "tree_ok t1" "paths t1 path = Some ((path_entry_new path m)\<lparr>pe_labels := [l]\<rparr>)"
    using path_step_refines [OF r(2), of "PAddLabel path l"] add r(3)
    by (simp_all add: t1_def on_entry_def on_labels_def path_entry_new_def)
  have rm: "snd (portal_labels_remove [l] l) = []"
    by (simp add: portal_labels_remove_def)
  have p2: "paths (snd (portal_path_remove_label t1 path l)) path = Some (path_entry_new path m)"
    using path_step_refines [OF p1(1), of "PRemoveLabel path l"] p1(2) rm
    by (simp add: on_entry_def on_labels_def path_entry_new_def)
  show ?thesis
    using p1(2) p2 assms(4,5)
    by (auto simp: check_access_rule access_rule_def path_entry_new_def ctx_is_root_def)
qed

text \<open>
  The row check and the path check agree: for a known user without the
  \<open>sys.see_all\<close> label, \<open>portal_labels_allow\<close> on the labels of a registered path gives the
  decision of \<open>portal_path_check_access\<close>; with that label the row check allows and reports
  the bypass, except for root, whose access is never reported as a bypass.
\<close>

lemma labels_allow_agrees:
  assumes "auth_user (ctx_auth c) \<noteq> None"
    and "portal_path_lookup_entry tree path = Some e"
  shows "portal_labels_allow (Some c) (portal_path_get_labels tree path) =
         (if portal_labels_has (auth_labels (ctx_auth c)) ''sys.see_all'' \<and> \<not> ctx_is_root (Some c)
          then (True, True) else (portal_path_check_access tree path (Some c), False))"
  using assms
  by (auto simp: portal_labels_allow_def portal_path_get_labels_def portal_path_check_access_def
      portal_path_lookup_entry_def ctx_is_root_def)

text \<open>
  \<open>portal_path_list\<close> calls back exactly once for every registered path, with
  the module that \<open>portal_path_lookup\<close> returns for it.
\<close>

lemma path_list_complete:
  assumes "tree_ok tree"
  defines "ps \<equiv> portal_path_list tree (\<lambda>p m acc. (p, m) # acc) []"
  shows "distinct (map fst ps) \<and> (\<forall>p m. (p, m) \<in> set ps \<longleftrightarrow> portal_path_lookup tree p = Some m)"
proof -
  have "fold (\<lambda>(p, m). (#) (p, m)) xs acc = rev xs @ acc" for xs acc :: "(string \<times> string) list"
    by (induction xs arbitrary: acc) auto
  then have "ps = rev (path_items tree)" by (simp add: ps_def portal_path_list_fold)
  then show ?thesis using path_items_props [OF assms(1)] by (simp flip: rev_map)
qed

end
