(* ===== verification/Ini.thy ===== *)
theory Ini
  imports Hashtable
begin

section \<open>Text lines and the INI store (core_store.c)\<close>

text \<open>
  \<^verbatim>\<open>src/core/core_store.c\<close>, and the line handling that \<^verbatim>\<open>core_auth.c\<close>, \<^verbatim>\<open>core_config.c\<close>
  and \<^verbatim>\<open>core_store.c\<close> share (each has its own copy of \<open>trim\<close>). The file system is a map from
  path names to contents; \<open>can_write\<close> says for which names \<open>fopen (.., "w")\<close> succeeds. Files
  hold text without NUL bytes. \<open>fgets\<close> with a buffer of \<open>n\<close> bytes returns pieces of at most
  \<open>n - 1\<close> characters, each ending at a newline or where the buffer is full.

  The table of key-value pairs is the hash table. Nothing is ever deleted from it, so it has
  no tombstones and \<open>portal_ht_set\<close> is map update; the locale \<open>upsert_table\<close> states this
  contract. The round trip shows that a table of clean pairs survives writing and reading.
\<close>

subsection \<open>Lines\<close>

type_synonym file_system = "string \<rightharpoonup> string"

definition isspace :: "char \<Rightarrow> bool" where
  "isspace c \<longleftrightarrow> c \<in> set [CHR '' '', CHR 0x09, CHR 0x0A, CHR 0x0B, CHR 0x0C, CHR 0x0D]"

definition trim :: "string \<Rightarrow> string" where
  "trim s = rev (dropWhile isspace (rev (dropWhile isspace s)))"

text \<open>One call of \<open>fgets\<close> on a stream: the piece it returns and the rest of the stream.\<close>

fun fgets :: "nat \<Rightarrow> string \<Rightarrow> string \<times> string" where
  "fgets 0 s = ([], s)"
| "fgets (Suc n) [] = ([], [])"
| "fgets (Suc n) (c # s) =
     (if c = CHR 0x0A then ([c], s) else (let (l, r) = fgets n s in (c # l, r)))"

lemma length_fgets: "length (snd (fgets n s)) = length s - length (fst (fgets n s))"
  by (induction n s rule: fgets.induct) (auto simp: split_beta)

lemma fgets_nonempty: "0 < n \<Longrightarrow> s \<noteq> [] \<Longrightarrow> fst (fgets n s) \<noteq> []"
  by (cases n; cases s) (auto simp: split_beta)

function fgets_all :: "nat \<Rightarrow> string \<Rightarrow> string list" where
  "fgets_all n s =
     (if s = [] \<or> n \<le> 1 then [] else fst (fgets (n - 1) s) # fgets_all n (snd (fgets (n - 1) s)))"
  by auto
termination
proof (relation "measure (\<lambda>(n, s). length s)")
  fix n :: nat and s :: string
  assume "\<not> (s = [] \<or> n \<le> 1)"
  then have "0 < length (fst (fgets (n - 1) s))" "0 < length s" using fgets_nonempty [of "n - 1" s] by auto
  then show "((n, snd (fgets (n - 1) s)), n, s) \<in> measure (\<lambda>(n, s). length s)"
    using length_fgets [of "n - 1" s] by simp
qed simp

declare fgets_all.simps [simp del]

definition ini_skip :: "string \<Rightarrow> bool" where
  "ini_skip s \<longleftrightarrow> s = [] \<or> hd s = CHR ''#'' \<or> hd s = CHR '';''"

definition ini_pair :: "string \<Rightarrow> (string \<times> string) option" where
  "ini_pair s =
     (case strchr_split CHR ''='' s of
        (key, None) \<Rightarrow> None
      | (key, Some val) \<Rightarrow> Some (trim key, trim val))"

subsection \<open>Reading and writing\<close>

definition portal_store_path :: "string \<Rightarrow> string \<Rightarrow> string \<Rightarrow> nat \<Rightarrow> string" where
  "portal_store_path base_dir subdir name out_len =
     csnprintf out_len (base_dir @ ''/'' @ subdir @ ''/'' @ name @ ''.conf'')"

definition portal_store_exists :: "file_system \<Rightarrow> string \<Rightarrow> bool" where
  "portal_store_exists fs path \<longleftrightarrow> fs path \<noteq> None"

definition portal_store_delete :: "file_system \<Rightarrow> string \<Rightarrow> int \<times> file_system" where
  "portal_store_delete fs path = (if fs path = None then (-1, fs) else (0, fs(path := None)))"

definition store_ini_line :: "string \<Rightarrow> string ht \<Rightarrow> string ht" where
  "store_ini_line line kv =
     (let s = trim line
      in if ini_skip s then kv
         else case ini_pair s of None \<Rightarrow> kv | Some (key, val) \<Rightarrow> snd (portal_ht_set kv key (Some val)))"

definition portal_store_read_ini :: "file_system \<Rightarrow> string \<Rightarrow> string ht \<Rightarrow> int \<times> string ht" where
  "portal_store_read_ini fs path kv =
     (case fs path of
        None \<Rightarrow> (-1, kv)
      | Some text \<Rightarrow> (0, fold store_ini_line (fgets_all 512 text) kv))"

definition write_kv_cb :: "string \<Rightarrow> string option \<Rightarrow> string \<Rightarrow> string" where
  "write_kv_cb key val out =
     out @ key @ '' = '' @ (case val of None \<Rightarrow> ''(null)'' | Some v \<Rightarrow> v) @ [CHR 0x0A]"

definition portal_store_write_ini ::
    "(string \<Rightarrow> bool) \<Rightarrow> file_system \<Rightarrow> string \<Rightarrow> string ht \<Rightarrow> int \<times> file_system" where
  "portal_store_write_ini can_write fs path kv =
     (let tmp = csnprintf PORTAL_MAX_PATH_LEN (path @ ''.tmp'')
      in if \<not> can_write tmp then (-1, fs)
         else let text = portal_ht_iter kv write_kv_cb (''# Portal auto-generated config'' @ [CHR 0x0A])
              in (0, (fs(tmp := None))(path \<mapsto> text)))"

definition portal_store_read_value :: "file_system \<Rightarrow> string \<Rightarrow> string \<Rightarrow> string option" where
  "portal_store_read_value fs path key =
     (case portal_store_read_ini fs path (portal_ht_init 16) of
        (rc, kv) \<Rightarrow> if rc < 0 then None else portal_ht_get kv key)"

definition portal_store_write_value ::
    "(string \<Rightarrow> bool) \<Rightarrow> file_system \<Rightarrow> string \<Rightarrow> string \<Rightarrow> string \<Rightarrow> int \<times> file_system" where
  "portal_store_write_value can_write fs path key val =
     (let kv = snd (portal_store_read_ini fs path (portal_ht_init 16))
      in portal_store_write_ini can_write fs path (snd (portal_ht_set kv key (Some val))))"

text \<open>
  \<open>portal_store_list_dir\<close> over the names that \<open>readdir\<close> returns: hidden files are skipped, and
  the first occurrence of \<open>.conf\<close> ends the name.
\<close>

fun cut_at :: "string \<Rightarrow> string \<Rightarrow> string option" where
  "cut_at sub [] = (if sub = [] then Some [] else None)"
| "cut_at sub (c # s) = (if prefix sub (c # s) then Some [] else map_option ((#) c) (cut_at sub s))"

definition store_entry_name :: "string \<Rightarrow> string option" where
  "store_entry_name d_name =
     (if d_name \<noteq> [] \<and> hd d_name = CHR ''.'' then None else cut_at ''.conf'' (csnprintf 256 d_name))"

definition portal_store_list_dir ::
    "string list option \<Rightarrow> (string \<Rightarrow> 'a \<Rightarrow> 'a) \<Rightarrow> 'a \<Rightarrow> int \<times> 'a" where
  "portal_store_list_dir names cb userdata =
     (case names of
        None \<Rightarrow> (-1, userdata)
      | Some ns \<Rightarrow>
          (let es = List.map_filter store_entry_name ns in (int (length es), fold cb es userdata)))"

subsection \<open>The contract of a table without deletions\<close>

locale upsert_table =
  fixes get :: "'t \<Rightarrow> string \<Rightarrow> 'v option"
    and put :: "'t \<Rightarrow> string \<Rightarrow> 'v option \<Rightarrow> int \<times> 't"
    and ok :: "'t \<Rightarrow> bool"
  assumes put: "ok t \<Longrightarrow> fst (put t k (Some v)) = 0 \<and> ok (snd (put t k (Some v))) \<and>
      get (snd (put t k (Some v))) = (get t)(k \<mapsto> v)"
begin

lemma fold_put:
  assumes "ok t"
  shows "ok (fold (\<lambda>(k, v) t. snd (put t k (Some v))) kvs t) \<and>
         get (fold (\<lambda>(k, v) t. snd (put t k (Some v))) kvs t) = get t ++ map_of (rev kvs)"
  using assms
proof (induction kvs arbitrary: t)
  case (Cons kv kvs)
  obtain k v where kv: "kv = (k, v)" by (cases kv)
  note p = put [OF Cons.prems, of k v]
  have "(get t)(k \<mapsto> v) ++ map_of (rev kvs) = get t ++ map_of (rev ((k, v) # kvs))"
    by (simp add: fun_upd_def fun_eq_iff map_add_def split: option.splits)
  with Cons.IH [of "snd (put t k (Some v))"] p show ?case by (simp only: kv fold_simps prod.case)
qed simp

end

definition kv_ok :: "'v ht \<Rightarrow> bool" where
  "kv_ok kv \<longleftrightarrow> ht_ok kv \<and> ht_tombfree kv"

interpretation kvt: upsert_table portal_ht_get portal_ht_set kv_ok
proof
  fix t :: "'a ht" and k v
  assume t: "kv_ok t"
  then have ok: "ht_ok t" and tf: "ht_tombfree t" by (simp_all add: kv_ok_def)
  note s = portal_ht_set_correct [OF ht_okD(1) [OF ok] disjI2 [OF tf], where v = "Some v"]
  have "ht_map (snd (portal_ht_set t k (Some v))) k' = map_option Some (((portal_ht_get t)(k \<mapsto> v)) k')" for k'
    using s(3) ht_ok_get [OF ok] by simp
  from ht_okI [OF s(2) this] s tf
  show "fst (portal_ht_set t k (Some v)) = 0 \<and> kv_ok (snd (portal_ht_set t k (Some v))) \<and>
        portal_ht_get (snd (portal_ht_set t k (Some v))) = (portal_ht_get t)(k \<mapsto> v)"
    by (simp add: kv_ok_def fun_eq_iff)
qed

lemma kv_ok_init: "kv_ok (portal_ht_init n)"
  by (simp add: kv_ok_def ht_ok_init ht_inv_init)

subsection \<open>Clean pairs survive a line\<close>

lemma trim_Cons_space: "isspace c \<Longrightarrow> trim (c # s) = trim s"
  by (simp add: trim_def)

lemma trim_snoc_space: "isspace c \<Longrightarrow> trim (s @ [c]) = trim s"
  by (auto simp: trim_def dropWhile_append dropWhile_eq_Nil_conv [THEN iffD2])

lemma dropWhile_hd: "s \<noteq> [] \<Longrightarrow> \<not> P (hd s) \<Longrightarrow> dropWhile P s = s"
  by (cases s) auto

lemma trim_id: "s \<noteq> [] \<Longrightarrow> \<not> isspace (hd s) \<Longrightarrow> \<not> isspace (last s) \<Longrightarrow> trim s = s"
  by (simp add: trim_def dropWhile_hd hd_rev)

lemma trim_idD:
  assumes "trim s = s" "s \<noteq> []"
  shows "\<not> isspace (hd s)" and "\<not> isspace (last s)"
proof -
  define t where "t = rev (dropWhile isspace s)"
  have r: "rev s = dropWhile isspace t" using assms(1) by (simp add: trim_def t_def rev_swap)
  have "dropWhile isspace t \<noteq> []" unfolding r [symmetric] using assms(2) by simp
  from hd_dropWhile [OF this] show "\<not> isspace (last s)" by (simp flip: r add: hd_rev)
  show "\<not> isspace (hd s)"
  proof
    assume "isspace (hd s)"
    with assms(2) obtain c t where s: "s = c # t" "isspace c" by (cases s) auto
    have "length (trim x) \<le> length x" for x
      using length_dropWhile_le [of isspace "rev (dropWhile isspace x)"] length_dropWhile_le [of isspace x]
      by (simp add: trim_def)
    from this [of t] s assms(1) trim_Cons_space [of c t] show False by simp
  qed
qed

definition clean_pair :: "string \<Rightarrow> string \<Rightarrow> bool" where
  "clean_pair k v \<longleftrightarrow>
     k \<noteq> [] \<and> trim k = k \<and> trim v = v \<and> CHR ''='' \<notin> set k \<and> \<not> ini_skip k \<and>
     CHR 0x0A \<notin> set k \<and> CHR 0x0A \<notin> set v \<and> length k + length v < 508"

lemma isspace_simps [simp]: "isspace CHR '' ''" "isspace CHR 0x0A" "\<not> isspace CHR ''=''"
  by (simp_all add: isspace_def)

lemma trim_kv_line:
  assumes "clean_pair k v"
  shows "trim (k @ '' = '' @ v @ [CHR 0x0A]) = k @ '' ='' @ (if v = [] then [] else CHR '' '' # v)"
proof -
  have k: "k \<noteq> []" "\<not> isspace (hd k)" using assms trim_idD(1) by (auto simp: clean_pair_def)
  have "trim (k @ '' = '' @ v @ [CHR 0x0A]) = trim (k @ '' = '' @ v)"
    using trim_snoc_space [of "CHR 0x0A" "k @ '' = '' @ v"] by simp
  also have "\<dots> = k @ '' ='' @ (if v = [] then [] else CHR '' '' # v)"
  proof (cases "v = []")
    case True
    have "trim (k @ '' = '') = trim (k @ '' ='')" using trim_snoc_space [of "CHR '' ''" "k @ '' =''"] by simp
    with True k show ?thesis by (simp add: trim_id)
  next
    case False
    with assms have "\<not> isspace (last v)" using trim_idD(2) by (auto simp: clean_pair_def)
    with False k show ?thesis by (simp add: trim_id)
  qed
  finally show ?thesis .
qed

lemma clean_line_pair:
  assumes "clean_pair k v"
  shows "ini_pair (trim (k @ '' = '' @ v @ [CHR 0x0A])) = Some (k, v)"
    and "\<not> ini_skip (trim (k @ '' = '' @ v @ [CHR 0x0A]))"
    and "hd (trim (k @ '' = '' @ v @ [CHR 0x0A])) = hd k"
proof -
  let ?s = "k @ '' ='' @ (if v = [] then [] else CHR '' '' # v)"
  have k: "k \<noteq> []" "trim k = k" "trim v = v" "CHR ''='' \<notin> set (k @ '' '')" "\<not> ini_skip k"
    using assms by (auto simp: clean_pair_def)
  have "strchr_split CHR ''='' ((k @ '' '') @ CHR ''='' # (if v = [] then [] else CHR '' '' # v)) =
      (k @ '' '', Some (if v = [] then [] else CHR '' '' # v))"
    by (rule strchr_split_append) (rule k(4))
  moreover have "trim (k @ '' '') = k" using k trim_snoc_space [of "CHR '' ''" k] by simp
  moreover have "trim (if v = [] then [] else CHR '' '' # v) = v" using k trim_Cons_space by auto
  ultimately have "ini_pair ?s = Some (k, v)" by (simp add: ini_pair_def)
  moreover have "\<not> ini_skip ?s" using k by (simp add: ini_skip_def)
  ultimately show "ini_pair (trim (k @ '' = '' @ v @ [CHR 0x0A])) = Some (k, v)"
    and "\<not> ini_skip (trim (k @ '' = '' @ v @ [CHR 0x0A]))"
    and "hd (trim (k @ '' = '' @ v @ [CHR 0x0A])) = hd k"
    unfolding trim_kv_line [OF assms] using k(1) by simp_all
qed

lemma store_ini_line_clean:
  assumes "clean_pair k v"
  shows "store_ini_line (k @ '' = '' @ v @ [CHR 0x0A]) kv = snd (portal_ht_set kv k (Some v))"
  using clean_line_pair [OF assms] by (simp add: store_ini_line_def Let_def)

lemma fgets_line:
  "CHR 0x0A \<notin> set l \<Longrightarrow> length l < n \<Longrightarrow> fgets n (l @ CHR 0x0A # r) = (l @ [CHR 0x0A], r)"
proof (induction l arbitrary: n)
  case Nil
  then show ?case by (cases n) auto
next
  case (Cons c l)
  then show ?case by (cases n) auto
qed

lemma fgets_all_line:
  assumes "CHR 0x0A \<notin> set l" "length l < 511"
  shows "fgets_all 512 (l @ CHR 0x0A # r) = (l @ [CHR 0x0A]) # fgets_all 512 r"
  using fgets_line [OF assms, of r] by (subst fgets_all.simps) simp

definition kv_line :: "string \<times> string \<Rightarrow> string" where
  "kv_line = (\<lambda>(k, v). k @ '' = '' @ v @ [CHR 0x0A])"

lemma fgets_all_kv_lines:
  assumes "\<forall>(k, v)\<in>set kvs. clean_pair k v"
  shows "fgets_all 512 (concat (map kv_line kvs)) = map kv_line kvs"
  using assms
proof (induction kvs)
  case Nil
  show ?case by (simp add: fgets_all.simps)
next
  case (Cons p kvs)
  obtain k v where p: "p = (k, v)" by (cases p)
  with Cons.prems have c: "clean_pair k v" by auto
  show ?case
    using fgets_all_line [of "k @ '' = '' @ v" "concat (map kv_line kvs)"] c Cons
    by (simp add: p kv_line_def clean_pair_def)
qed

lemma fold_kv_lines:
  assumes "\<forall>(k, v)\<in>set kvs. clean_pair k v"
  shows "fold store_ini_line (map kv_line kvs) kv = fold (\<lambda>(k, v) t. snd (portal_ht_set t k (Some v))) kvs kv"
  using assms store_ini_line_clean by (induction kvs arbitrary: kv) (auto simp: kv_line_def)

lemma read_kv_lines:
  assumes "\<forall>(k, v)\<in>set kvs. clean_pair k v"
  shows "fold store_ini_line (fgets_all 512 (concat (map kv_line kvs))) kv =
         fold (\<lambda>(k, v) t. snd (portal_ht_set t k (Some v))) kvs kv"
  using fold_kv_lines [OF assms] by (simp add: fgets_all_kv_lines [OF assms])

subsection \<open>Whole files\<close>

definition clean_kv :: "string ht \<Rightarrow> bool" where
  "clean_kv kv \<longleftrightarrow> (\<forall>k v. portal_ht_get kv k = Some v \<longrightarrow> clean_pair k v)"

lemma write_kv_text:
  assumes "ht_ok kv"
  shows "portal_ht_iter kv write_kv_cb out =
         out @ concat (map kv_line (some_items (ht_items (ht_entries kv))))"
proof -
  have "fold (\<lambda>(k, v). write_kv_cb k v) xs out = out @ concat (map kv_line (some_items xs))"
    if "\<forall>(k, v)\<in>set xs. v \<noteq> None" for xs out
    using that
    by (induction xs arbitrary: out rule: some_items.induct) (auto simp: write_kv_cb_def kv_line_def)
  moreover have "\<forall>(k, v)\<in>set (ht_items (ht_entries kv)). v \<noteq> None"
    using ht_ok_items [OF assms] by auto
  ultimately show ?thesis by (simp add: portal_ht_iter_def)
qed

lemma header_line_skipped: "store_ini_line (''# Portal auto-generated config'' @ [CHR 0x0A]) kv = kv"
  by (simp add: store_ini_line_def Let_def trim_def isspace_def ini_skip_def)

lemma read_written:
  assumes "kv_ok kv" "clean_kv kv" "kv_ok kv0"
  defines "text \<equiv> portal_ht_iter kv write_kv_cb (''# Portal auto-generated config'' @ [CHR 0x0A])"
  defines "kv1 \<equiv> fold store_ini_line (fgets_all 512 text) kv0"
  shows "kv_ok kv1" and "portal_ht_get kv1 = portal_ht_get kv0 ++ portal_ht_get kv"
proof -
  let ?items = "some_items (ht_items (ht_entries kv))"
  have ok: "ht_ok kv" using assms(1) by (simp add: kv_ok_def)
  note it = ht_ok_some_items [OF ok]
  have clean: "\<forall>(k, v)\<in>set ?items. clean_pair k v"
    using assms(2) ht_ok_items [OF ok] by (force simp: clean_kv_def set_some_items)
  have "kv1 = fold (\<lambda>(k, v) t. snd (portal_ht_set t k (Some v))) ?items kv0"
  proof -
    have "text = ''# Portal auto-generated config'' @ CHR 0x0A # concat (map kv_line ?items)"
      by (simp add: text_def write_kv_text [OF ok])
    then have "fgets_all 512 text = (''# Portal auto-generated config'' @ [CHR 0x0A]) # fgets_all 512 (concat (map kv_line ?items))"
      by (simp only:) (rule fgets_all_line, simp_all)
    then show ?thesis
      unfolding kv1_def by (simp only: fold_simps header_line_skipped read_kv_lines [OF clean])
  qed
  moreover have "map_of (rev ?items) = map_of ?items"
    using map_of_mset_eq [of "rev ?items" ?items] it(1) by simp
  ultimately show "kv_ok kv1" and "portal_ht_get kv1 = portal_ht_get kv0 ++ portal_ht_get kv"
    using kvt.fold_put [OF assms(3), of ?items] it(2) by simp_all
qed

subsection \<open>Properties\<close>

text \<open>
  Writing a table of clean pairs to a file and reading the file into a fresh table
  gives a table with the same lookups; only that file and its temporary name change. A pair is
  clean when key and value are trimmed and have no newline, the key is not empty, has no equals
  sign and does not start a comment, and the line fits the read buffer.
\<close>

lemma ini_round_trip:
  fixes fs :: file_system
  assumes "kv_ok kv" and "clean_kv kv" and "can_write (csnprintf 1024 (path @ ''.tmp''))"
  defines "fs' \<equiv> snd (portal_store_write_ini can_write fs path kv)"
  shows "fst (portal_store_write_ini can_write fs path kv) = 0 \<and>
         portal_ht_get (snd (portal_store_read_ini fs' path (portal_ht_init n))) = portal_ht_get kv \<and>
         (\<forall>p. p \<noteq> path \<and> p \<noteq> csnprintf 1024 (path @ ''.tmp'') \<longrightarrow> fs' p = fs p)"
  using read_written(2) [OF assms(1,2) kv_ok_init [of n]] assms(3)
  by (simp add: fs'_def portal_store_write_ini_def portal_store_read_ini_def Let_def ht_ok_init)

text \<open>
  \<open>portal_store_write_value\<close> changes exactly one key of the file: afterwards
  \<open>portal_store_read_value\<close> returns the new value for that key and what it returned before for
  every other key, provided that the old pairs and the new one are clean. When the temporary
  file cannot be opened the call returns -1 and no file has changed.
\<close>

lemma ini_write_value:
  assumes "clean_kv (snd (portal_store_read_ini fs path (portal_ht_init 16)))" and "clean_pair key val"
  defines "r \<equiv> \<lambda>can_write. portal_store_write_value can_write fs path key val"
  shows "(if can_write (csnprintf 1024 (path @ ''.tmp''))
          then fst (r can_write) = 0 \<and>
               portal_store_read_value (snd (r can_write)) path =
                 (portal_store_read_value fs path)(key \<mapsto> val)
          else r can_write = (-1, fs))"
proof -
  define kv where "kv = snd (portal_store_read_ini fs path (portal_ht_init 16))"
  define kv' where "kv' = snd (portal_ht_set kv key (Some val))"
  have old: "portal_store_read_value fs path = portal_ht_get kv"
    by (auto simp: portal_store_read_value_def portal_store_read_ini_def kv_def ht_ok_init fun_eq_iff
        split: option.splits)
  have step: "kv_ok (store_ini_line l t)" if "kv_ok t" for l t
    using kvt.put [OF that] that
    by (auto simp: store_ini_line_def Let_def split: option.splits prod.splits)
  have "kv_ok (fold store_ini_line ls t)" if "kv_ok t" for ls t
    using that by (induction ls arbitrary: t) (auto simp: step)
  then have kv: "kv_ok kv"
    by (auto simp: kv_def portal_store_read_ini_def kv_ok_init split: option.splits)
  note p = kvt.put [OF kv, of key val, folded kv'_def]
  have "clean_kv kv'"
    using assms(1,2) p unfolding clean_kv_def kv_def [symmetric] by auto
  from read_written(2) [OF _ this kv_ok_init] p old show ?thesis
    by (auto simp: r_def portal_store_write_value_def portal_store_write_ini_def Let_def ht_ok_init
        portal_store_read_value_def [of "_(path \<mapsto> _)"] portal_store_read_ini_def [of "_(path \<mapsto> _)"] fun_eq_iff
        simp flip: kv_def kv'_def)
qed

end
