(* ===== verification/Sha256.thy ===== *)
theory Sha256
  imports Prelude
begin

section \<open>SHA-256 (lib/sha256/sha256.c)\<close>

text \<open>
  \<^verbatim>\<open>lib/sha256/sha256.c\<close>: the incremental hash the account code uses for passwords.
  Bytes are characters. \<open>sha256_init\<close> leaves the data buffer of the context as it is, so the
  model takes the context it initialises as an argument. The refinement shows that feeding
  bytes one at a time and closing the buffer computes the one-shot definition: pad the whole
  message, cut it into blocks of 64 bytes and fold the compression function over them.
\<close>

subsection \<open>The compression function\<close>

record sha256_ctx =
  sc_data :: string
  sc_datalen :: nat
  sc_bitlen :: "64 word"
  sc_state :: "32 word list"

definition ROTRIGHT :: "32 word \<Rightarrow> nat \<Rightarrow> 32 word" where
  "ROTRIGHT a b = drop_bit b a OR push_bit (32 - b) a"

definition CH :: "32 word \<Rightarrow> 32 word \<Rightarrow> 32 word \<Rightarrow> 32 word" where
  "CH x y z = (x AND y) XOR (NOT x AND z)"

definition MAJ :: "32 word \<Rightarrow> 32 word \<Rightarrow> 32 word \<Rightarrow> 32 word" where
  "MAJ x y z = (x AND y) XOR (x AND z) XOR (y AND z)"

definition EP0 :: "32 word \<Rightarrow> 32 word" where
  "EP0 x = ROTRIGHT x 2 XOR ROTRIGHT x 13 XOR ROTRIGHT x 22"

definition EP1 :: "32 word \<Rightarrow> 32 word" where
  "EP1 x = ROTRIGHT x 6 XOR ROTRIGHT x 11 XOR ROTRIGHT x 25"

definition SIG0 :: "32 word \<Rightarrow> 32 word" where
  "SIG0 x = ROTRIGHT x 7 XOR ROTRIGHT x 18 XOR drop_bit 3 x"

definition SIG1 :: "32 word \<Rightarrow> 32 word" where
  "SIG1 x = ROTRIGHT x 17 XOR ROTRIGHT x 19 XOR drop_bit 10 x"

text \<open>The round constants in the rows of the source.\<close>

definition sha256_k :: "32 word list" where
  "sha256_k = concat
    [[0x428a2f98, 0x71374491, 0xb5c0fbcf, 0xe9b5dba5, 0x3956c25b, 0x59f111f1],
     [0x923f82a4, 0xab1c5ed5, 0xd807aa98, 0x12835b01, 0x243185be, 0x550c7dc3],
     [0x72be5d74, 0x80deb1fe, 0x9bdc06a7, 0xc19bf174, 0xe49b69c1, 0xefbe4786],
     [0x0fc19dc6, 0x240ca1cc, 0x2de92c6f, 0x4a7484aa, 0x5cb0a9dc, 0x76f988da],
     [0x983e5152, 0xa831c66d, 0xb00327c8, 0xbf597fc7, 0xc6e00bf3, 0xd5a79147],
     [0x06ca6351, 0x14292967, 0x27b70a85, 0x2e1b2138, 0x4d2c6dfc, 0x53380d13],
     [0x650a7354, 0x766a0abb, 0x81c2c92e, 0x92722c85, 0xa2bfe8a1, 0xa81a664b],
     [0xc24b8b70, 0xc76c51a3, 0xd192e819, 0xd6990624, 0xf40e3585, 0x106aa070],
     [0x19a4c116, 0x1e376c08, 0x2748774c, 0x34b0bcb5, 0x391c0cb3, 0x4ed8aa4a],
     [0x5b9cca4f, 0x682e6ff3, 0x748f82ee, 0x78a5636f, 0x84c87814, 0x8cc70208],
     [0x90befffa, 0xa4506ceb, 0xbef9a3f7, 0xc67178f2]]"

text \<open>The message schedule: 16 big-endian words of the block, then 48 derived words.\<close>

definition sha256_word :: "string \<Rightarrow> nat \<Rightarrow> 32 word" where
  "sha256_word data j =
     push_bit 24 (w8 (data ! j)) OR push_bit 16 (w8 (data ! (j + 1))) OR
     push_bit 8 (w8 (data ! (j + 2))) OR w8 (data ! (j + 3))"

definition sha256_extend :: "nat \<Rightarrow> 32 word list \<Rightarrow> 32 word list" where
  "sha256_extend i m = m @ [SIG1 (m ! (i - 2)) + m ! (i - 7) + SIG0 (m ! (i - 15)) + m ! (i - 16)]"

definition sha256_schedule :: "string \<Rightarrow> 32 word list" where
  "sha256_schedule data =
     fold sha256_extend [16..<64] (map (\<lambda>i. sha256_word data (4 * i)) [0..<16])"

type_synonym sha256_vars =
  "32 word \<times> 32 word \<times> 32 word \<times> 32 word \<times> 32 word \<times> 32 word \<times> 32 word \<times> 32 word"

definition sha256_round :: "32 word list \<Rightarrow> nat \<Rightarrow> sha256_vars \<Rightarrow> sha256_vars" where
  "sha256_round m i = (\<lambda>(a, b, c, d, e, f, g, h).
     let t1 = h + EP1 e + CH e f g + sha256_k ! i + m ! i;
         t2 = EP0 a + MAJ a b c
     in (t1 + t2, a, b, c, d + t1, e, f, g))"

definition sha256_compress :: "string \<Rightarrow> 32 word list \<Rightarrow> 32 word list" where
  "sha256_compress data st =
     (let m = sha256_schedule data;
          (a, b, c, d, e, f, g, h) =
            fold (sha256_round m) [0..<64]
              (st ! 0, st ! 1, st ! 2, st ! 3, st ! 4, st ! 5, st ! 6, st ! 7)
      in [st ! 0 + a, st ! 1 + b, st ! 2 + c, st ! 3 + d,
          st ! 4 + e, st ! 5 + f, st ! 6 + g, st ! 7 + h])"

definition sha256_transform :: "sha256_ctx \<Rightarrow> string \<Rightarrow> sha256_ctx" where
  "sha256_transform ctx data = ctx\<lparr>sc_state := sha256_compress data (sc_state ctx)\<rparr>"

subsection \<open>The incremental interface\<close>

definition sha256_H0 :: "32 word list" where
  "sha256_H0 = [0x6a09e667, 0xbb67ae85, 0x3c6ef372, 0xa54ff53a, 0x510e527f, 0x9b05688c, 0x1f83d9ab, 0x5be0cd19]"

definition sha256_init :: "sha256_ctx \<Rightarrow> sha256_ctx" where
  "sha256_init ctx = ctx\<lparr>sc_datalen := 0, sc_bitlen := 0, sc_state := sha256_H0\<rparr>"

definition sha256_byte :: "char \<Rightarrow> sha256_ctx \<Rightarrow> sha256_ctx" where
  "sha256_byte c ctx =
     (let ctx = ctx\<lparr>sc_data := (sc_data ctx)[sc_datalen ctx := c], sc_datalen := sc_datalen ctx + 1\<rparr>
      in if sc_datalen ctx = 64
         then (sha256_transform ctx (sc_data ctx))\<lparr>sc_bitlen := sc_bitlen ctx + 512, sc_datalen := 0\<rparr>
         else ctx)"

definition sha256_update :: "sha256_ctx \<Rightarrow> string \<Rightarrow> sha256_ctx" where
  "sha256_update ctx data = fold sha256_byte data ctx"

text \<open>\<open>fill buf i n\<close> is the loop \<open>while (i < n) data[i++] = 0x00\<close>.\<close>

definition fill :: "string \<Rightarrow> nat \<Rightarrow> nat \<Rightarrow> string" where
  "fill buf i n = fold (\<lambda>j b. b[j := CHR 0x00]) [i..<n] buf"

definition put_bitlen :: "64 word \<Rightarrow> string \<Rightarrow> string" where
  "put_bitlen len buf = fold (\<lambda>j b. b[63 - j := b8 (drop_bit (8 * j) len)]) [0..<8] buf"

definition sha256_final :: "sha256_ctx \<Rightarrow> string" where
  "sha256_final ctx =
     (let i = sc_datalen ctx;
          buf = (sc_data ctx)[i := CHR 0x80];
          ctx = (if i < 56 then ctx\<lparr>sc_data := fill buf (i + 1) 56\<rparr>
                 else let c = sha256_transform (ctx\<lparr>sc_data := fill buf (i + 1) 64\<rparr>) (fill buf (i + 1) 64)
                      in c\<lparr>sc_data := fill (sc_data c) 0 56\<rparr>);
          bitlen = sc_bitlen ctx + word_of_nat (i * 8);
          ctx = ctx\<lparr>sc_bitlen := bitlen, sc_data := put_bitlen bitlen (sc_data ctx)\<rparr>;
          ctx = sha256_transform ctx (sc_data ctx)
      in map (\<lambda>n. b8 (drop_bit (24 - n mod 4 * 8) (sc_state ctx ! (n div 4)) AND 0xff)) [0..<32])"

definition hex_digits :: string where
  "hex_digits = ''0123456789abcdef''"

definition hex_byte :: "char \<Rightarrow> string" where
  "hex_byte c = (let n = of_char c in [hex_digits ! (n div 16), hex_digits ! (n mod 16)])"

definition sha256_hex :: "string \<Rightarrow> string" where
  "sha256_hex data =
     (let ctx = sha256_init \<lparr>sc_data = replicate 64 CHR 0x00, sc_datalen = 0, sc_bitlen = 0, sc_state = []\<rparr>
      in concat (map hex_byte (sha256_final (sha256_update ctx data))))"

subsection \<open>The one-shot definition\<close>

function chunks64 :: "string \<Rightarrow> string list" where
  "chunks64 xs = (if length xs < 64 then [] else take 64 xs # chunks64 (drop 64 xs))"
  by auto
termination by (relation "measure length") auto

declare chunks64.simps [simp del]

definition be64 :: "64 word \<Rightarrow> string" where
  "be64 v = map (\<lambda>i. b8 (drop_bit (8 * i) v)) (rev [0..<8])"

text \<open>The padding of the standard: a one bit, zeros up to 56 modulo 64, the length in bits.\<close>

definition sha256_pad :: "string \<Rightarrow> string" where
  "sha256_pad msg =
     msg @ CHR 0x80 # replicate ((119 - length msg mod 64) mod 64) CHR 0x00 @
     be64 (word_of_nat (8 * length msg))"

definition sha256_blocks :: "string \<Rightarrow> 32 word list" where
  "sha256_blocks bs = fold sha256_compress (chunks64 bs) sha256_H0"

definition sha256_spec :: "string \<Rightarrow> string" where
  "sha256_spec msg =
     concat (map (\<lambda>w. map (\<lambda>i. b8 (drop_bit (8 * i) w)) (rev [0..<4])) (sha256_blocks (sha256_pad msg)))"

lemma chunks64_short: "length xs < 64 \<Longrightarrow> chunks64 xs = []"
  by (subst chunks64.simps) simp

lemma chunks64_block: "length b = 64 \<Longrightarrow> chunks64 (b @ xs) = b # chunks64 xs"
  by (subst chunks64.simps) simp

lemma chunks64_append: "length xs mod 64 = 0 \<Longrightarrow> chunks64 (xs @ ys) = chunks64 xs @ chunks64 ys"
proof (induction xs rule: chunks64.induct)
  case (1 xs)
  show ?case
  proof (cases "length xs < 64")
    case True
    with 1 have "xs = []" by simp
    then show ?thesis by (simp add: chunks64_short)
  next
    case False
    then have "chunks64 (drop 64 xs @ ys) = chunks64 (drop 64 xs) @ chunks64 ys"
      using 1 False le_mod_geq [of 64 "length xs"] by simp
    with False show ?thesis by (simp add: chunks64.simps [of "xs @ ys"] chunks64.simps [of xs])
  qed
qed

subsection \<open>The buffer invariant\<close>

text \<open>After the bytes \<open>bs\<close>: the full blocks are compressed, the rest stands in the buffer.\<close>

definition fed :: "string \<Rightarrow> sha256_ctx \<Rightarrow> bool" where
  "fed bs ctx \<longleftrightarrow>
     length (sc_data ctx) = 64 \<and> sc_datalen ctx = length bs mod 64 \<and>
     take (length bs mod 64) (sc_data ctx) = drop (64 * (length bs div 64)) bs \<and>
     sc_bitlen ctx = word_of_nat (512 * (length bs div 64)) \<and>
     sc_state ctx = sha256_blocks (take (64 * (length bs div 64)) bs)"

lemma fed_init: "length (sc_data ctx) = 64 \<Longrightarrow> fed [] (sha256_init ctx)"
  by (simp add: fed_def sha256_init_def sha256_blocks_def chunks64_short)

lemma take_update_last: "i < length xs \<Longrightarrow> take (Suc i) (xs[i := c]) = take i xs @ [c]"
  by (simp add: take_Suc_conv_app_nth)

lemma fed_byte:
  assumes "fed bs ctx"
  shows "fed (bs @ [c]) (sha256_byte c ctx)"
proof -
  let ?n = "length bs" and ?d = "(sc_data ctx)[length bs mod 64 := c]"
  note f = assms [unfolded fed_def]
  have split: "take (64 * (?n div 64)) bs @ drop (64 * (?n div 64)) bs = bs" by simp
  have m: "?n mod 64 < 64" by simp
  have buf: "take (Suc (?n mod 64)) ?d = drop (64 * (?n div 64)) bs @ [c]"
    using f m by (simp add: take_update_last)
  have le: "64 * (?n div 64) \<le> ?n" by simp
  show ?thesis
  proof (cases "Suc (?n mod 64) = 64")
    case True
    then have dm: "Suc ?n mod 64 = 0" "Suc ?n div 64 = Suc (?n div 64)" by (simp_all add: mod_Suc div_Suc)
    then have tot: "64 * (Suc ?n div 64) = Suc ?n" using mult_div_mod_eq [of 64 "Suc ?n"] by simp
    have d: "?d = drop (64 * (?n div 64)) bs @ [c]" using buf True f by simp
    have "length (take (64 * (?n div 64)) bs) mod 64 = 0" using le by (simp add: min_absorb2)
    then have "sha256_blocks (take (64 * (?n div 64)) bs @ ?d) =
        sha256_compress ?d (sha256_blocks (take (64 * (?n div 64)) bs))"
      using f chunks64_block [of ?d "[]"] by (simp add: sha256_blocks_def chunks64_append chunks64_short)
    moreover have "take (64 * (?n div 64)) bs @ ?d = bs @ [c]"
      unfolding d using split by (simp flip: append_assoc)
    ultimately show ?thesis
      using f True dm tot
      by (simp add: fed_def sha256_byte_def Let_def sha256_transform_def algebra_simps)
  next
    case False
    then have dm: "Suc ?n mod 64 = Suc (?n mod 64)" "Suc ?n div 64 = ?n div 64"
      by (simp_all add: mod_Suc div_Suc)
    then show ?thesis
      using f False buf le by (simp add: fed_def sha256_byte_def Let_def)
  qed
qed

lemma fed_update: "fed bs ctx \<Longrightarrow> fed (bs @ data) (sha256_update ctx data)"
  unfolding sha256_update_def
proof (induction data arbitrary: bs ctx)
  case (Cons c data)
  from Cons.IH [OF fed_byte [OF Cons.prems]] show ?case by simp
qed simp

subsection \<open>Closing the buffer\<close>

lemma fill_eq:
  assumes "i \<le> n" "n \<le> length buf"
  shows "fill buf i n = take i buf @ replicate (n - i) CHR 0x00 @ drop n buf"
  using assms
proof (induction n)
  case (Suc n)
  show ?case
  proof (cases "i = Suc n")
    case False
    with Suc have "fill buf i n = take i buf @ replicate (n - i) CHR 0x00 @ drop n buf" "i \<le> n" by auto
    moreover from this(2) have "fill buf i (Suc n) = (fill buf i n)[n := CHR 0x00]" by (simp add: fill_def)
    moreover have "drop n buf = buf ! n # drop (Suc n) buf" using Suc.prems by (simp add: Cons_nth_drop_Suc)
    ultimately show ?thesis
      using Suc.prems by (simp add: list_update_append Suc_diff_le replicate_append_same)
  qed (simp add: fill_def)
qed (simp add: fill_def)

lemma length_8E:
  assumes "length xs = 8"
  obtains a b c d e f g h where "xs = [a, b, c, d, e, f, g, h]"
  using assms by (auto simp: length_Suc_conv eval_nat_numeral)

lemma put_bitlen_eq:
  assumes "length buf = 64"
  shows "put_bitlen len buf = take 56 buf @ be64 len"
proof -
  have "buf = take 56 buf @ drop 56 buf" by simp
  moreover have "length (drop 56 buf) = 8" using assms by simp
  then obtain a b c d e f g h where "drop 56 buf = [a, b, c, d, e, f, g, h]" by (rule length_8E)
  ultimately have buf: "buf = take 56 buf @ [a, b, c, d, e, f, g, h]" by metis
  have len: "length (take 56 buf) = 56" using assms by simp
  have "put_bitlen len (xs @ [a, b, c, d, e, f, g, h]) = xs @ be64 len" if "length xs = 56" for xs
    using that by (simp add: put_bitlen_def be64_def upt_rec [of _ 8] list_update_append)
  from this [OF len] buf show ?thesis by metis
qed

lemma length_sha256_blocks [simp]: "length (sha256_blocks bs) = 8"
proof -
  have c: "length (sha256_compress data st) = 8" for data st
    by (simp add: sha256_compress_def Let_def split_beta)
  have "length (fold sha256_compress cs st) = 8" if "length st = 8" for cs st
    using that by (induction cs arbitrary: st) (simp_all add: c)
  then show ?thesis by (simp add: sha256_blocks_def sha256_H0_def)
qed

lemma digest_bytes:
  assumes "length st = 8"
  shows "map (\<lambda>n. b8 (drop_bit (24 - n mod 4 * 8) (st ! (n div 4)) AND 0xff)) [0..<32] =
         concat (map (\<lambda>w. map (\<lambda>i. b8 (drop_bit (8 * i) w)) (rev [0..<4])) (st :: 32 word list))"
proof -
  from assms obtain a b c d e f g h where "st = [a, b, c, d, e, f, g, h]" by (rule length_8E)
  then show ?thesis by (simp add: upt_rec [of _ 32] upt_rec [of _ 4] b8_mask)
qed

lemma sha256_blocks_snoc:
  assumes "length bs mod 64 = 0" "length b = 64"
  shows "sha256_blocks (bs @ b) = sha256_compress b (sha256_blocks bs)"
  using assms chunks64_block [of b "[]"] by (simp add: sha256_blocks_def chunks64_append chunks64_short)

lemma bitlen_word:
  "(word_of_nat (512 * (n div 64)) + word_of_nat (n mod 64 * 8) :: 64 word) = word_of_nat (8 * n)"
proof -
  have "512 * (n div 64) + n mod 64 * 8 = 8 * n" using mult_div_mod_eq [of 64 n] by linarith
  then show ?thesis by (metis of_nat_add)
qed

lemma length_be64 [simp]: "length (be64 v) = 8"
  by (simp add: be64_def)

text \<open>The last block, or the last two blocks when the length does not fit the first.\<close>

lemma pad_tail:
  fixes bs :: string
  defines "q \<equiv> 64 * (length bs div 64)" and "r \<equiv> length bs mod 64"
  shows "r < 56 \<Longrightarrow> sha256_pad bs = take q bs @
           (drop q bs @ CHR 0x80 # replicate (55 - r) CHR 0x00 @ be64 (word_of_nat (8 * length bs)))"
    and "\<not> r < 56 \<Longrightarrow> sha256_pad bs = (take q bs @ (drop q bs @ CHR 0x80 # replicate (63 - r) CHR 0x00)) @
           (replicate 56 CHR 0x00 @ be64 (word_of_nat (8 * length bs)))"
proof -
  have r: "r < 64" by (simp add: r_def)
  show "r < 56 \<Longrightarrow> sha256_pad bs = take q bs @
           (drop q bs @ CHR 0x80 # replicate (55 - r) CHR 0x00 @ be64 (word_of_nat (8 * length bs)))"
  proof -
    assume "r < 56"
    then have "(119 - r) mod 64 = 55 - r" by (simp add: le_mod_geq)
    then show ?thesis by (simp add: sha256_pad_def flip: r_def append_assoc)
  qed
  show "\<not> r < 56 \<Longrightarrow> sha256_pad bs = (take q bs @ (drop q bs @ CHR 0x80 # replicate (63 - r) CHR 0x00)) @
           (replicate 56 CHR 0x00 @ be64 (word_of_nat (8 * length bs)))"
  proof -
    assume "\<not> r < 56"
    then have m: "(119 - r) mod 64 = (63 - r) + 56" using r by simp
    have "take q bs @ drop q bs @ xs = bs @ xs" for xs by (simp flip: append_assoc)
    then show ?thesis
      unfolding sha256_pad_def r_def [symmetric] m replicate_add append_assoc append_Cons by simp
  qed
qed

lemma sha256_final_fed:
  assumes "fed bs ctx"
  shows "sha256_final ctx = sha256_spec bs"
proof -
  define q r where "q = 64 * (length bs div 64)" and "r = length bs mod 64"
  have r: "r < 64" by (simp add: r_def)
  have f: "length (sc_data ctx) = 64" "sc_datalen ctx = r" "take r (sc_data ctx) = drop q bs"
    "sc_bitlen ctx + word_of_nat (r * 8) = word_of_nat (8 * length bs)"
    "sc_state ctx = sha256_blocks (take q bs)"
    using assms bitlen_word [of "length bs"] unfolding fed_def q_def r_def by simp_all
  have q: "length (take q bs) mod 64 = 0" by (simp add: q_def min_absorb2)
  have lr: "length (drop q bs) = r" using arg_cong [OF f(3), of length] f(1) r by simp
  have buf: "take (Suc r) ((sc_data ctx)[r := CHR 0x80]) = drop q bs @ [CHR 0x80]"
    using take_update_last [of r "sc_data ctx" "CHR 0x80"] f r by simp
  note defs = sha256_final_def Let_def sha256_transform_def f digest_bytes sha256_spec_def
  show ?thesis
  proof (cases "r < 56")
    case True
    then have s: "56 - r = Suc (55 - r)" by simp
    have "put_bitlen (word_of_nat (8 * length bs)) (fill ((sc_data ctx)[r := CHR 0x80]) (r + 1) 56) =
        drop q bs @ CHR 0x80 # replicate (55 - r) CHR 0x00 @ be64 (word_of_nat (8 * length bs))"
      using True f(1) buf lr by (simp add: put_bitlen_eq fill_eq s)
    moreover have "sha256_blocks (sha256_pad bs) = sha256_compress
        (drop q bs @ CHR 0x80 # replicate (55 - r) CHR 0x00 @ be64 (word_of_nat (8 * length bs)))
        (sha256_blocks (take q bs))"
      using True lr sha256_blocks_snoc [OF q] pad_tail(1) [of bs] by (simp add: q_def r_def)
    ultimately show ?thesis using True length_sha256_blocks [of "sha256_pad bs"]
      by (simp add: defs del: of_nat_mult)
  next
    case False
    have fst_blk: "fill ((sc_data ctx)[r := CHR 0x80]) (r + 1) 64 = drop q bs @ CHR 0x80 # replicate (63 - r) CHR 0x00"
      using f(1) buf r by (simp add: fill_eq)
    have snd_blk: "put_bitlen (word_of_nat (8 * length bs)) (fill (drop q bs @ CHR 0x80 # replicate (63 - r) CHR 0x00) 0 56) =
        replicate 56 CHR 0x00 @ be64 (word_of_nat (8 * length bs))"
      using lr r False by (simp add: put_bitlen_eq fill_eq)
    have "sha256_blocks (sha256_pad bs) = sha256_compress (replicate 56 CHR 0x00 @ be64 (word_of_nat (8 * length bs)))
        (sha256_compress (drop q bs @ CHR 0x80 # replicate (63 - r) CHR 0x00) (sha256_blocks (take q bs)))"
      (is "_ = sha256_compress ?b2 (sha256_compress ?b1 _)")
    proof -
      have b1: "length ?b1 = 64" and b2: "length ?b2 = 64" using lr r by simp_all
      with q have q1: "length (take q bs @ ?b1) mod 64 = 0" by (simp del: length_take)
      have "sha256_pad bs = (take q bs @ ?b1) @ ?b2"
        using False pad_tail(2) [of bs] unfolding q_def r_def by blast
      then show ?thesis using sha256_blocks_snoc [OF q1 b2] sha256_blocks_snoc [OF q b1] by (simp only:)
    qed
    with fst_blk snd_blk False show ?thesis
      using length_sha256_blocks [of "sha256_pad bs"] by (simp add: defs del: of_nat_mult)
  qed
qed

subsection \<open>Properties\<close>

text \<open>
  Property C29. The incremental implementation computes the one-shot definition: whatever the
  buffer held before, initialising the context, feeding a message in two parts and closing it
  gives the hash of the whole message, for every length (the length field wraps modulo
  \<open>2 ^ 64\<close> bits).
\<close>

theorem sha256_incremental:
  assumes "length (sc_data ctx) = 64"
  shows "sha256_final (sha256_update (sha256_update (sha256_init ctx) a) b) = sha256_spec (a @ b)"
  using sha256_final_fed [OF fed_update [OF fed_update [OF fed_init [OF assms]]], of a b] by simp

theorem sha256_incremental_witness:
  "sha256_final (sha256_update (sha256_update (sha256_init
     \<lparr>sc_data = replicate 64 CHR ''x'', sc_datalen = 3, sc_bitlen = 5, sc_state = []\<rparr>) ''a'') ''bc'') =
   sha256_spec ''abc''"
  using sha256_incremental [of "\<lparr>sc_data = replicate 64 CHR ''x'', sc_datalen = 3, sc_bitlen = 5, sc_state = []\<rparr>"
      "''a''" "''bc''"] by simp

end
