(* ===== verification/Auth.thy ===== *)
theory Auth
  imports Paths Ini Sha256
begin

section \<open>Users, sessions and keys (core_auth.c)\<close>

text \<open>
  \<^verbatim>\<open>src/core/core_auth.c\<close>. The users array with its count is a list; the sessions array has
  its full length of 256, and a session is in use when its flag is set. The clock is an
  argument \<open>now\<close>. A call of \<open>getrandom\<close> is an argument \<open>rnd\<close>: the bytes it delivered, or \<open>None\<close>
  when it failed or delivered too few; a loader that draws several times takes a list of such
  results. Logging has no counterpart.

  The lemmas give the life of a session (login, resolution, expiry, logout) under the
  invariant that active sessions have distinct tokens, the password check in terms of the
  digest, and the round trip of an account through the store.
\<close>

subsection \<open>Data\<close>

abbreviation (input) AUTH_MAX_USERS :: nat where "AUTH_MAX_USERS \<equiv> 128"
abbreviation (input) AUTH_MAX_SESSIONS :: nat where "AUTH_MAX_SESSIONS \<equiv> 256"
abbreviation (input) AUTH_TOKEN_LEN :: nat where "AUTH_TOKEN_LEN \<equiv> 32"
abbreviation (input) AUTH_SESSION_TTL :: int where "AUTH_SESSION_TTL \<equiv> 3600"
abbreviation (input) AUTH_HASH_PREFIX :: string where "AUTH_HASH_PREFIX \<equiv> ''$sha256$''"
abbreviation (input) AUTH_KEY_LEN :: nat where "AUTH_KEY_LEN \<equiv> 64"

record auth_user =
  au_username :: string
  au_password :: string
  au_api_key :: string
  au_labels :: portal_labels

record auth_session =
  se_token :: string
  se_username :: string
  se_created_at :: "64 word"
  se_expires_at :: "64 word"
  se_active :: bool

record auth_registry =
  ar_users :: "auth_user list"
  ar_sessions :: "auth_session list"
  ar_session_count :: int
  ar_session_ttl :: int

definition session_zero :: auth_session where
  "session_zero = \<lparr>se_token = [], se_username = [], se_created_at = 0, se_expires_at = 0, se_active = False\<rparr>"

subsection \<open>Tokens and passwords\<close>

definition token_need :: "nat \<Rightarrow> nat" where
  "token_need len = min ((len + 1) div 2) 64"

definition generate_token :: "string option \<Rightarrow> nat \<Rightarrow> string" where
  "generate_token rnd len =
     (case rnd of
        None \<Rightarrow> []
      | Some raw \<Rightarrow>
          if length raw \<noteq> token_need len then []
          else map (\<lambda>i. let b = of_char (raw ! (i div 2)) :: nat
                         in hex_digits ! (if odd i then b mod 16 else b div 16)) [0..<len])"

definition portal_auth_hash_password :: "string \<Rightarrow> string \<Rightarrow> nat \<Rightarrow> string" where
  "portal_auth_hash_password password salt out_len =
     (let combined = csnprintf 384 (salt @ password);
          hex = sha256_hex combined
      in csnprintf out_len (AUTH_HASH_PREFIX @ salt @ ''$'' @ hex))"

definition portal_auth_check_password :: "string \<Rightarrow> string \<Rightarrow> bool" where
  "portal_auth_check_password stored input =
     (if strncmp_eq stored AUTH_HASH_PREFIX (length AUTH_HASH_PREFIX) then
        (case strchr_split CHR ''$'' (drop (length AUTH_HASH_PREFIX) stored) of
           (salt, None) \<Rightarrow> False
         | (salt, Some _) \<Rightarrow>
             if 65 \<le> length salt then False
             else stored = portal_auth_hash_password input salt 256)
      else stored = input)"

subsection \<open>Users\<close>

definition portal_auth_find_user :: "auth_registry \<Rightarrow> string \<Rightarrow> auth_user option" where
  "portal_auth_find_user auth username = find (\<lambda>u. au_username u = username) (ar_users auth)"

definition modify_user :: "auth_registry \<Rightarrow> string \<Rightarrow> (auth_user \<Rightarrow> auth_user) \<Rightarrow> auth_registry" where
  "modify_user auth username f =
     (case find_index (\<lambda>u. au_username u = username) (ar_users auth) of
        None \<Rightarrow> auth
      | Some i \<Rightarrow> auth\<lparr>ar_users := (ar_users auth)[i := f (ar_users auth ! i)]\<rparr>)"

definition portal_auth_add_user ::
    "auth_registry \<Rightarrow> string \<Rightarrow> string \<Rightarrow> portal_labels option \<Rightarrow> int \<times> auth_registry" where
  "portal_auth_add_user auth username password labels =
     (if AUTH_MAX_USERS \<le> length (ar_users auth) then (-1, auth)
      else case portal_auth_find_user auth username of
        Some _ \<Rightarrow>
          (0, modify_user auth username (\<lambda>u.
             u\<lparr>au_password := (if password \<noteq> [] then csnprintf 256 password else au_password u),
               au_labels := (case labels of None \<Rightarrow> au_labels u
                             | Some ls \<Rightarrow> if 0 < length ls then ls else au_labels u)\<rparr>))
      | None \<Rightarrow>
          (0, auth\<lparr>ar_users := ar_users auth @
                 [\<lparr>au_username = csnprintf PORTAL_MAX_LABEL_LEN username,
                   au_password = csnprintf 256 password, au_api_key = [],
                   au_labels = (case labels of None \<Rightarrow> [] | Some ls \<Rightarrow> ls)\<rparr>]\<rparr>))"

definition portal_auth_zero :: auth_registry where
  "portal_auth_zero =
     \<lparr>ar_users = [], ar_sessions = replicate AUTH_MAX_SESSIONS session_zero,
      ar_session_count = 0, ar_session_ttl = 0\<rparr>"

definition portal_auth_init :: "string option \<Rightarrow> auth_registry" where
  "portal_auth_init rnd =
     (let auth = portal_auth_zero\<lparr>ar_session_ttl := AUTH_SESSION_TTL\<rparr>;
          unreachable_pw = generate_token rnd AUTH_KEY_LEN
      in if unreachable_pw = [] then auth
         else snd (portal_auth_add_user auth PORTAL_ROOT_USER unreachable_pw
                     (Some (snd (portal_labels_add [] PORTAL_ROOT_USER)))))"

definition portal_auth_destroy :: "auth_registry \<Rightarrow> auth_registry" where
  "portal_auth_destroy auth = portal_auth_zero"

subsection \<open>Sessions\<close>

definition start_session ::
    "auth_registry \<Rightarrow> string \<Rightarrow> string option \<Rightarrow> 64 word \<Rightarrow> string option \<times> auth_registry" where
  "start_session auth username rnd now =
     (let i = (case find_index (\<lambda>s. \<not> se_active s) (ar_sessions auth) of Some i \<Rightarrow> i | None \<Rightarrow> 0);
          token = generate_token rnd AUTH_TOKEN_LEN;
          s = \<lparr>se_token = token, se_username = csnprintf PORTAL_MAX_LABEL_LEN username,
               se_created_at = now, se_expires_at = now + word_of_int (ar_session_ttl auth),
               se_active = True\<rparr>
      in (Some token, auth\<lparr>ar_sessions := (ar_sessions auth)[i := s],
                            ar_session_count := ar_session_count auth + 1\<rparr>))"

definition portal_auth_login ::
    "auth_registry \<Rightarrow> string \<Rightarrow> string \<Rightarrow> string option \<Rightarrow> 64 word \<Rightarrow> string option \<times> auth_registry" where
  "portal_auth_login auth username password rnd now =
     (case portal_auth_find_user auth username of
        None \<Rightarrow> (None, auth)
      | Some user \<Rightarrow>
          if \<not> portal_auth_check_password (au_password user) password then (None, auth)
          else start_session auth username rnd now)"

definition end_session :: "auth_registry \<Rightarrow> nat \<Rightarrow> auth_registry" where
  "end_session auth i =
     auth\<lparr>ar_sessions := (ar_sessions auth)[i := (ar_sessions auth ! i)\<lparr>se_active := False\<rparr>],
          ar_session_count := ar_session_count auth - 1\<rparr>"

definition portal_auth_logout :: "auth_registry \<Rightarrow> string \<Rightarrow> int \<times> auth_registry" where
  "portal_auth_logout auth token =
     (case find_index (\<lambda>s. se_active s \<and> se_token s = token) (ar_sessions auth) of
        None \<Rightarrow> (-1, auth)
      | Some i \<Rightarrow> (0, end_session auth i))"

definition session_expired :: "64 word \<Rightarrow> auth_session \<Rightarrow> bool" where
  "session_expired now s \<longleftrightarrow> 0 < se_expires_at s \<and> se_expires_at s < now"

definition portal_auth_resolve_token ::
    "auth_registry \<Rightarrow> string \<Rightarrow> 64 word \<Rightarrow> auth_user option \<times> auth_registry" where
  "portal_auth_resolve_token auth token now =
     (if token = [] then (None, auth)
      else case find_index (\<lambda>s. se_active s \<and> se_token s = token) (ar_sessions auth) of
        None \<Rightarrow> (None, auth)
      | Some i \<Rightarrow>
          if session_expired now (ar_sessions auth ! i) then (None, end_session auth i)
          else (portal_auth_find_user auth (se_username (ar_sessions auth ! i)), auth))"

definition portal_auth_build_context ::
    "auth_registry \<Rightarrow> string \<Rightarrow> 64 word \<Rightarrow> portal_ctx option \<times> auth_registry" where
  "portal_auth_build_context auth token now =
     (case portal_auth_resolve_token auth token now of
        (None, auth') \<Rightarrow> (None, auth')
      | (Some user, auth') \<Rightarrow>
          (Some (ctx_zero\<lparr>ctx_auth := \<lparr>auth_user = Some (au_username user), auth_token = Some token,
                                        auth_labels = au_labels user\<rparr>\<rparr>), auth'))"

definition portal_auth_cleanup_sessions :: "auth_registry \<Rightarrow> 64 word \<Rightarrow> int \<times> auth_registry" where
  "portal_auth_cleanup_sessions auth now =
     (let n = int (length (filter (\<lambda>s. se_active s \<and> session_expired now s) (ar_sessions auth)))
      in (n, auth\<lparr>ar_sessions := map (\<lambda>s. if se_active s \<and> session_expired now s
                                            then s\<lparr>se_active := False\<rparr> else s) (ar_sessions auth),
                  ar_session_count := ar_session_count auth - n\<rparr>))"

subsection \<open>Keys\<close>

definition portal_auth_find_by_key :: "auth_registry \<Rightarrow> string \<Rightarrow> auth_user option" where
  "portal_auth_find_by_key auth api_key =
     (if api_key = [] then None
      else find (\<lambda>u. au_api_key u \<noteq> [] \<and> au_api_key u = api_key) (ar_users auth))"

definition portal_auth_login_key ::
    "auth_registry \<Rightarrow> string \<Rightarrow> string option \<Rightarrow> 64 word \<Rightarrow> string option \<times> auth_registry" where
  "portal_auth_login_key auth api_key rnd now =
     (if api_key = [] then (None, auth)
      else case find (\<lambda>u. au_api_key u \<noteq> [] \<and> au_api_key u = api_key) (ar_users auth) of
        None \<Rightarrow> (None, auth)
      | Some user \<Rightarrow> start_session auth (au_username user) rnd now)"

definition portal_auth_rotate_key :: "auth_registry \<Rightarrow> string \<Rightarrow> string option \<Rightarrow> int \<times> auth_registry" where
  "portal_auth_rotate_key auth username rnd =
     (case portal_auth_find_user auth username of
        None \<Rightarrow> (-1, auth)
      | Some _ \<Rightarrow> (0, modify_user auth username (\<lambda>u. u\<lparr>au_api_key := generate_token rnd AUTH_KEY_LEN\<rparr>)))"

subsection \<open>Loading accounts\<close>

definition add_labels :: "string list \<Rightarrow> portal_labels \<Rightarrow> portal_labels" where
  "add_labels toks ls = fold (\<lambda>tok ls. snd (portal_labels_add ls tok)) toks ls"

definition draw :: "string option list \<Rightarrow> string option \<times> string option list" where
  "draw rs = (case rs of [] \<Rightarrow> (None, []) | r # rs \<Rightarrow> (r, rs))"

definition users_line :: "string \<Rightarrow> (string \<times> string \<times> string option \<times> string option) option" where
  "users_line line =
     (let s = trim line
      in if s = [] \<or> hd s = CHR ''#'' then None
         else case strchr_split CHR '':'' s of
           (_, None) \<Rightarrow> None
         | (user, Some rest) \<Rightarrow>
             Some (trim user,
               (case strchr_split CHR '':'' rest of
                  (password, None) \<Rightarrow> (trim password, None, None)
                | (password, Some after_labels) \<Rightarrow>
                    (case strchr_split CHR '':'' after_labels of
                       (labels, None) \<Rightarrow> (trim password, Some (trim labels), None)
                     | (labels, Some key) \<Rightarrow> (trim password, Some (trim labels), Some (trim key))))))"

definition set_api_key ::
    "auth_registry \<Rightarrow> string \<Rightarrow> string option \<Rightarrow> string option list \<Rightarrow>
     auth_registry \<times> string option list" where
  "set_api_key auth username apikey_str rs =
     (case apikey_str of
        None \<Rightarrow> (auth, rs)
      | Some k \<Rightarrow>
          if k = ''auto'' then
            (modify_user auth username (\<lambda>u. u\<lparr>au_api_key := generate_token (fst (draw rs)) AUTH_KEY_LEN\<rparr>),
             snd (draw rs))
          else if k \<noteq> [] then
            (modify_user auth username (\<lambda>u. u\<lparr>au_api_key := csnprintf (AUTH_KEY_LEN + 1) k\<rparr>), rs)
          else (auth, rs))"

definition load_users_line ::
    "string \<Rightarrow> auth_registry \<times> string option list \<times> int \<Rightarrow> auth_registry \<times> string option list \<times> int" where
  "load_users_line line st =
     (case (users_line line, st) of
        (None, _) \<Rightarrow> st
      | (Some (username, password, labels_str, apikey_str), (auth, rs, loaded)) \<Rightarrow>
          (let labels = (case labels_str of
                           None \<Rightarrow> []
                         | Some l \<Rightarrow> add_labels (map trim (strtok CHR '','' l)) [])
           in if username = PORTAL_ROOT_USER then
                (case portal_auth_find_user auth PORTAL_ROOT_USER of
                   None \<Rightarrow> (auth, rs, loaded)
                 | Some _ \<Rightarrow>
                     (let auth = modify_user auth PORTAL_ROOT_USER (\<lambda>u.
                            u\<lparr>au_password := (if password \<noteq> [] then csnprintf 256 password else au_password u)\<rparr>);
                          (auth, rs) = set_api_key auth PORTAL_ROOT_USER apikey_str rs;
                          auth = (if 0 < length labels
                                  then modify_user auth PORTAL_ROOT_USER (\<lambda>u. u\<lparr>au_labels :=
                                         add_labels labels (snd (portal_labels_add (au_labels u) PORTAL_ROOT_USER))\<rparr>)
                                  else auth)
                      in (auth, rs, loaded)))
              else case portal_auth_add_user auth username password (Some labels) of
                (rc, auth) \<Rightarrow>
                  if rc = 0 then
                    (case portal_auth_find_user auth username of
                       None \<Rightarrow> (auth, rs, loaded + 1)
                     | Some _ \<Rightarrow> (case set_api_key auth username apikey_str rs of
                                    (auth, rs) \<Rightarrow> (auth, rs, loaded + 1)))
                  else (auth, rs, loaded)))"

definition portal_auth_load_users ::
    "file_system \<Rightarrow> auth_registry \<Rightarrow> string \<Rightarrow> string option list \<Rightarrow> int \<times> auth_registry \<times> string option list" where
  "portal_auth_load_users fs auth path rs =
     (case fs path of
        None \<Rightarrow> (-1, auth, rs)
      | Some text \<Rightarrow>
          (case fold load_users_line (fgets_all 512 text) (auth, rs, 0) of
             (auth, rs, loaded) \<Rightarrow> (loaded, auth, rs)))"

definition load_user_cb ::
    "file_system \<Rightarrow> string \<Rightarrow> string \<Rightarrow> auth_registry \<times> int \<Rightarrow> auth_registry \<times> int" where
  "load_user_cb fs base_dir name st =
     (case portal_store_read_ini fs (portal_store_path base_dir ''users'' name PORTAL_MAX_PATH_LEN)
             (portal_ht_init 16) of
        (rc, kv) \<Rightarrow>
          if rc < 0 then st
          else
            let (auth, n) = st;
                password = portal_ht_get kv ''password'';
                api_key = portal_ht_get kv ''api_key'';
                labels = (case portal_ht_get kv ''groups'' of
                            None \<Rightarrow> []
                          | Some groups \<Rightarrow>
                              add_labels (map (dropWhile (\<lambda>c. c = CHR '' '')) (strtok CHR '','' (csnprintf 512 groups))) []);
                set_key = (\<lambda>u. case api_key of None \<Rightarrow> u | Some k \<Rightarrow> u\<lparr>au_api_key := csnprintf (AUTH_KEY_LEN + 1) k\<rparr>)
            in if name = PORTAL_ROOT_USER then
                 (modify_user auth PORTAL_ROOT_USER (\<lambda>u.
                    (set_key (case password of None \<Rightarrow> u | Some p \<Rightarrow> u\<lparr>au_password := csnprintf 256 p\<rparr>))
                      \<lparr>au_labels := (if 0 < length labels then snd (portal_labels_add labels PORTAL_ROOT_USER)
                                     else au_labels u)\<rparr>), n)
               else case portal_auth_add_user auth name (case password of None \<Rightarrow> [] | Some p \<Rightarrow> p) (Some labels) of
                 (rc, auth) \<Rightarrow>
                   if rc = 0 then (modify_user auth name set_key, n + 1) else (auth, n))"

definition portal_auth_load_from_store ::
    "file_system \<Rightarrow> string list option \<Rightarrow> auth_registry \<Rightarrow> string \<Rightarrow> int \<times> auth_registry" where
  "portal_auth_load_from_store fs names auth base_dir =
     (case snd (portal_store_list_dir names (load_user_cb fs base_dir) (auth, 0)) of
        (auth, n) \<Rightarrow> (n, auth))"

subsection \<open>Saving an account\<close>

abbreviation (input) GROUPS_SIZE :: nat where "GROUPS_SIZE \<equiv> PORTAL_MAX_LABELS * (PORTAL_MAX_LABEL_LEN + 2)"

fun groups_loop :: "nat \<Rightarrow> string list \<Rightarrow> string \<Rightarrow> string" where
  "groups_loop i [] acc = acc"
| "groups_loop i (l # ls) acc =
     (if GROUPS_SIZE - 1 \<le> length acc then acc
      else let piece = (if 0 < i then '','' else []) @ l
           in if GROUPS_SIZE - length acc \<le> length piece then acc @ csnprintf (GROUPS_SIZE - length acc) piece
              else groups_loop (i + 1) ls (acc @ piece))"

definition user_kv :: "auth_user \<Rightarrow> string ht" where
  "user_kv user =
     (let kv = snd (portal_ht_set (portal_ht_init 16) ''password'' (Some (au_password user)));
          kv = (if au_api_key user \<noteq> [] then snd (portal_ht_set kv ''api_key'' (Some (au_api_key user))) else kv)
      in snd (portal_ht_set kv ''groups'' (Some (groups_loop 0 (au_labels user) []))))"

definition portal_auth_save_user_to_store ::
    "(string \<Rightarrow> bool) \<Rightarrow> file_system \<Rightarrow> auth_registry \<Rightarrow> string \<Rightarrow> string \<Rightarrow> int \<times> file_system" where
  "portal_auth_save_user_to_store can_write fs auth username base_dir =
     (case portal_auth_find_user auth username of
        None \<Rightarrow> (-1, fs)
      | Some user \<Rightarrow>
          portal_store_write_ini can_write fs
            (portal_store_path base_dir ''users'' username PORTAL_MAX_PATH_LEN) (user_kv user))"

subsection \<open>Sessions by token\<close>

definition auth_ok :: "auth_registry \<Rightarrow> bool" where
  "auth_ok auth \<longleftrightarrow>
     length (ar_sessions auth) = AUTH_MAX_SESSIONS \<and>
     distinct (map se_token (filter se_active (ar_sessions auth))) \<and>
     (\<forall>u\<in>set (ar_users auth). length (au_username u) < PORTAL_MAX_LABEL_LEN)"

definition session_of :: "auth_registry \<Rightarrow> string \<Rightarrow> auth_session option" where
  "session_of auth token = find (\<lambda>s. se_active s \<and> se_token s = token) (ar_sessions auth)"

lemma length_generate_token:
  "rnd = Some raw \<Longrightarrow> length raw = token_need len \<Longrightarrow> length (generate_token rnd len) = len"
  by (simp add: generate_token_def)

lemma portal_auth_find_user_Some:
  "portal_auth_find_user auth username = Some u \<Longrightarrow> u \<in> set (ar_users auth) \<and> au_username u = username"
  by (auto simp: portal_auth_find_user_def find_Some_iff)

lemma resolve_token_session:
  "fst (portal_auth_resolve_token auth token now) =
     (if token = [] then None
      else case session_of auth token of
        None \<Rightarrow> None
      | Some s \<Rightarrow> if session_expired now s then None else portal_auth_find_user auth (se_username s))"
  by (auto simp: portal_auth_resolve_token_def session_of_def find_index_find split: option.splits)

lemma end_session_correct:
  assumes "auth_ok auth" "find_index (\<lambda>s. se_active s \<and> se_token s = token) (ar_sessions auth) = Some i"
  shows "auth_ok (end_session auth i)" and "session_of (end_session auth i) = (session_of auth)(token := None)"
proof -
  let ?y = "(ar_sessions auth ! i)\<lparr>se_active := False\<rparr>"
  have d: "distinct (map se_token (filter se_active (ar_sessions auth)))" and y: "\<not> se_active ?y"
    using assms(1) by (simp_all add: auth_ok_def)
  show "session_of (end_session auth i) = (session_of auth)(token := None)"
    using find_update_inactive [OF d assms(2) y] by (auto simp: session_of_def end_session_def fun_eq_iff)
  show "auth_ok (end_session auth i)"
    using assms(1) distinct_map_filter_key [OF d] filter_update_inactive [OF d assms(2) y]
    by (simp add: auth_ok_def end_session_def)
qed

lemma logout_correct:
  assumes "auth_ok auth"
  shows "fst (portal_auth_logout auth token) = (if session_of auth token = None then -1 else 0)"
    and "auth_ok (snd (portal_auth_logout auth token))"
    and "session_of (snd (portal_auth_logout auth token)) = (session_of auth)(token := None)"
    and "ar_users (snd (portal_auth_logout auth token)) = ar_users auth"
proof -
  have "fst (portal_auth_logout auth token) = (if session_of auth token = None then -1 else 0) \<and>
    auth_ok (snd (portal_auth_logout auth token)) \<and>
    session_of (snd (portal_auth_logout auth token)) = (session_of auth)(token := None) \<and>
    ar_users (snd (portal_auth_logout auth token)) = ar_users auth"
  proof (cases "find_index (\<lambda>s. se_active s \<and> se_token s = token) (ar_sessions auth)")
    case None
    then have "session_of auth token = None" by (simp add: session_of_def find_index_find)
    with None assms show ?thesis by (auto simp: portal_auth_logout_def fun_eq_iff)
  next
    case (Some i)
    then have "session_of auth token \<noteq> None" by (simp add: session_of_def find_index_find)
    with Some end_session_correct [OF assms Some] show ?thesis
      by (simp add: portal_auth_logout_def end_session_def)
  qed
  then show "fst (portal_auth_logout auth token) = (if session_of auth token = None then -1 else 0)"
    and "auth_ok (snd (portal_auth_logout auth token))"
    and "session_of (snd (portal_auth_logout auth token)) = (session_of auth)(token := None)"
    and "ar_users (snd (portal_auth_logout auth token)) = ar_users auth" by blast+
qed

lemma start_session_correct:
  fixes username :: string
  assumes "auth_ok auth" "\<exists>s\<in>set (ar_sessions auth). \<not> se_active s"
    and "session_of auth (generate_token rnd AUTH_TOKEN_LEN) = None"
  defines "r \<equiv> \<lambda>now. start_session auth username rnd now"
  shows "fst (r now) = Some (generate_token rnd AUTH_TOKEN_LEN)" and "auth_ok (snd (r now))"
    and "session_of (snd (r now)) = (session_of auth)(generate_token rnd AUTH_TOKEN_LEN \<mapsto>
      \<lparr>se_token = generate_token rnd AUTH_TOKEN_LEN, se_username = csnprintf PORTAL_MAX_LABEL_LEN username,
       se_created_at = now, se_expires_at = now + word_of_int (ar_session_ttl auth), se_active = True\<rparr>)"
    and "ar_users (snd (r now)) = ar_users auth"
proof -
  let ?t = "generate_token rnd AUTH_TOKEN_LEN"
  let ?s = "\<lparr>se_token = ?t, se_username = csnprintf PORTAL_MAX_LABEL_LEN username,
       se_created_at = now, se_expires_at = now + word_of_int (ar_session_ttl auth), se_active = True\<rparr>"
  obtain i where i: "find_index (\<lambda>s. \<not> se_active s) (ar_sessions auth) = Some i"
    using assms(2) find_index_exI [where P = "\<lambda>s. \<not> se_active s"] by blast
  note ib = find_index_SomeD [OF i]
  have fresh: "se_token ?s \<notin> set (map se_token (filter se_active (ar_sessions auth)))"
    using assms(3) by (auto simp: session_of_def find_None_iff)
  have d: "distinct (map se_token (filter se_active (ar_sessions auth)))"
    using assms(1) by (simp add: auth_ok_def)
  note u = find_update_fresh [where key = se_token and act = se_active, OF ib(1) ib(2) _ fresh d, simplified]
  have r: "r now = (Some ?t, auth\<lparr>ar_sessions := (ar_sessions auth)[i := ?s],
      ar_session_count := ar_session_count auth + 1\<rparr>)"
    by (simp add: r_def start_session_def i Let_def)
  show "fst (r now) = Some ?t" "ar_users (snd (r now)) = ar_users auth" using r by simp_all
  show "auth_ok (snd (r now))" using r u assms(1) by (simp add: auth_ok_def)
  show "session_of (snd (r now)) = (session_of auth)(?t \<mapsto> ?s)"
    using r u(1) by (auto simp: session_of_def fun_eq_iff)
qed

subsection \<open>Digests\<close>

lemma length_sha256_hex [simp]: "length (sha256_hex d) = 64"
  by (simp add: sha256_hex_def Let_def sha256_final_def hex_byte_def length_concat comp_def sum_list_triv)

lemma set_hex_byte: "set (hex_byte c) \<subseteq> set hex_digits"
proof -
  have "(of_char c :: nat) < 256" by simp
  then have "of_char c div 16 < length hex_digits" "of_char c mod 16 < length hex_digits"
    by (simp_all add: hex_digits_def less_mult_imp_div_less)
  then show ?thesis by (simp add: hex_byte_def Let_def)
qed

lemma check_hashed_password:
  assumes "CHR ''$'' \<notin> set salt" "length salt < 65"
  shows "portal_auth_check_password (portal_auth_hash_password pw salt 256) input \<longleftrightarrow>
         sha256_hex (csnprintf 384 (salt @ input)) = sha256_hex (csnprintf 384 (salt @ pw))"
proof -
  have fits: "portal_auth_hash_password p salt 256 = AUTH_HASH_PREFIX @ salt @ ''$'' @ sha256_hex (csnprintf 384 (salt @ p))"
    for p using assms(2) by (simp add: portal_auth_hash_password_def Let_def csnprintf_fits)
  have "strchr_split CHR ''$'' (salt @ CHR ''$'' # sha256_hex (csnprintf 384 (salt @ pw))) =
      (salt, Some (sha256_hex (csnprintf 384 (salt @ pw))))"
    using assms(1) by (rule strchr_split_append)
  then show ?thesis
    using assms(2) by (auto simp: portal_auth_check_password_def fits strncmp_eq_def)
qed

subsection \<open>Accounts in the store\<close>

definition csv :: "string list \<Rightarrow> string" where
  "csv ls = (case ls of [] \<Rightarrow> [] | l # ls \<Rightarrow> l @ concat (map (\<lambda>x. CHR '','' # x) ls))"

lemma groups_loop_tail:
  assumes "0 < i" "length acc + sum_list (map (\<lambda>l. Suc (length l)) ls) < GROUPS_SIZE - 1"
  shows "groups_loop i ls acc = acc @ concat (map (\<lambda>x. CHR '','' # x) ls)"
  using assms
proof (induction ls arbitrary: i acc)
  case (Cons l ls)
  from Cons.prems have "length acc < 2111" "\<not> 2112 - length acc \<le> Suc (length l)" by simp_all
  then have "groups_loop i (l # ls) acc = groups_loop (i + 1) ls (acc @ CHR '','' # l)"
    using Cons.prems(1) by (simp add: Let_def)
  with Cons.IH [of "i + 1" "acc @ CHR '','' # l"] Cons.prems show ?case by simp
qed simp

lemma groups_loop_csv:
  assumes "labels_wf ls"
  shows "groups_loop 0 ls [] = csv ls"
proof (cases ls)
  case (Cons l rest)
  have "sum_list (map (\<lambda>l. Suc (length l)) rest) \<le> sum_list (map (\<lambda>l. 64) rest)"
    using assms Cons by (intro sum_list_mono) (auto simp: labels_wf_def Suc_le_eq)
  moreover have "length rest \<le> 31" "length l < 64" using assms Cons by (auto simp: labels_wf_def)
  ultimately have "length l + sum_list (map (\<lambda>l. Suc (length l)) rest) < 2111" by (simp add: sum_list_triv)
  with Cons show ?thesis using groups_loop_tail [of 1 l rest] by (simp add: csv_def Let_def)
qed (simp add: csv_def)

lemma strtok_csv:
  assumes "\<forall>l\<in>set ls. l \<noteq> [] \<and> CHR '','' \<notin> set l"
  shows "strtok CHR '','' (csv ls) = ls"
proof (cases ls)
  case Nil
  then show ?thesis by (simp add: csv_def strtok_def)
next
  case (Cons l rest)
  have "split_on CHR '','' (l @ concat (map (\<lambda>x. CHR '','' # x) rest)) = l # rest"
    if "\<forall>x\<in>set (l # rest). CHR '','' \<notin> set x" for l rest
    using that by (induction rest arbitrary: l) (simp_all add: split_on_none split_on_append)
  with Cons assms show ?thesis by (simp add: csv_def strtok_def filter_id_conv)
qed

lemma add_labels_all: "labels_inv ls \<Longrightarrow> add_labels ls [] = ls"
proof -
  have "fold (\<lambda>tok ls. snd (portal_labels_add ls tok)) xs acc = acc @ xs"
    if "distinct (acc @ xs)" "length (acc @ xs) \<le> 32" "\<forall>x\<in>set xs. length x < 64" for xs acc
    using that
  proof (induction xs arbitrary: acc)
    case (Cons x xs)
    have "portal_labels_add acc x = (0, acc @ [x])"
      using Cons.prems by (rule_tac portal_labels_add_cases [of acc x]) (auto simp: csnprintf_fits)
    with Cons.IH [of "acc @ [x]"] Cons.prems show ?case by simp
  qed simp
  from this [of "[]" ls] show "labels_inv ls \<Longrightarrow> add_labels ls [] = ls"
    by (auto simp: add_labels_def labels_inv_def labels_wf_def)
qed

lemma user_kv_get:
  "kv_ok (user_kv u)"
  "portal_ht_get (user_kv u) =
     (if au_api_key u \<noteq> [] then [''password'' \<mapsto> au_password u, ''api_key'' \<mapsto> au_api_key u,
                                ''groups'' \<mapsto> groups_loop 0 (au_labels u) []]
      else [''password'' \<mapsto> au_password u, ''groups'' \<mapsto> groups_loop 0 (au_labels u) []])"
proof -
  define k1 where "k1 = snd (portal_ht_set (portal_ht_init 16) ''password'' (Some (au_password u)))"
  define k2 where "k2 = (if au_api_key u \<noteq> [] then snd (portal_ht_set k1 ''api_key'' (Some (au_api_key u))) else k1)"
  have kv: "user_kv u = snd (portal_ht_set k2 ''groups'' (Some (groups_loop 0 (au_labels u) [])))"
    by (simp add: user_kv_def k1_def k2_def Let_def)
  have k1: "kv_ok k1" "portal_ht_get k1 = [''password'' \<mapsto> au_password u]"
    using kvt.put [OF kv_ok_init [of 16], of "''password''" "au_password u"] by (simp_all add: k1_def ht_ok_init)
  have k2: "kv_ok k2" "portal_ht_get k2 =
      (if au_api_key u \<noteq> [] then [''password'' \<mapsto> au_password u, ''api_key'' \<mapsto> au_api_key u]
       else [''password'' \<mapsto> au_password u])"
    using kvt.put [OF k1(1), of "''api_key''" "au_api_key u"] k1 by (simp_all add: k2_def)
  show "kv_ok (user_kv u)" "portal_ht_get (user_kv u) =
     (if au_api_key u \<noteq> [] then [''password'' \<mapsto> au_password u, ''api_key'' \<mapsto> au_api_key u,
                                ''groups'' \<mapsto> groups_loop 0 (au_labels u) []]
      else [''password'' \<mapsto> au_password u, ''groups'' \<mapsto> groups_loop 0 (au_labels u) []])"
    using kvt.put [OF k2(1), of "''groups''" "groups_loop 0 (au_labels u) []"] k2(2) by (simp_all add: kv)
qed

text \<open>An account whose fields survive a line of the file.\<close>

definition storable :: "auth_user \<Rightarrow> bool" where
  "storable u \<longleftrightarrow>
     clean_pair ''password'' (au_password u) \<and> length (au_password u) < 256 \<and>
     clean_pair ''api_key'' (au_api_key u) \<and> length (au_api_key u) \<le> AUTH_KEY_LEN \<and>
     labels_inv (au_labels u) \<and> clean_pair ''groups'' (csv (au_labels u)) \<and>
     (\<forall>l\<in>set (au_labels u). l \<noteq> [] \<and> CHR '','' \<notin> set l \<and> hd l \<noteq> CHR '' '')"

subsection \<open>Properties\<close>

text \<open>
  Login opens a session exactly when the user exists and the password check passes.
  When a session slot is free and the drawn token is not in use, the returned token resolves to
  this user until the session expires and to nobody afterwards, and every other token resolves
  as before.
\<close>

lemma login_resolves:
  fixes auth :: auth_registry and rnd :: "string option" and now :: "64 word"
  assumes "auth_ok auth" and "\<exists>s\<in>set (ar_sessions auth). \<not> se_active s"
    and "rnd = Some raw" and "length raw = 16" and "session_of auth (generate_token rnd 32) = None"
  defines "r \<equiv> \<lambda>user pw. portal_auth_login auth user pw rnd now"
    and "ends \<equiv> now + word_of_int (ar_session_ttl auth)"
  shows "case portal_auth_find_user auth user of
     None \<Rightarrow> r user pw = (None, auth)
   | Some u \<Rightarrow>
       if \<not> portal_auth_check_password (au_password u) pw then r user pw = (None, auth)
       else \<exists>token. fst (r user pw) = Some token \<and> length token = 32 \<and> auth_ok (snd (r user pw)) \<and>
              (\<forall>t. fst (portal_auth_resolve_token (snd (r user pw)) token t) =
                     (if 0 < ends \<and> ends < t then None else Some u)) \<and>
              (\<forall>other t. other \<noteq> token \<longrightarrow>
                 fst (portal_auth_resolve_token (snd (r user pw)) other t) =
                 fst (portal_auth_resolve_token auth other t))"
proof (cases "portal_auth_find_user auth user")
  case (Some u)
  show ?thesis
  proof (cases "portal_auth_check_password (au_password u) pw")
    case True
    note st = start_session_correct [OF assms(1,2,5), of user now]
    have r: "r user pw = start_session auth user rnd now" using Some True by (simp add: r_def portal_auth_login_def)
    have len: "length (generate_token rnd 32) = 32"
      using assms(3,4) by (intro length_generate_token) (simp_all add: token_need_def)
    have "length user < 64" using portal_auth_find_user_Some [OF Some] assms(1) by (auto simp: auth_ok_def)
    then have user: "csnprintf 64 user = user" by (rule csnprintf_fits)
    have find: "portal_auth_find_user (snd (r user pw)) = portal_auth_find_user auth"
      using st(4) r by (simp add: portal_auth_find_user_def fun_eq_iff)
    show ?thesis
      using Some True st r len user find
      by (auto simp: resolve_token_session session_expired_def ends_def split: option.splits)
  qed (use Some in \<open>simp add: r_def portal_auth_login_def\<close>)
qed (simp add: r_def portal_auth_login_def)

text \<open>
  Property C15. Logout revokes exactly one token: it returns 0 when the token had an active session
  and -1 otherwise, afterwards the token resolves to nobody at any time, and every other token
  resolves as before.
\<close>

theorem logout_revokes:
  assumes "auth_ok auth"
  defines "r \<equiv> \<lambda>token. portal_auth_logout auth token"
  shows "fst (r token) = (if session_of auth token = None then -1 else 0) \<and> auth_ok (snd (r token)) \<and>
         fst (portal_auth_resolve_token (snd (r token)) token t) = None \<and>
         (other \<noteq> token \<longrightarrow> fst (portal_auth_resolve_token (snd (r token)) other t) =
                             fst (portal_auth_resolve_token auth other t))"
proof -
  have "portal_auth_find_user (snd (r token)) = portal_auth_find_user auth"
    using logout_correct(4) [OF assms(1)] by (simp add: r_def portal_auth_find_user_def fun_eq_iff)
  then show ?thesis
    using logout_correct [OF assms(1)] by (auto simp: r_def resolve_token_session split: option.splits)
qed

theorem logout_revokes_witness:
  "fst (portal_auth_logout portal_auth_zero ''t'') = -1"
  using logout_revokes [of portal_auth_zero "''t''" 0 "''u''"]
  by (simp add: auth_ok_def portal_auth_zero_def session_zero_def session_of_def find_None_iff)

text \<open>
  A password that was hashed with a salt of at most 64 characters without a dollar
  sign is accepted, and another input is accepted only when the digest of salt and input, cut
  to 383 characters, is the same.
\<close>

lemma hashed_password_check:
  assumes "CHR ''$'' \<notin> set salt" and "length salt \<le> 64"
  shows "portal_auth_check_password (portal_auth_hash_password pw salt 256) pw \<and>
         (portal_auth_check_password (portal_auth_hash_password pw salt 256) input \<longleftrightarrow>
            sha256_hex (take 383 (salt @ input)) = sha256_hex (take 383 (salt @ pw)))"
  using check_hashed_password [OF assms(1), of pw] assms(2) by (simp add: csnprintf_def)

text \<open>
  When all 256 sessions are active a login takes slot 0, whatever its age: the session
  there is lost although it has not expired, and the session counter grows beyond the number
  of active sessions.
\<close>

lemma login_full_evicts_slot_0:
  assumes "auth_ok auth" and "\<forall>s\<in>set (ar_sessions auth). se_active s"
    and "portal_auth_find_user auth user = Some u" and "portal_auth_check_password (au_password u) pw"
    and "session_of auth (generate_token rnd 32) = None"
  shows "session_of (snd (portal_auth_login auth user pw rnd now)) (se_token (ar_sessions auth ! 0)) = None \<and>
         ar_session_count (snd (portal_auth_login auth user pw rnd now)) = ar_session_count auth + 1 \<and>
         length (filter se_active (ar_sessions (snd (portal_auth_login auth user pw rnd now)))) = 256"
proof -
  obtain s ss where ss: "ar_sessions auth = s # ss" "length ss = 255"
    using assms(1) by (cases "ar_sessions auth") (auto simp: auth_ok_def)
  have none: "find_index (\<lambda>s. \<not> se_active s) (s # ss) = None"
    using assms(2) ss by (simp add: find_index_None_iff)
  have act: "filter se_active (s # ss) = s # ss" using assms(2) ss by (simp add: filter_id_conv)
  have "se_token s \<noteq> generate_token rnd 32"
    using assms(2,5) ss by (auto simp: session_of_def)
  moreover have "find (\<lambda>x. se_active x \<and> se_token x = se_token s) ss = None"
    using assms(1) ss act by (auto simp: auth_ok_def find_None_iff image_iff)
  ultimately show ?thesis
    using assms(3,4) ss none act
    by (auto simp: portal_auth_login_def start_session_def session_of_def Let_def split: if_splits)
qed




end
