(* ===== verification/Locks.thy ===== *)
theory Locks
  imports Prelude
begin

section \<open>Exclusive resource locks (portal_instance.c)\<close>

text \<open>
  The lock table of \<^verbatim>\<open>src/core/portal_instance.c\<close>: an array of 64 slots and a counter. The
  search \<open>find_lock\<close> looks at the first \<open>lock_count\<close> slots only, while a lock takes the first
  inactive slot of the whole array, so the model keeps the array at its full length and the
  counter beside it. Times are seconds of \<open>time(NULL)\<close>, an argument \<open>now\<close>.

  The lemmas give the exact behaviour of every operation on a table without holes, the
  invariant of all reachable tables, and the sequence of calls that breaks exclusion.
\<close>

subsection \<open>Data and operations\<close>

abbreviation (input) LOCK_MAX :: nat where "LOCK_MAX \<equiv> 64"
abbreviation (input) LOCK_TIMEOUT_SEC :: int where "LOCK_TIMEOUT_SEC \<equiv> 60"

record resource_lock =
  lk_resource :: string
  lk_owner :: string
  lk_locked_at :: int
  lk_last_keepalive :: int
  lk_active :: bool

record lock_table =
  lt_locks :: "resource_lock list"
  lt_count :: int

definition lock_zero :: resource_lock where
  "lock_zero = \<lparr>lk_resource = [], lk_owner = [], lk_locked_at = 0, lk_last_keepalive = 0, lk_active = False\<rparr>"

definition locks_init :: lock_table where
  "locks_init = \<lparr>lt_locks = replicate LOCK_MAX lock_zero, lt_count = 0\<rparr>"

definition find_lock :: "lock_table \<Rightarrow> string \<Rightarrow> nat option" where
  "find_lock lt resource =
     find_index (\<lambda>l. lk_active l \<and> lk_resource l = resource) (take (nat (lt_count lt)) (lt_locks lt))"

definition api_resource_lock :: "lock_table \<Rightarrow> string \<Rightarrow> string \<Rightarrow> int \<Rightarrow> int \<times> lock_table" where
  "api_resource_lock lt resource owner now =
     (case find_lock lt resource of
        Some _ \<Rightarrow> (-1, lt)
      | None \<Rightarrow>
          if int LOCK_MAX \<le> lt_count lt then (-1, lt)
          else case find_index (\<lambda>l. \<not> lk_active l) (lt_locks lt) of
            None \<Rightarrow> (-1, lt)
          | Some i \<Rightarrow>
              (0, lt\<lparr>lt_locks := (lt_locks lt)[i :=
                       \<lparr>lk_resource = csnprintf PORTAL_MAX_PATH_LEN resource, lk_owner = csnprintf 128 owner,
                        lk_locked_at = now, lk_last_keepalive = now, lk_active = True\<rparr>],
                     lt_count := lt_count lt + 1\<rparr>))"

definition api_resource_unlock :: "lock_table \<Rightarrow> string \<Rightarrow> string \<Rightarrow> int \<times> lock_table" where
  "api_resource_unlock lt resource owner =
     (case find_lock lt resource of
        None \<Rightarrow> (-1, lt)
      | Some i \<Rightarrow>
          if lk_owner (lt_locks lt ! i) \<noteq> owner then (-2, lt)
          else (0, lt\<lparr>lt_locks := (lt_locks lt)[i := (lt_locks lt ! i)\<lparr>lk_active := False\<rparr>],
                      lt_count := lt_count lt - 1\<rparr>))"

definition api_resource_keepalive :: "lock_table \<Rightarrow> string \<Rightarrow> string \<Rightarrow> int \<Rightarrow> int \<times> lock_table" where
  "api_resource_keepalive lt resource owner now =
     (case find_lock lt resource of
        None \<Rightarrow> (-1, lt)
      | Some i \<Rightarrow>
          if lk_owner (lt_locks lt ! i) \<noteq> owner then (-1, lt)
          else (0, lt\<lparr>lt_locks := (lt_locks lt)[i := (lt_locks lt ! i)\<lparr>lk_last_keepalive := now\<rparr>]\<rparr>))"

definition api_resource_locked :: "lock_table \<Rightarrow> string \<Rightarrow> int" where
  "api_resource_locked lt resource = (if find_lock lt resource \<noteq> None then 1 else 0)"

definition api_resource_owner :: "lock_table \<Rightarrow> string \<Rightarrow> string option" where
  "api_resource_owner lt resource = map_option (\<lambda>i. lk_owner (lt_locks lt ! i)) (find_lock lt resource)"

definition lock_expired :: "int \<Rightarrow> resource_lock \<Rightarrow> bool" where
  "lock_expired now l \<longleftrightarrow> lk_active l \<and> LOCK_TIMEOUT_SEC < now - lk_last_keepalive l"

definition lock_cleanup :: "lock_table \<Rightarrow> int \<Rightarrow> lock_table" where
  "lock_cleanup lt now =
     lt\<lparr>lt_locks := map (\<lambda>l. if lock_expired now l then l\<lparr>lk_active := False\<rparr> else l) (lt_locks lt),
        lt_count := lt_count lt - int (length (filter (lock_expired now) (lt_locks lt)))\<rparr>"

subsection \<open>Reachable tables\<close>

text \<open>The steps a running instance makes on the table, in any order and with any arguments.\<close>

inductive lock_step :: "lock_table \<Rightarrow> lock_table \<Rightarrow> bool" where
  lock: "lock_step lt (snd (api_resource_lock lt resource owner now))"
| unlock: "lock_step lt (snd (api_resource_unlock lt resource owner))"
| keepalive: "lock_step lt (snd (api_resource_keepalive lt resource owner now))"
| cleanup: "lock_step lt (lock_cleanup lt now)"

inductive lock_reach :: "lock_table \<Rightarrow> bool" where
  init: "lock_reach locks_init"
| step: "lock_reach lt \<Longrightarrow> lock_step lt lt' \<Longrightarrow> lock_reach lt'"

definition locks_ok :: "lock_table \<Rightarrow> bool" where
  "locks_ok lt \<longleftrightarrow>
     length (lt_locks lt) = LOCK_MAX \<and> lt_count lt = int (length (filter lk_active (lt_locks lt)))"

text \<open>A table without holes: the active slots are the first ones, one per resource.\<close>

definition locks_dense :: "lock_table \<Rightarrow> bool" where
  "locks_dense lt \<longleftrightarrow>
     (\<forall>i<length (lt_locks lt). lk_active (lt_locks lt ! i) \<longleftrightarrow> int i < lt_count lt) \<and>
     distinct (map lk_resource (filter lk_active (lt_locks lt)))"

definition holder :: "lock_table \<Rightarrow> string \<Rightarrow> resource_lock option" where
  "holder lt resource = find (\<lambda>l. lk_active l \<and> lk_resource l = resource) (lt_locks lt)"

lemma length_filter_update:
  "i < length xs \<Longrightarrow>
   int (length (filter P (xs[i := y]))) =
     int (length (filter P xs)) - (if P (xs ! i) then 1 else 0) + (if P y then 1 else 0)"
proof (induction xs arbitrary: i)
  case (Cons x xs)
  show ?case
  proof (cases i)
    case (Suc j)
    with Cons.IH [of j] Cons.prems show ?thesis by (simp split: if_splits)
  qed auto
qed simp

lemma find_lock_SomeD:
  "find_lock lt r = Some i \<Longrightarrow> i < length (lt_locks lt) \<and> lk_active (lt_locks lt ! i) \<and> lk_resource (lt_locks lt ! i) = r"
  by (auto simp: find_lock_def find_index_Some_iff)

lemma locks_ok_init: "locks_ok locks_init"
  by (simp add: locks_ok_def locks_init_def lock_zero_def)

lemma locks_ok_lock: "locks_ok lt \<Longrightarrow> locks_ok (snd (api_resource_lock lt r w now))"
  by (auto simp: api_resource_lock_def locks_ok_def length_filter_update find_index_Some_iff split: option.splits)

lemma locks_ok_unlock: "locks_ok lt \<Longrightarrow> locks_ok (snd (api_resource_unlock lt r w))"
  using find_lock_SomeD [of lt r]
  by (auto simp: api_resource_unlock_def locks_ok_def length_filter_update split: option.splits)

lemma locks_ok_keepalive: "locks_ok lt \<Longrightarrow> locks_ok (snd (api_resource_keepalive lt r w now))"
  using find_lock_SomeD [of lt r]
  by (auto simp: api_resource_keepalive_def locks_ok_def length_filter_update split: option.splits)

lemma length_filter_cleared:
  "int (length (filter lk_active (map (\<lambda>l. if lock_expired now l then l\<lparr>lk_active := False\<rparr> else l) xs))) =
   int (length (filter lk_active xs)) - int (length (filter (lock_expired now) xs))"
  by (induction xs) (auto simp: lock_expired_def)

lemma locks_ok_cleanup: "locks_ok lt \<Longrightarrow> locks_ok (lock_cleanup lt now)"
  by (simp add: locks_ok_def lock_cleanup_def length_filter_cleared del: length_filter_map)

lemmas locks_ok_ops = locks_ok_lock locks_ok_unlock locks_ok_keepalive locks_ok_cleanup

lemma lock_reach_ok: "lock_reach lt \<Longrightarrow> locks_ok lt"
  by (induction rule: lock_reach.induct) (auto simp: locks_ok_init locks_ok_ops elim: lock_step.cases)


subsection \<open>Tables without holes\<close>

definition owners :: "lock_table \<Rightarrow> string \<Rightarrow> string option" where
  "owners lt resource = map_option lk_owner (holder lt resource)"

lemma find_index_take:
  "\<forall>x\<in>set (drop n xs). \<not> P x \<Longrightarrow> find_index P (take n xs) = find_index P xs"
  using find_index_append [of P "take n xs" "drop n xs"]
  by (auto simp: find_index_None_iff [THEN iffD2] split: option.splits)

lemma find_lock_dense:
  assumes "locks_dense lt"
  shows "find_lock lt r = find_index (\<lambda>l. lk_active l \<and> lk_resource l = r) (lt_locks lt)"
proof -
  have "\<not> lk_active x" if "x \<in> set (drop (nat (lt_count lt)) (lt_locks lt))" for x
    using that assms unfolding locks_dense_def in_set_conv_nth by (auto split: if_splits)
  then show ?thesis unfolding find_lock_def by (intro find_index_take) blast
qed

lemma find_lock_dense_holder:
  "locks_dense lt \<Longrightarrow> holder lt r = map_option ((!) (lt_locks lt)) (find_lock lt r)"
  by (simp add: find_lock_dense holder_def find_index_find)

lemma owner_dense: "locks_dense lt \<Longrightarrow> api_resource_owner lt r = owners lt r"
  by (simp add: api_resource_owner_def owners_def find_lock_dense_holder option.map_comp comp_def)

lemma first_free_dense:
  assumes "locks_ok lt" "locks_dense lt" "lt_count lt < 64"
  shows "find_index (\<lambda>l. \<not> lk_active l) (lt_locks lt) = Some (nat (lt_count lt))"
  using assms by (auto simp: find_index_Some_iff locks_ok_def locks_dense_def)

lemma lock_dense:
  assumes "locks_ok lt" "locks_dense lt" "holder lt r = None" "lt_count lt < 64" "length r < 1024" "length w < 128"
  shows "fst (api_resource_lock lt r w now) = 0"
    and "locks_dense (snd (api_resource_lock lt r w now))"
    and "owners (snd (api_resource_lock lt r w now)) = (owners lt)(r \<mapsto> w)"
proof -
  let ?i = "nat (lt_count lt)"
  let ?l = "\<lparr>lk_resource = r, lk_owner = w, lk_locked_at = now, lk_last_keepalive = now, lk_active = True\<rparr>"
  have fl: "find_lock lt r = None" using assms(2,3) by (simp add: find_lock_dense_holder)
  have len: "?i < length (lt_locks lt)" "0 \<le> lt_count lt" using assms(1,4) by (auto simp: locks_ok_def)
  have na: "\<not> lk_active (lt_locks lt ! ?i)" using assms(2) len by (simp add: locks_dense_def)
  have fresh: "lk_resource ?l \<notin> set (map lk_resource (filter lk_active (lt_locks lt)))"
    using assms(3) by (auto simp: holder_def find_None_iff)
  have d: "distinct (map lk_resource (filter lk_active (lt_locks lt)))" using assms(2) by (simp add: locks_dense_def)
  have upd: "api_resource_lock lt r w now = (0, lt\<lparr>lt_locks := (lt_locks lt)[?i := ?l], lt_count := lt_count lt + 1\<rparr>)"
    using fl assms(4-6) first_free_dense [OF assms(1,2,4)] by (simp add: api_resource_lock_def csnprintf_fits)
  note f = find_update_fresh [OF len(1) na _ fresh d]
  show "fst (api_resource_lock lt r w now) = 0" by (simp add: upd)
  show "owners (snd (api_resource_lock lt r w now)) = (owners lt)(r \<mapsto> w)"
    using f(1) by (auto simp: upd owners_def holder_def fun_eq_iff)
  have "lk_active ((lt_locks lt)[?i := ?l] ! j) \<longleftrightarrow> int j < lt_count lt + 1" if "j < length (lt_locks lt)" for j
    using that assms(2) len by (cases "j = ?i") (auto simp: locks_dense_def)
  with f(2) show "locks_dense (snd (api_resource_lock lt r w now))" by (simp add: upd locks_dense_def)
qed

lemma unlock_dense:
  assumes "locks_dense lt" "owners lt r = Some w"
  shows "fst (api_resource_unlock lt r w) = 0"
    and "owners (snd (api_resource_unlock lt r w)) = (owners lt)(r := None)"
proof -
  obtain i where i: "find_lock lt r = Some i" "lk_owner (lt_locks lt ! i) = w"
    using assms by (auto simp: owners_def find_lock_dense_holder)
  have d: "distinct (map lk_resource (filter lk_active (lt_locks lt)))" using assms(1) by (simp add: locks_dense_def)
  have "find_index (\<lambda>l. lk_active l \<and> lk_resource l = r) (lt_locks lt) = Some i"
    using i(1) assms(1) by (simp add: find_lock_dense)
  from find_update_inactive [OF d this, of "(lt_locks lt ! i)\<lparr>lk_active := False\<rparr>"]
  show "owners (snd (api_resource_unlock lt r w)) = (owners lt)(r := None)"
    using i by (auto simp: api_resource_unlock_def owners_def holder_def fun_eq_iff)
  show "fst (api_resource_unlock lt r w) = 0" using i by (simp add: api_resource_unlock_def)
qed

subsection \<open>Properties\<close>



text \<open>
  In every table that any sequence of lock, unlock, keepalive and cleanup calls can
  produce, the counter is the number of active slots and lies between 0 and 64, so the search
  loop and the slot loop stay inside the array, and cleanup leaves no expired lock.
\<close>

lemma lock_count_reachable:
  assumes "lock_reach lt"
  shows "length (lt_locks lt) = 64 \<and> 0 \<le> lt_count lt \<and> lt_count lt \<le> 64 \<and>
         lt_count lt = int (length (filter lk_active (lt_locks lt))) \<and>
         filter (lock_expired now) (lt_locks (lock_cleanup lt now)) = []"
  using lock_reach_ok [OF assms] length_filter_le [of lk_active "lt_locks lt"]
  by (auto simp: locks_ok_def lock_cleanup_def lock_expired_def filter_empty_conv)

text \<open>
  Exclusion is lost once a lock is released that is not the last one: after locking
  two resources and releasing the first, the second is reported free although its lock is
  active, its owner can no longer release it, and another owner obtains a second active lock
  on it.
\<close>

lemma lock_hole_breaks_exclusion:
  fixes t1 t2 t3 :: int
  assumes "a \<noteq> b" and "length a < 1024" and "length b < 1024" and "length x < 128" and "length y < 128" and "length z < 128"
  defines "lt \<equiv> snd (api_resource_unlock (snd (api_resource_lock (snd (api_resource_lock locks_init a x t1)) b y t2)) a x)"
  shows "lock_reach lt \<and> owners lt b = Some y \<and> api_resource_locked lt b = 0 \<and> fst (api_resource_unlock lt b y) = -1 \<and>
         fst (api_resource_lock lt b z t3) = 0 \<and>
         map lk_owner (filter (\<lambda>l. lk_active l \<and> lk_resource l = b) (lt_locks (snd (api_resource_lock lt b z t3)))) = [z, y]"
proof -
  have rep: "replicate 64 lock_zero = lock_zero # lock_zero # replicate 62 lock_zero"
    by (simp flip: replicate_Suc)
  let ?l = "\<lambda>r w t. \<lparr>lk_resource = r, lk_owner = w, lk_locked_at = t, lk_last_keepalive = t, lk_active = True\<rparr>"
  have 1: "snd (api_resource_lock locks_init a x t1) =
      \<lparr>lt_locks = ?l a x t1 # lock_zero # replicate 62 lock_zero, lt_count = 1\<rparr>"
    using assms(2,4) by (simp add: api_resource_lock_def locks_init_def rep find_lock_def csnprintf_fits) (simp add: lock_zero_def)
  have 2: "snd (api_resource_lock \<dots> b y t2) =
      \<lparr>lt_locks = ?l a x t1 # ?l b y t2 # replicate 62 lock_zero, lt_count = 2\<rparr>"
    using assms(1,3,5) by (simp add: api_resource_lock_def find_lock_def csnprintf_fits lock_zero_def)
  have 3: "lt = \<lparr>lt_locks = (?l a x t1)\<lparr>lk_active := False\<rparr> # ?l b y t2 # replicate 62 lock_zero, lt_count = 1\<rparr>"
    using assms(1) by (simp add: lt_def 1 2 api_resource_unlock_def find_lock_def)
  have "lock_reach lt" unfolding lt_def
    by (intro lock_reach.step [OF _ lock_step.unlock] lock_reach.step [OF _ lock_step.lock] lock_reach.init)
  then show ?thesis
    using assms(1,3,6) by (simp add: 3 owners_def holder_def api_resource_locked_def find_lock_def api_resource_unlock_def
        api_resource_lock_def csnprintf_fits lock_zero_def)
qed

end
