(* ===== verification/Storage.thy ===== *)
theory Storage
  imports Registry
begin

section \<open>Storage providers (core_storage.c)\<close>

text \<open>
  \<^verbatim>\<open>src/core/core_storage.c\<close>. The array of provider pointers with its count is a list. A
  provider is a table of function pointers into a loaded module; the model keeps its name and
  which of the pointers that the core uses are set. A call through a pointer is recorded as a
  \<open>storage_call\<close>, in the order of the calls; what the module answers is an argument of the
  operations that look at the answer (\<open>config_get\<close>).
\<close>

subsection \<open>Data and operations\<close>

abbreviation (input) STORAGE_MAX_PROVIDERS :: nat where "STORAGE_MAX_PROVIDERS \<equiv> 8"

record storage_provider =
  sp_name :: string
  sp_user_save :: bool
  sp_group_save :: bool
  sp_config_get :: bool
  sp_config_set :: bool
  sp_status :: bool

type_synonym storage_registry = "storage_provider list"

datatype storage_call =
    User_save string string string string string
  | Group_save string string string string
  | Config_set string string string string

definition portal_storage_init :: storage_registry where
  "portal_storage_init = []"

definition portal_storage_add :: "storage_registry \<Rightarrow> storage_provider \<Rightarrow> int \<times> storage_registry" where
  "portal_storage_add reg provider =
     (if STORAGE_MAX_PROVIDERS \<le> length reg then (-1, reg)
      else if list_ex (\<lambda>p. sp_name p = sp_name provider) reg then (-1, reg)
      else (0, reg @ [provider]))"

definition portal_storage_remove :: "storage_registry \<Rightarrow> string \<Rightarrow> int \<times> storage_registry" where
  "portal_storage_remove reg name =
     (case find_index (\<lambda>p. sp_name p = name) reg of
        None \<Rightarrow> (-1, reg)
      | Some i \<Rightarrow> (0, take i reg @ drop (Suc i) reg))"

definition portal_storage_find :: "storage_registry \<Rightarrow> string \<Rightarrow> storage_provider option" where
  "portal_storage_find reg name = find (\<lambda>p. sp_name p = name) reg"

definition portal_storage_save_user ::
    "storage_registry \<Rightarrow> string \<Rightarrow> string \<Rightarrow> string \<Rightarrow> string \<Rightarrow> storage_call list" where
  "portal_storage_save_user reg username password api_key groups =
     map (\<lambda>p. User_save (sp_name p) username password api_key groups) (filter sp_user_save reg)"

definition portal_storage_save_group ::
    "storage_registry \<Rightarrow> string \<Rightarrow> string \<Rightarrow> string \<Rightarrow> storage_call list" where
  "portal_storage_save_group reg name description created_by =
     map (\<lambda>p. Group_save (sp_name p) name description created_by) (filter sp_group_save reg)"

definition portal_storage_save_config ::
    "storage_registry \<Rightarrow> string \<Rightarrow> string \<Rightarrow> string \<Rightarrow> storage_call list" where
  "portal_storage_save_config reg module_name key val =
     map (\<lambda>p. Config_set (sp_name p) module_name key val) (filter sp_config_set reg)"

text \<open>\<open>config_get name module key\<close> is what the provider's function finds, \<open>None\<close> a code other than 0.\<close>

fun portal_storage_get_config ::
    "(string \<Rightarrow> string \<Rightarrow> string \<Rightarrow> string option) \<Rightarrow> storage_registry \<Rightarrow> string \<Rightarrow> string \<Rightarrow> string option" where
  "portal_storage_get_config config_get [] module_name key = None"
| "portal_storage_get_config config_get (p # reg) module_name key =
     (case (if sp_config_get p then config_get (sp_name p) module_name key else None) of
        Some val \<Rightarrow> Some val
      | None \<Rightarrow> portal_storage_get_config config_get reg module_name key)"

subsection \<open>The registry contract\<close>

definition storage_ok :: "storage_registry \<Rightarrow> bool" where
  "storage_ok reg \<longleftrightarrow> distinct (map sp_name reg) \<and> length reg \<le> STORAGE_MAX_PROVIDERS"

lemma storage_find_None: "portal_storage_find reg n = None \<longleftrightarrow> n \<notin> sp_name ` set reg"
  by (auto simp: portal_storage_find_def find_None_iff)

lemma storage_add_fresh:
  assumes "storage_ok reg" "portal_storage_find reg (sp_name p) = None" "length reg < STORAGE_MAX_PROVIDERS"
  shows "portal_storage_add reg p = (0, reg @ [p])" and "storage_ok (reg @ [p])"
    and "portal_storage_find (reg @ [p]) = (portal_storage_find reg)(sp_name p \<mapsto> p)"
  using assms storage_find_None [of reg "sp_name p"]
  by (auto simp: portal_storage_add_def storage_ok_def list_ex_iff portal_storage_find_def find_append_single
      fun_eq_iff image_iff split: option.splits)

lemma storage_remove_filter:
  assumes "storage_ok reg"
  shows "portal_storage_remove reg n =
    (if portal_storage_find reg n = None then (-1, reg) else (0, filter (\<lambda>p. sp_name p \<noteq> n) reg))"
proof (cases "find_index (\<lambda>p. sp_name p = n) reg")
  case None
  then show ?thesis by (simp add: portal_storage_remove_def portal_storage_find_def find_index_find)
next
  case (Some i)
  then have i: "i < length reg" "sp_name (reg ! i) = n" by (auto simp: find_index_Some_iff)
  have reg: "reg = take i reg @ reg ! i # drop (Suc i) reg" using i(1) by (rule id_take_nth_drop)
  have "distinct (map sp_name (take i reg @ reg ! i # drop (Suc i) reg))"
    using assms unfolding storage_ok_def reg [symmetric] by simp
  then have "n \<notin> sp_name ` set (take i reg) \<union> sp_name ` set (drop (Suc i) reg)" using i(2) by auto
  then have "filter (\<lambda>p. sp_name p \<noteq> n) reg = take i reg @ drop (Suc i) reg"
    by (subst reg) (auto simp: i(2) filter_id_conv image_iff intro!: arg_cong2 [where f = append])
  with Some show ?thesis by (simp add: portal_storage_remove_def portal_storage_find_def find_index_find)
qed

lemma storage_find_filter:
  "portal_storage_find (filter (\<lambda>p. sp_name p \<noteq> n) reg) = (portal_storage_find reg)(n := None)"
  by (simp add: portal_storage_find_def find_filter_neq fun_eq_iff)

interpretation sr: registry portal_storage_find portal_storage_add portal_storage_remove sp_name "\<lambda>p. p"
  storage_ok "\<lambda>_. True" "\<lambda>reg. length reg < STORAGE_MAX_PROVIDERS"
proof
  fix s :: storage_registry and r :: storage_provider and n
  assume ok: "storage_ok s"
  show "portal_storage_find s (sp_name r) \<noteq> None \<Longrightarrow> portal_storage_add s r = (- 1, s)"
    by (auto simp: storage_find_None portal_storage_add_def list_ex_iff)
  have "portal_storage_find s n = None \<Longrightarrow> (portal_storage_find s)(n := None) = portal_storage_find s"
    by (auto simp: fun_eq_iff)
  with ok show "fst (portal_storage_remove s n) = (if portal_storage_find s n = None then - 1 else 0) \<and>
      storage_ok (snd (portal_storage_remove s n)) \<and>
      portal_storage_find (snd (portal_storage_remove s n)) = (portal_storage_find s)(n := None)"
    by (auto simp: storage_remove_filter storage_find_filter storage_ok_def distinct_map_filter_key
        intro: order_trans [OF length_filter_le])
qed (simp_all add: storage_add_fresh)

lemma storage_get_config_append:
  "portal_storage_get_config config_get (reg @ [p]) m k =
     (case portal_storage_get_config config_get reg m k of
        Some v \<Rightarrow> Some v
      | None \<Rightarrow> if sp_config_get p then config_get (sp_name p) m k else None)"
  by (induction reg) (auto split: option.splits)

subsection \<open>Properties\<close>

text \<open>
  Writes go to every provider and reads come from the first that answers: after a
  new provider is added it can be found by its name, every save of an account calls each
  provider with a save function exactly once in the order of registration, a read returns the
  first answer in that order, and after the provider is removed lookups, writes and reads are
  those of the registry before.
\<close>

lemma storage_write_all_read_first:
  assumes "storage_ok reg" and "portal_storage_find reg (sp_name p) = None" and "length reg < 8"
  defines "reg1 \<equiv> snd (portal_storage_add reg p)"
  shows "fst (portal_storage_add reg p) = 0 \<and> portal_storage_find reg1 (sp_name p) = Some p \<and>
         portal_storage_save_user reg1 u pw k g =
           portal_storage_save_user reg u pw k g @ (if sp_user_save p then [User_save (sp_name p) u pw k g] else []) \<and>
         portal_storage_get_config config_get reg1 m key =
           (case portal_storage_get_config config_get reg m key of
              Some v \<Rightarrow> Some v
            | None \<Rightarrow> if sp_config_get p then config_get (sp_name p) m key else None) \<and>
         portal_storage_remove reg1 (sp_name p) = (0, reg)"
proof -
  have reg1: "reg1 = reg @ [p]" "fst (portal_storage_add reg p) = 0"
    using storage_add_fresh [OF assms(1-3)] by (simp_all add: reg1_def)
  have "portal_storage_remove reg1 (sp_name p) = (0, filter (\<lambda>q. sp_name q \<noteq> sp_name p) (reg @ [p]))"
    using storage_add_fresh [OF assms(1-3)] by (simp add: reg1 storage_remove_filter)
  also have "filter (\<lambda>q. sp_name q \<noteq> sp_name p) (reg @ [p]) = reg"
    using assms(2) by (auto simp: storage_find_None filter_id_conv image_iff)
  finally show ?thesis
    using reg1 storage_add_fresh(3) [OF assms(1-3)]
    by (simp add: portal_storage_save_user_def storage_get_config_append)
qed

end
