(* ===== verification/Config.thy ===== *)
theory Config
  imports Ini
begin

section \<open>Configuration files (core_config.c)\<close>

text \<open>
  \<^verbatim>\<open>src/core/core_config.c\<close>. All pairs of all sections go into one hash table under the key
  \<open>section.key\<close>; the known keys of \<open>[core]\<close> and \<open>[modules]\<close> also set fields. Files are the
  file system of the store; \<open>readdir\<close> gives the names in a directory, in the order the system
  returns them, or \<open>None\<close> when the directory cannot be opened. \<open>atoi\<close> is modelled for values
  that fit an \<open>int\<close>.
\<close>

subsection \<open>Data\<close>

abbreviation (input) PORTAL_MAX_CONFIG_MODULES :: nat where "PORTAL_MAX_CONFIG_MODULES \<equiv> 64"
abbreviation (input) PORTAL_MAX_LINE :: nat where "PORTAL_MAX_LINE \<equiv> 512"
abbreviation (input) PORTAL_LOG_ERROR :: int where "PORTAL_LOG_ERROR \<equiv> 0"
abbreviation (input) PORTAL_LOG_WARN :: int where "PORTAL_LOG_WARN \<equiv> 1"
abbreviation (input) PORTAL_LOG_INFO :: int where "PORTAL_LOG_INFO \<equiv> 2"
abbreviation (input) PORTAL_LOG_DEBUG :: int where "PORTAL_LOG_DEBUG \<equiv> 3"
abbreviation (input) PORTAL_LOG_TRACE :: int where "PORTAL_LOG_TRACE \<equiv> 4"

record portal_config =
  cf_modules_dir :: string
  cf_socket_path :: string
  cf_users_file :: string
  cf_pid_file :: string
  cf_data_dir :: string
  cf_app_dir :: string
  cf_log_dir :: string
  cf_tcp_port :: int
  cf_udp_port :: int
  cf_log_level :: int
  cf_modules :: "string list"
  cf_sections :: "string ht"

subsection \<open>Loading\<close>

definition isdigit :: "char \<Rightarrow> bool" where
  "isdigit c \<longleftrightarrow> c \<in> set ''0123456789''"

definition digits_value :: "string \<Rightarrow> int" where
  "digits_value s = foldl (\<lambda>n c. 10 * n + (int (of_char c) - 48)) 0 s"

definition atoi :: "string \<Rightarrow> int" where
  "atoi s =
     (let s = dropWhile isspace s
      in if s \<noteq> [] \<and> hd s = CHR ''-'' then - digits_value (takeWhile isdigit (tl s))
         else if s \<noteq> [] \<and> hd s = CHR ''+'' then digits_value (takeWhile isdigit (tl s))
         else digits_value (takeWhile isdigit s))"

text \<open>A printed number is read back.\<close>

lemma digit_char: "n < 10 \<Longrightarrow> isdigit (char_of (48 + n)) \<and> int (of_char (char_of (48 + n) :: char)) - 48 = int n" for n :: nat
proof -
  assume "n < 10"
  then have "n \<in> {0, 1, 2, 3, 4, 5, 6, 7, 8, 9}" by auto
  then show ?thesis by (auto simp: isdigit_def char_of_def bit_0)
qed

lemma dec_nat_value: "list_all isdigit (dec_nat n) \<and> digits_value (dec_nat n) = int n"
proof (induction n rule: dec_nat.induct)
  case (1 n)
  show ?case
  proof (cases "n < 10")
    case True
    then show ?thesis using digit_char [OF True] by (subst (1 2) dec_nat.simps) (simp add: digits_value_def)
  next
    case False
    then have "list_all isdigit (dec_nat (n div 10))" "digits_value (dec_nat (n div 10)) = int (n div 10)" using 1 by simp_all
    moreover have "10 * int (n div 10) + int (n mod 10) = int n" by (simp add: zdiv_int zmod_int)
    ultimately show ?thesis using False digit_char [of "n mod 10"] by (subst (1 2) dec_nat.simps) (simp add: digits_value_def)
  qed
qed

lemma atoi_dec:
  assumes "0 \<le> i" "s = [] \<or> \<not> isdigit (hd s)"
  shows "atoi (dec i @ s) = i"
proof -
  let ?d = "dec_nat (nat i)"
  obtain c r where c: "?d = c # r" using dec_nat_hd [of "nat i"] by (cases ?d) auto
  have all: "list_all isdigit ?d" and val: "digits_value ?d = i" using dec_nat_value [of "nat i"] assms(1) by simp_all
  have "isdigit c" using all c by simp
  then have "\<not> isspace c" "c \<noteq> CHR ''-''" "c \<noteq> CHR ''+''" by (auto simp: isdigit_def isspace_def)
  moreover have "takeWhile isdigit (?d @ s) = ?d"
    using all assms(2) by (cases s) (auto simp: takeWhile_append list_all_iff)
  ultimately show ?thesis using val assms(1) c by (simp add: atoi_def dec_def Let_def)
qed

lemma dec_no_slash: "CHR ''/'' \<notin> set (dec i)"
proof -
  have "\<not> isdigit CHR ''/''" by (simp add: isdigit_def)
  then show ?thesis using dec_nat_value by (auto simp: dec_def list_all_iff)
qed

definition portal_config_defaults :: portal_config where
  "portal_config_defaults =
     \<lparr>cf_modules_dir = ''./modules'', cf_socket_path = ''/var/run/portal.sock'', cf_users_file = ''./users.conf'',
      cf_pid_file = ''/var/run/portal.pid'', cf_data_dir = ''/etc/portal'', cf_app_dir = ''/var/lib/portal'',
      cf_log_dir = ''/var/log/portal'', cf_tcp_port = 0, cf_udp_port = 0, cf_log_level = PORTAL_LOG_INFO,
      cf_modules = [], cf_sections = portal_ht_init HT_INITIAL_CAPACITY\<rparr>"

definition portal_config_destroy :: "portal_config \<Rightarrow> portal_config" where
  "portal_config_destroy cfg = cfg\<lparr>cf_sections := portal_ht_destroy (cf_sections cfg)\<rparr>"

text \<open>A line \<open>[name]\<close>: the new section, or the old one when the bracket is not closed.\<close>

definition section_line :: "nat \<Rightarrow> string \<Rightarrow> string \<Rightarrow> string" where
  "section_line size_of s cur =
     (case strchr_split CHR '']'' s of (_, None) \<Rightarrow> cur | (name, Some _) \<Rightarrow> csnprintf size_of (tl name))"

definition config_put :: "portal_config \<Rightarrow> string \<Rightarrow> string \<Rightarrow> string \<Rightarrow> portal_config" where
  "config_put cfg sec key val =
     cfg\<lparr>cf_sections := snd (portal_ht_set (cf_sections cfg) (csnprintf 256 (sec @ ''.'' @ key)) (Some val))\<rparr>"

definition log_level_of :: "string \<Rightarrow> int \<Rightarrow> int" where
  "log_level_of val old =
     (if val = ''error'' then PORTAL_LOG_ERROR else if val = ''warn'' then PORTAL_LOG_WARN
      else if val = ''info'' then PORTAL_LOG_INFO else if val = ''debug'' then PORTAL_LOG_DEBUG
      else if val = ''trace'' then PORTAL_LOG_TRACE else old)"

definition core_field :: "portal_config \<Rightarrow> string \<Rightarrow> string \<Rightarrow> portal_config" where
  "core_field cfg key val =
     (if key = ''modules_dir'' then cfg\<lparr>cf_modules_dir := csnprintf PORTAL_MAX_PATH_LEN val\<rparr>
      else if key = ''socket_path'' then cfg\<lparr>cf_socket_path := csnprintf PORTAL_MAX_PATH_LEN val\<rparr>
      else if key = ''users_file'' then cfg\<lparr>cf_users_file := csnprintf PORTAL_MAX_PATH_LEN val\<rparr>
      else if key = ''pid_file'' then cfg\<lparr>cf_pid_file := csnprintf PORTAL_MAX_PATH_LEN val\<rparr>
      else if key = ''data_dir'' then cfg\<lparr>cf_data_dir := csnprintf PORTAL_MAX_PATH_LEN val\<rparr>
      else if key = ''app_dir'' then cfg\<lparr>cf_app_dir := csnprintf PORTAL_MAX_PATH_LEN val\<rparr>
      else if key = ''log_dir'' then cfg\<lparr>cf_log_dir := csnprintf PORTAL_MAX_PATH_LEN val\<rparr>
      else if key = ''tcp_port'' then cfg\<lparr>cf_tcp_port := atoi val\<rparr>
      else if key = ''udp_port'' then cfg\<lparr>cf_udp_port := atoi val\<rparr>
      else if key = ''log_level'' then cfg\<lparr>cf_log_level := log_level_of val (cf_log_level cfg)\<rparr>
      else cfg)"

definition config_line :: "string \<Rightarrow> portal_config \<times> string \<Rightarrow> portal_config \<times> string" where
  "config_line line st =
     (let (cfg, sec) = st; s = trim line
      in if ini_skip s then (cfg, sec)
         else if hd s = CHR ''['' then (cfg, section_line 64 s sec)
         else case ini_pair s of
           None \<Rightarrow> (cfg, sec)
         | Some (key, val) \<Rightarrow>
             let cfg = config_put cfg sec key val
             in (if sec = ''core'' then core_field cfg key val
                 else if sec = ''modules'' then
                   (if key = ''load'' \<and> length (cf_modules cfg) < PORTAL_MAX_CONFIG_MODULES
                    then cfg\<lparr>cf_modules := cf_modules cfg @ [csnprintf PORTAL_MAX_MODULE_NAME val]\<rparr>
                    else cfg)
                 else cfg, sec))"

definition portal_config_load :: "file_system \<Rightarrow> portal_config \<Rightarrow> string \<Rightarrow> int \<times> portal_config" where
  "portal_config_load fs cfg path =
     (case fs path of
        None \<Rightarrow> (-1, cfg)
      | Some text \<Rightarrow> (0, fst (fold config_line (fgets_all PORTAL_MAX_LINE text) (cfg, []))))"

definition portal_config_get :: "portal_config \<Rightarrow> string \<Rightarrow> string \<Rightarrow> string option" where
  "portal_config_get cfg section_name key =
     (case portal_ht_get (cf_sections cfg) (csnprintf 256 (''mod_'' @ section_name @ ''.'' @ key)) of
        Some val \<Rightarrow> Some val
      | None \<Rightarrow> portal_ht_get (cf_sections cfg) (csnprintf 256 (section_name @ ''.'' @ key)))"

subsection \<open>Files of modules\<close>

definition module_conf_name :: "string \<Rightarrow> string option" where
  "module_conf_name d_name =
     (if \<not> strncmp_eq d_name ''mod_'' 4 then None
      else if length d_name < 10 \<or> drop (length d_name - 5) d_name \<noteq> ''.conf'' then None
      else Some (csnprintf PORTAL_MAX_MODULE_NAME (take (length d_name - 9) (drop 4 d_name))))"

definition module_conf_line ::
    "string \<Rightarrow> portal_config \<times> string \<times> bool \<Rightarrow> portal_config \<times> string \<times> bool" where
  "module_conf_line line st =
     (let (cfg, sec, enabled) = st; s = trim line
      in if ini_skip s then st
         else if hd s = CHR ''['' then (cfg, section_line 128 s sec, enabled)
         else case ini_pair s of
           None \<Rightarrow> st
         | Some (key, val) \<Rightarrow>
             if key = ''enabled'' then (cfg, sec, val = ''true'' \<or> val = ''1'' \<or> val = ''yes'')
             else (config_put cfg sec key val, sec, enabled))"

definition load_module_conf_file ::
    "file_system \<Rightarrow> string \<Rightarrow> string \<Rightarrow> portal_config \<times> int \<Rightarrow> portal_config \<times> int" where
  "load_module_conf_file fs dir d_name st =
     (case module_conf_name d_name of
        None \<Rightarrow> st
      | Some mod_name \<Rightarrow>
          (case fs (csnprintf (PORTAL_MAX_PATH_LEN + 280) (dir @ ''/'' @ d_name)) of
             None \<Rightarrow> st
           | Some text \<Rightarrow>
               let (cfg, sec, enabled) =
                     fold module_conf_line (fgets_all PORTAL_MAX_LINE text)
                       (fst st, csnprintf 128 (''mod_'' @ mod_name), True);
                   cfg = (if enabled \<and> length (cf_modules cfg) < PORTAL_MAX_CONFIG_MODULES \<and> mod_name \<notin> set (cf_modules cfg)
                          then cfg\<lparr>cf_modules := cf_modules cfg @ [csnprintf PORTAL_MAX_MODULE_NAME mod_name]\<rparr>
                          else cfg)
               in (cfg, snd st + 1)))"

definition load_module_conf_dir ::
    "(string \<Rightarrow> string list option) \<Rightarrow> file_system \<Rightarrow> portal_config \<Rightarrow> string \<Rightarrow> int \<times> portal_config" where
  "load_module_conf_dir readdir fs cfg dir =
     (case readdir dir of
        None \<Rightarrow> (0, cfg)
      | Some names \<Rightarrow> (case fold (load_module_conf_file fs dir) names (cfg, 0) of (cfg, loaded) \<Rightarrow> (loaded, cfg)))"

definition portal_config_load_modules_dir ::
    "(string \<Rightarrow> string list option) \<Rightarrow> file_system \<Rightarrow> portal_config \<Rightarrow> int \<times> portal_config" where
  "portal_config_load_modules_dir readdir fs cfg =
     (let (core_count, cfg1) = load_module_conf_dir readdir fs cfg
            (csnprintf (PORTAL_MAX_PATH_LEN + 32) (cf_data_dir cfg @ ''/modules/core''));
          (app_count, cfg2) = load_module_conf_dir readdir fs cfg1
            (csnprintf (PORTAL_MAX_PATH_LEN + 16) (cf_data_dir cfg1 @ ''/modules''))
      in (core_count + app_count, cfg2))"

subsection \<open>Sections of clean pairs\<close>

lemma cf_sections_core_field [simp]: "cf_sections (core_field cfg key val) = cf_sections cfg"
  by (simp add: core_field_def)

lemma config_line_clean:
  assumes "clean_pair k v" "hd k \<noteq> CHR ''[''"
  shows "snd (config_line (kv_line (k, v)) (cfg, sec)) = sec"
    and "cf_sections (fst (config_line (kv_line (k, v)) (cfg, sec))) =
      snd (portal_ht_set (cf_sections cfg) (csnprintf 256 (sec @ ''.'' @ k)) (Some v))"
  using clean_line_pair [OF assms(1)] assms(2)
  by (simp_all add: config_line_def kv_line_def Let_def config_put_def)

lemma config_lines_clean:
  assumes "\<forall>(k, v)\<in>set kvs. clean_pair k v \<and> hd k \<noteq> CHR ''[''"
  shows "cf_sections (fst (fold config_line (map kv_line kvs) (cfg, sec))) =
    fold (\<lambda>(k, v) t. snd (portal_ht_set t k (Some v)))
      (map (\<lambda>(k, v). (csnprintf 256 (sec @ ''.'' @ k), v)) kvs) (cf_sections cfg)"
  using assms
proof (induction kvs arbitrary: cfg)
  case (Cons p kvs)
  obtain k v where p: "p = (k, v)" by (cases p)
  with Cons.prems have c: "clean_pair k v" "hd k \<noteq> CHR ''[''" by auto
  obtain cfg' where cfg': "config_line (kv_line (k, v)) (cfg, sec) = (cfg', sec)"
    using config_line_clean(1) [OF c, of cfg sec] by (metis prod.collapse)
  with config_line_clean(2) [OF c, of cfg sec] Cons.IH [of cfg'] Cons.prems show ?case by (simp add: p)
qed simp


lemma map_of_map_key:
  assumes "inj_on f A" "k \<in> A" "\<forall>(k', v)\<in>set kvs. k' \<in> A"
  shows "map_of (map (\<lambda>(k, v). (f k, v)) kvs) (f k) = map_of kvs k"
  using assms(3)
proof (induction kvs)
  case (Cons p kvs)
  then have "fst p \<in> A" by auto
  then have "f (fst p) = f k \<longleftrightarrow> fst p = k" using assms(1,2) by (auto dest: inj_onD)
  with Cons show ?case by (auto simp: split_beta)
qed simp

lemma section_header_line:
  assumes "length sec < 64" "CHR '']'' \<notin> set sec" "CHR 0x0A \<notin> set sec"
  shows "config_line (''['' @ sec @ '']'' @ [CHR 0x0A]) (cfg, old) = (cfg, sec)"
proof -
  have "trim (''['' @ sec @ '']'' @ [CHR 0x0A]) = ''['' @ sec @ '']''"
    using trim_snoc_space [of "CHR 0x0A" "''['' @ sec @ '']''"] by (simp add: trim_id isspace_def)
  moreover have "strchr_split CHR '']'' ((CHR ''['' # sec) @ CHR '']'' # []) = (CHR ''['' # sec, Some [])"
    using assms(2) by (intro strchr_split_append) simp
  ultimately show ?thesis
    using assms(1) by (simp add: config_line_def ini_skip_def section_line_def csnprintf_fits)
qed

lemma config_get_section:
  assumes "kv_ok (cf_sections cfg)" "\<forall>(k, v)\<in>set kvs. length name + length k < 250" "length name + length key < 250"
    "CHR ''.'' \<notin> set name"
    "cf_sections cfg' = fold (\<lambda>(k, v) t. snd (portal_ht_set t k (Some v)))
       (map (\<lambda>(k, v). (csnprintf 256 (''mod_'' @ name @ ''.'' @ k), v)) kvs) (cf_sections cfg)"
  shows "portal_config_get cfg' name key =
    (case map_of (rev kvs) key of Some v \<Rightarrow> Some v | None \<Rightarrow> portal_config_get cfg name key)"
proof -
  let ?f = "\<lambda>k. ''mod_'' @ name @ ''.'' @ k" and ?A = "{k. length name + length k < 250}"
  have maps: "map (\<lambda>(k, v). (csnprintf 256 (?f k), v)) kvs = map (\<lambda>(k, v). (?f k, v)) kvs"
    using assms(2) by (auto simp: csnprintf_fits)
  have get: "portal_ht_get (cf_sections cfg') = portal_ht_get (cf_sections cfg) ++ map_of (rev (map (\<lambda>(k, v). (?f k, v)) kvs))"
    using kvt.fold_put [OF assms(1), of "map (\<lambda>(k, v). (?f k, v)) kvs"] unfolding assms(5) maps by blast
  have 1: "map_of (rev (map (\<lambda>(k, v). (?f k, v)) kvs)) (?f key) = map_of (rev kvs) key"
    using assms(2,3) unfolding rev_map by (intro map_of_map_key [where A = ?A]) (auto simp: inj_on_def)
  have ne: "name @ CHR ''.'' # key \<noteq> ?f k" for k
  proof
    assume "name @ CHR ''.'' # key = ?f k"
    then have "takeWhile (\<lambda>c. c \<noteq> CHR ''.'') ((''mod_'' @ name) @ CHR ''.'' # k) = takeWhile (\<lambda>c. c \<noteq> CHR ''.'') (name @ CHR ''.'' # key)"
      by simp
    moreover have "takeWhile (\<lambda>c. c \<noteq> CHR ''.'') (n @ CHR ''.'' # k) = n" if "CHR ''.'' \<notin> set n" for n k :: string
      using that by (induction n) auto
    ultimately have "''mod_'' @ name = name" using assms(4) by auto
    then show False by (metis append_self_conv2 list.simps(3))
  qed
  have 2: "map_of (rev (map (\<lambda>(k, v). (?f k, v)) kvs)) (name @ ''.'' @ key) = None"
    using ne by (force simp: map_of_eq_None_iff)
  show ?thesis
    using assms(3) 1 2 by (auto simp: portal_config_get_def get csnprintf_fits map_add_def split: option.splits)
qed

subsection \<open>Properties\<close>

text \<open>
  Property C34. A module reads what its section says: after a file with the section of a module
  and a list of clean pairs is loaded, \<open>portal_config_get\<close> returns for every key of the section
  the value of its last assignment in the file and for every other key what it returned before;
  a file that cannot be opened returns -1 and changes nothing.
\<close>

theorem config_load_get:
  assumes "kv_ok (cf_sections cfg)" and "CHR '']'' \<notin> set name" and "CHR ''.'' \<notin> set name" and "CHR 0x0A \<notin> set name"
    and "length name < 60" and "length key < 190"
    and "\<forall>(k, v)\<in>set kvs. clean_pair k v \<and> hd k \<noteq> CHR ''['' \<and> length k < 190"
    and "fs path = Some (''[mod_'' @ name @ '']'' @ [CHR 0x0A] @ concat (map kv_line kvs))" and "fs missing = None"
  shows "fst (portal_config_load fs cfg path) = 0 \<and>
         portal_config_get (snd (portal_config_load fs cfg path)) name key =
           (case map_of (rev kvs) key of Some v \<Rightarrow> Some v | None \<Rightarrow> portal_config_get cfg name key) \<and>
         portal_config_load fs cfg missing = (-1, cfg)"
proof -
  let ?sec = "''mod_'' @ name"
  have clean: "\<forall>(k, v)\<in>set kvs. clean_pair k v" "\<forall>(k, v)\<in>set kvs. clean_pair k v \<and> hd k \<noteq> CHR ''[''" using assms(7) by auto
  have "fgets_all 512 ((''['' @ ?sec @ '']'') @ CHR 0x0A # concat (map kv_line kvs)) =
      (''['' @ ?sec @ '']'' @ [CHR 0x0A]) # map kv_line kvs"
    using fgets_all_line [of "''['' @ ?sec @ '']''" "concat (map kv_line kvs)"] assms(4,5) fgets_all_kv_lines [OF clean(1)] by simp
  moreover have "config_line (''['' @ ?sec @ '']'' @ [CHR 0x0A]) (cfg, []) = (cfg, ?sec)"
    using assms(2,4,5) by (intro section_header_line) simp_all
  ultimately have load: "portal_config_load fs cfg path = (0, fst (fold config_line (map kv_line kvs) (cfg, ?sec)))"
    using assms(8) by (simp add: portal_config_load_def)
  have "portal_config_get (snd (portal_config_load fs cfg path)) name key =
      (case map_of (rev kvs) key of Some v \<Rightarrow> Some v | None \<Rightarrow> portal_config_get cfg name key)"
    using assms(1,3,5-7) config_lines_clean [OF clean(2), of cfg ?sec] unfolding load
    by (intro config_get_section) auto
  with load assms(9) show ?thesis by (simp add: portal_config_load_def)
qed

theorem config_load_get_witness:
  "portal_config_get (snd (portal_config_load [''/web.conf'' \<mapsto> ''[mod_web]'' @ [CHR 0x0A] @ kv_line (''port'', ''80'') @ kv_line (''port'', ''8080'')]
     portal_config_defaults ''/web.conf'')) ''web'' ''port'' = Some ''8080''"
proof -
  let ?kvs = "[(''port'', ''80''), (''port'', ''8080'')]"
  let ?text = "''[mod_'' @ ''web'' @ '']'' @ [CHR 0x0A] @ concat (map kv_line ?kvs)"
  have "kv_ok (cf_sections portal_config_defaults)" by (simp add: portal_config_defaults_def kv_ok_init)
  moreover have "clean_pair ''port'' ''80''" "clean_pair ''port'' ''8080''"
    by (simp_all add: clean_pair_def trim_def isspace_def ini_skip_def)
  then have "\<forall>(k, v)\<in>set ?kvs. clean_pair k v \<and> hd k \<noteq> CHR ''['' \<and> length k < 190" by simp
  ultimately have "portal_config_get (snd (portal_config_load [''/web.conf'' \<mapsto> ?text] portal_config_defaults ''/web.conf'')) ''web'' ''port'' = Some ''8080''"
    using config_load_get [of portal_config_defaults "''web''" "''port''" ?kvs "[''/web.conf'' \<mapsto> ?text]" "''/web.conf''" "''/none''"]
    by simp
  then show ?thesis by simp
qed

end
