(* ===== verification/Evloop.thy ===== *)
theory Evloop
  imports Hashtable
begin

section \<open>The table of watched descriptors (core_event.c)\<close>

text \<open>
  \<^verbatim>\<open>src/core/core_event.c\<close>. The entries array has 16384 slots; a slot comes from the stack of
  freed slots or from above the highest slot used so far, and a hash table maps the decimal
  text of a descriptor to its slot. The event library behind it is not modelled: starting and
  stopping a watcher is what the entry says (descriptor, event mask, active), and
  \<open>ev_run\<close> and the signal watchers have no counterpart. The free list is the C array up to
  \<open>free_count\<close> with its last element first. Allocation succeeds. A timer interval is the 64
  bits of a \<open>double\<close>, which the core only passes on.
\<close>

subsection \<open>Data\<close>

abbreviation (input) EVENT_MAX_FDS :: nat where "EVENT_MAX_FDS \<equiv> 16384"
abbreviation (input) EVENT_MAX_TIMERS :: nat where "EVENT_MAX_TIMERS \<equiv> 64"

record event_entry =
  ee_fd :: int
  ee_events :: "32 word"
  ee_callback :: "nat option"
  ee_userdata :: "nat option"
  ee_active :: bool

record timer_entry =
  te_interval :: "64 word"
  te_callback :: nat
  te_userdata :: "nat option"
  te_active :: bool

record event_loop =
  el_entries :: "event_entry list"
  el_high :: nat
  el_free :: "nat list"
  el_fd_to_idx :: "nat ht"
  el_timers :: "timer_entry list"
  el_sighup :: "(nat \<times> nat option) option"

definition entry_zero :: event_entry where
  "entry_zero = \<lparr>ee_fd = 0, ee_events = 0, ee_callback = None, ee_userdata = None, ee_active = False\<rparr>"

subsection \<open>Operations\<close>

definition portal_event_init :: event_loop where
  "portal_event_init =
     \<lparr>el_entries = replicate EVENT_MAX_FDS entry_zero, el_high = 0, el_free = [],
      el_fd_to_idx = portal_ht_init 512, el_timers = [], el_sighup = None\<rparr>"

definition portal_event_destroy :: "event_loop \<Rightarrow> event_loop" where
  "portal_event_destroy el =
     el\<lparr>el_entries := [], el_free := [], el_fd_to_idx := portal_ht_destroy (el_fd_to_idx el),
        el_timers := map (\<lambda>t. t\<lparr>te_active := False\<rparr>) (el_timers el)\<rparr>"

definition slot_alloc :: "event_loop \<Rightarrow> nat option \<times> event_loop" where
  "slot_alloc el =
     (case el_free el of
        i # is \<Rightarrow> (Some i, el\<lparr>el_free := is\<rparr>)
      | [] \<Rightarrow> if el_high el < EVENT_MAX_FDS then (Some (el_high el), el\<lparr>el_high := el_high el + 1\<rparr>)
              else (None, el))"

definition slot_free :: "event_loop \<Rightarrow> nat \<Rightarrow> event_loop" where
  "slot_free el i = el\<lparr>el_free := i # el_free el\<rparr>"

definition fd_key :: "int \<Rightarrow> string" where
  "fd_key fd = csnprintf 16 (dec fd)"

definition fd_idx_lookup :: "event_loop \<Rightarrow> int \<Rightarrow> nat option" where
  "fd_idx_lookup el fd = portal_ht_get (el_fd_to_idx el) (fd_key fd)"

definition event_mask :: "32 word \<Rightarrow> 32 word" where
  "event_mask events =
     (let m = (if bit events 0 then 1 else 0) OR (if bit events 1 then 2 else 0)
      in if m = 0 then 1 else m)"

definition portal_event_add ::
    "event_loop \<Rightarrow> int \<Rightarrow> 32 word \<Rightarrow> nat option \<Rightarrow> nat option \<Rightarrow> int \<times> event_loop" where
  "portal_event_add el fd events callback userdata =
     (if fd_idx_lookup el fd \<noteq> None then (-1, el)
      else case slot_alloc el of
        (None, el) \<Rightarrow> (-1, el)
      | (Some i, el) \<Rightarrow>
          (0, el\<lparr>el_entries := (el_entries el)[i :=
                   \<lparr>ee_fd = fd, ee_events = event_mask events, ee_callback = callback,
                    ee_userdata = userdata, ee_active = True\<rparr>],
                 el_fd_to_idx := snd (portal_ht_set (el_fd_to_idx el) (fd_key fd) (Some i))\<rparr>))"

definition portal_event_del :: "event_loop \<Rightarrow> int \<Rightarrow> int \<times> event_loop" where
  "portal_event_del el fd =
     (case portal_ht_get (el_fd_to_idx el) (fd_key fd) of
        None \<Rightarrow> (-1, el)
      | Some i \<Rightarrow>
          (0, slot_free (el\<lparr>el_entries := (el_entries el)[i :=
                   (el_entries el ! i)\<lparr>ee_active := False, ee_callback := None, ee_userdata := None\<rparr>],
                 el_fd_to_idx := snd (portal_ht_del (el_fd_to_idx el) (fd_key fd))\<rparr>) i))"

definition portal_event_modify :: "event_loop \<Rightarrow> int \<Rightarrow> 32 word \<Rightarrow> int \<times> event_loop" where
  "portal_event_modify el fd events =
     (case fd_idx_lookup el fd of
        None \<Rightarrow> (-1, el)
      | Some i \<Rightarrow>
          if \<not> ee_active (el_entries el ! i) then (-1, el)
          else (0, el\<lparr>el_entries := (el_entries el)[i :=
                 (el_entries el ! i)\<lparr>ee_fd := fd, ee_events := event_mask events\<rparr>]\<rparr>))"

definition portal_event_add_timer ::
    "event_loop \<Rightarrow> 64 word \<Rightarrow> nat \<Rightarrow> nat option \<Rightarrow> int \<times> event_loop" where
  "portal_event_add_timer el interval callback userdata =
     (if EVENT_MAX_TIMERS \<le> length (el_timers el) then (-1, el)
      else (0, el\<lparr>el_timers := el_timers el @
             [\<lparr>te_interval = interval, te_callback = callback, te_userdata = userdata, te_active = True\<rparr>]\<rparr>))"

definition portal_event_set_sighup :: "event_loop \<Rightarrow> nat \<Rightarrow> nat option \<Rightarrow> event_loop" where
  "portal_event_set_sighup el callback userdata = el\<lparr>el_sighup := Some (callback, userdata)\<rparr>"

subsection \<open>The invariant\<close>

text \<open>
  Every slot below the highest one is either free or belongs to exactly one descriptor, and
  the entry of a descriptor is active and names it.
\<close>

abbreviation slots :: "event_loop \<Rightarrow> string \<Rightarrow> nat option" where
  "slots el \<equiv> portal_ht_get (el_fd_to_idx el)"

definition loop_ok :: "event_loop \<Rightarrow> bool" where
  "loop_ok el \<longleftrightarrow>
     length (el_entries el) = EVENT_MAX_FDS \<and> ht_ok (el_fd_to_idx el) \<and> el_high el \<le> EVENT_MAX_FDS \<and>
     distinct (el_free el) \<and> set (el_free el) \<subseteq> {..<el_high el} \<and>
     inj_on (slots el) (dom (slots el)) \<and> ran (slots el) = {..<el_high el} - set (el_free el) \<and>
     (\<forall>k i. slots el k = Some i \<longrightarrow> ee_active (el_entries el ! i) \<and> fd_key (ee_fd (el_entries el ! i)) = k)"

lemma loop_okI:
  assumes "slots el = m" "length (el_entries el) = 16384" "ht_ok (el_fd_to_idx el)" "el_high el \<le> 16384"
    "distinct (el_free el)" "set (el_free el) \<subseteq> {..<el_high el}" "inj_on m (dom m)"
    "ran m = {..<el_high el} - set (el_free el)"
    "\<And>k i. m k = Some i \<Longrightarrow> ee_active (el_entries el ! i) \<and> fd_key (ee_fd (el_entries el ! i)) = k"
  shows "loop_ok el"
  unfolding loop_ok_def assms(1) by (intro conjI allI impI assms)

definition watched :: "event_loop \<Rightarrow> int \<Rightarrow> event_entry option" where
  "watched el fd = map_option ((!) (el_entries el)) (fd_idx_lookup el fd)"

definition valid_fd :: "int \<Rightarrow> bool" where
  "valid_fd fd \<longleftrightarrow> \<bar>fd\<bar> < 2 ^ 31"

lemma fd_key_inj: "valid_fd a \<Longrightarrow> valid_fd b \<Longrightarrow> fd_key a = fd_key b \<longleftrightarrow> a = b"
  by (simp add: fd_key_def valid_fd_def csnprintf_fits length_dec dec_inj)

lemma loop_ok_init: "loop_ok portal_event_init"
  by (simp add: loop_ok_def portal_event_init_def ht_ok_init)

lemma loop_ok_slot:
  assumes "loop_ok el" "slots el k = Some i"
  shows "i < el_high el \<and> i \<notin> set (el_free el) \<and> i < 16384"
proof -
  have "i \<in> ran (slots el)" using assms(2) by (rule ranI)
  with assms(1) have "i \<in> {..<el_high el} - set (el_free el)" "el_high el \<le> 16384" unfolding loop_ok_def by blast+
  then show ?thesis by simp
qed

lemma slots_distinct: "loop_ok el \<Longrightarrow> slots el k = Some i \<Longrightarrow> slots el k' = Some i \<Longrightarrow> k = k'"
  by (auto simp: loop_ok_def inj_on_def dom_def)

lemma card_slots: "loop_ok el \<Longrightarrow> card (dom (slots el)) + length (el_free el) = el_high el"
proof -
  assume ok: "loop_ok el"
  have "card (dom (slots el)) = card (slots el ` dom (slots el))" using ok by (simp add: loop_ok_def card_image)
  also have "slots el ` dom (slots el) = Some ` ran (slots el)"
    unfolding ran_def dom_def by (auto simp: image_iff) metis
  also have "card \<dots> = card ({..<el_high el} - set (el_free el))" using ok by (simp add: loop_ok_def card_image)
  also have "\<dots> = el_high el - length (el_free el)" using ok by (simp add: loop_ok_def card_Diff_subset distinct_card)
  finally show ?thesis
    using ok card_mono [of "{..<el_high el}" "set (el_free el)"] by (simp add: loop_ok_def distinct_card)
qed


lemma slot_alloc_Some:
  assumes "loop_ok el" "slot_alloc el = (Some i, el1)"
  shows "i < 16384" "\<forall>k. slots el k \<noteq> Some i" "el_entries el1 = el_entries el" "el_fd_to_idx el1 = el_fd_to_idx el"
    "i < el_high el1" "el_high el1 \<le> 16384" "distinct (el_free el1)" "i \<notin> set (el_free el1)"
    "set (el_free el1) \<subseteq> {..<el_high el1}"
    "insert i ({..<el_high el} - set (el_free el)) = {..<el_high el1} - set (el_free el1)"
proof -
  have "i < 16384 \<and> (\<forall>k. slots el k \<noteq> Some i) \<and> el_entries el1 = el_entries el \<and> el_fd_to_idx el1 = el_fd_to_idx el \<and>
    i < el_high el1 \<and> el_high el1 \<le> 16384 \<and> distinct (el_free el1) \<and> i \<notin> set (el_free el1) \<and>
    set (el_free el1) \<subseteq> {..<el_high el1} \<and>
    insert i ({..<el_high el} - set (el_free el)) = {..<el_high el1} - set (el_free el1)"
  proof (cases "el_free el")
    case Nil
    with assms have "i = el_high el" "el1 = el\<lparr>el_high := el_high el + 1\<rparr>" "el_high el < 16384"
      by (auto simp: slot_alloc_def split: if_splits)
    with Nil loop_ok_slot [OF assms(1)] show ?thesis by auto
  next
    case (Cons j js)
    with assms have "i = j" "el1 = el\<lparr>el_free := js\<rparr>" by (auto simp: slot_alloc_def)
    with Cons loop_ok_slot [OF assms(1)] assms(1) show ?thesis by (auto simp: loop_ok_def)
  qed
  then show "i < 16384" "\<forall>k. slots el k \<noteq> Some i" "el_entries el1 = el_entries el" "el_fd_to_idx el1 = el_fd_to_idx el"
    "i < el_high el1" "el_high el1 \<le> 16384" "distinct (el_free el1)" "i \<notin> set (el_free el1)"
    "set (el_free el1) \<subseteq> {..<el_high el1}"
    "insert i ({..<el_high el} - set (el_free el)) = {..<el_high el1} - set (el_free el1)" by blast+
qed

lemma slot_alloc_None:
  assumes "loop_ok el"
  shows "fst (slot_alloc el) = None \<longleftrightarrow> card (dom (slots el)) = 16384"
    and "fst (slot_alloc el) = None \<Longrightarrow> snd (slot_alloc el) = el"
  using card_slots [OF assms] assms
  by (auto simp: slot_alloc_def loop_ok_def split: list.splits if_splits)

lemma loop_ok_add:
  assumes "loop_ok el" "fd_idx_lookup el fd = None" "slot_alloc el = (Some i, el1)"
  shows "loop_ok (snd (portal_event_add el fd events cb ud))"
    and "slots (snd (portal_event_add el fd events cb ud)) = (slots el)(fd_key fd \<mapsto> i)"
proof -
  note a = slot_alloc_Some [OF assms(1,3)]
  have h: "ht_ok (el_fd_to_idx el)" using assms(1) by (simp add: loop_ok_def)
  have none: "slots el (fd_key fd) = None" using assms(2) by (simp add: fd_idx_lookup_def)
  note p = tbl.put_fresh [OF h none, of i]
  let ?t = "snd (portal_ht_set (el_fd_to_idx el) (fd_key fd) (Some i))"
  have add: "portal_event_add el fd events cb ud = (0, el1\<lparr>el_entries := (el_entries el)[i :=
      \<lparr>ee_fd = fd, ee_events = event_mask events, ee_callback = cb, ee_userdata = ud, ee_active = True\<rparr>],
      el_fd_to_idx := ?t\<rparr>)"
    using assms(2,3) a(3,4) by (simp add: portal_event_add_def)
  show "slots (snd (portal_event_add el fd events cb ud)) = (slots el)(fd_key fd \<mapsto> i)"
    using p by (simp add: add)
  have "inj_on (slots el) (dom (slots el))" "ran (slots el) = {..<el_high el} - set (el_free el)"
    using assms(1) by (auto simp: loop_ok_def)
  then have "inj_on ((slots el)(fd_key fd \<mapsto> i)) (dom ((slots el)(fd_key fd \<mapsto> i)))"
    and "ran ((slots el)(fd_key fd \<mapsto> i)) = {..<el_high el1} - set (el_free el1)"
    using a(2,10) none by (auto simp: inj_on_def dom_def ran_map_upd split: if_splits)
  moreover have "ee_active (el_entries (snd (portal_event_add el fd events cb ud)) ! j) \<and>
      fd_key (ee_fd (el_entries (snd (portal_event_add el fd events cb ud)) ! j)) = k"
    if "((slots el)(fd_key fd \<mapsto> i)) k = Some j" for k j
    using that assms(1) a(1,2) by (cases "j = i") (auto simp: add loop_ok_def split: if_splits)
  ultimately show "loop_ok (snd (portal_event_add el fd events cb ud))"
  proof (intro loop_okI [where m = "(slots el)(fd_key fd \<mapsto> i)"])
    show "slots (snd (portal_event_add el fd events cb ud)) = (slots el)(fd_key fd \<mapsto> i)" using p by (simp add: add)
  qed (use assms(1) a(6,7,9) p in \<open>simp_all add: add loop_ok_def\<close>)
qed

lemma loop_ok_del:
  assumes "loop_ok el" "fd_idx_lookup el fd = Some i"
  shows "loop_ok (snd (portal_event_del el fd))"
    and "slots (snd (portal_event_del el fd)) = (slots el)(fd_key fd := None)"
proof -
  have h: "ht_ok (el_fd_to_idx el)" using assms(1) by (simp add: loop_ok_def)
  have s: "slots el (fd_key fd) = Some i" using assms(2) by (simp add: fd_idx_lookup_def)
  note d = tbl.del [OF h, of "fd_key fd"] and i = loop_ok_slot [OF assms(1) s]
  have del: "portal_event_del el fd = (0, el\<lparr>el_entries := (el_entries el)[i :=
      (el_entries el ! i)\<lparr>ee_active := False, ee_callback := None, ee_userdata := None\<rparr>],
      el_fd_to_idx := snd (portal_ht_del (el_fd_to_idx el) (fd_key fd)), el_free := i # el_free el\<rparr>)"
    using s by (simp add: portal_event_del_def slot_free_def)
  show "slots (snd (portal_event_del el fd)) = (slots el)(fd_key fd := None)" using d by (simp add: del)
  have other: "k = fd_key fd" if "slots el k = Some i" for k using slots_distinct [OF assms(1) that s] .
  have "ran ((slots el)(fd_key fd := None)) = ran (slots el) - {i}"
  proof (intro equalityI subsetI)
    fix j assume "j \<in> ran ((slots el)(fd_key fd := None))"
    then obtain k where "k \<noteq> fd_key fd" "slots el k = Some j" by (auto simp: ran_def split: if_splits)
    with other show "j \<in> ran (slots el) - {i}" by (auto intro: ranI)
  next
    fix j assume "j \<in> ran (slots el) - {i}"
    then obtain k where "j \<noteq> i" "slots el k = Some j" by (auto simp: ran_def)
    with s have "((slots el)(fd_key fd := None)) k = Some j" by auto
    then show "j \<in> ran ((slots el)(fd_key fd := None))" by (rule ranI)
  qed
  moreover have "inj_on ((slots el)(fd_key fd := None)) (dom ((slots el)(fd_key fd := None)))"
    using assms(1) by (auto simp: loop_ok_def inj_on_def dom_def)
  moreover have "ee_active (el_entries (snd (portal_event_del el fd)) ! j) \<and>
      fd_key (ee_fd (el_entries (snd (portal_event_del el fd)) ! j)) = k"
    if "((slots el)(fd_key fd := None)) k = Some j" for k j
    using that assms(1) other by (cases "j = i") (auto simp: del loop_ok_def split: if_splits)
  moreover have "ran (slots el) - {i} = {..<el_high el} - set (i # el_free el)"
    using assms(1) by (auto simp: loop_ok_def)
  ultimately show "loop_ok (snd (portal_event_del el fd))"
  proof (intro loop_okI [where m = "(slots el)(fd_key fd := None)"])
    show "slots (snd (portal_event_del el fd)) = (slots el)(fd_key fd := None)" using d by (simp add: del)
  qed (use assms(1) d i in \<open>simp_all add: del loop_ok_def\<close>)
qed


lemma map_option_nth_update: "x \<noteq> Some i \<Longrightarrow> map_option ((!) (xs[i := y])) x = map_option ((!) xs) x"
  by (cases x) auto

lemma watched_slots: "watched el fd = map_option ((!) (el_entries el)) (slots el (fd_key fd))"
  by (simp add: watched_def fd_idx_lookup_def)

lemma watched_add:
  assumes "loop_ok el" "valid_fd fd" "watched el fd = None" "card (dom (slots el)) \<noteq> 16384"
  shows "fst (portal_event_add el fd events cb ud) = 0" and "loop_ok (snd (portal_event_add el fd events cb ud))"
    and "watched (snd (portal_event_add el fd events cb ud)) fd =
      Some \<lparr>ee_fd = fd, ee_events = event_mask events, ee_callback = cb, ee_userdata = ud, ee_active = True\<rparr>"
    and "valid_fd o1 \<Longrightarrow> o1 \<noteq> fd \<Longrightarrow> watched (snd (portal_event_add el fd events cb ud)) o1 = watched el o1"
proof -
  obtain i el1 where alloc: "slot_alloc el = (Some i, el1)"
    using slot_alloc_None(1) [OF assms(1)] assms(4) by (cases "slot_alloc el") auto
  note a = slot_alloc_Some [OF assms(1) alloc]
  have none: "fd_idx_lookup el fd = None" using assms(3) by (simp add: watched_def)
  note ok = loop_ok_add [OF assms(1) none alloc, of events cb ud]
  have entries: "el_entries (snd (portal_event_add el fd events cb ud)) = (el_entries el)[i :=
      \<lparr>ee_fd = fd, ee_events = event_mask events, ee_callback = cb, ee_userdata = ud, ee_active = True\<rparr>]"
    and "fst (portal_event_add el fd events cb ud) = 0"
    using none alloc a(3) by (simp_all add: portal_event_add_def)
  then show "fst (portal_event_add el fd events cb ud) = 0" by simp
  show "loop_ok (snd (portal_event_add el fd events cb ud))" by (rule ok)
  show "watched (snd (portal_event_add el fd events cb ud)) fd =
      Some \<lparr>ee_fd = fd, ee_events = event_mask events, ee_callback = cb, ee_userdata = ud, ee_active = True\<rparr>"
    using assms(1) a(1) unfolding watched_slots ok(2) entries by (simp add: loop_ok_def)
  assume "valid_fd o1" "o1 \<noteq> fd"
  then have "fd_key o1 \<noteq> fd_key fd" using assms(2) by (simp add: fd_key_inj)
  then show "watched (snd (portal_event_add el fd events cb ud)) o1 = watched el o1"
    using a(2) unfolding watched_slots ok(2) entries by (simp add: map_option_nth_update)
qed

lemma watched_del:
  assumes "loop_ok el" "valid_fd fd" "watched el fd \<noteq> None"
  shows "fst (portal_event_del el fd) = 0" and "loop_ok (snd (portal_event_del el fd))"
    and "watched (snd (portal_event_del el fd)) fd = None"
    and "valid_fd o1 \<Longrightarrow> o1 \<noteq> fd \<Longrightarrow> watched (snd (portal_event_del el fd)) o1 = watched el o1"
proof -
  obtain i where i: "fd_idx_lookup el fd = Some i" using assms(3) by (auto simp: watched_def)
  then have s: "slots el (fd_key fd) = Some i" by (simp add: fd_idx_lookup_def)
  note ok = loop_ok_del [OF assms(1) i]
  have entries: "el_entries (snd (portal_event_del el fd)) = (el_entries el)[i :=
      (el_entries el ! i)\<lparr>ee_active := False, ee_callback := None, ee_userdata := None\<rparr>]"
    using s by (simp add: portal_event_del_def slot_free_def)
  show "fst (portal_event_del el fd) = 0" using s by (simp add: portal_event_del_def)
  show "loop_ok (snd (portal_event_del el fd))" by (rule ok)
  show "watched (snd (portal_event_del el fd)) fd = None" unfolding watched_slots ok(2) by simp
  assume "valid_fd o1" "o1 \<noteq> fd"
  then have ne: "fd_key o1 \<noteq> fd_key fd" using assms(2) by (simp add: fd_key_inj)
  then have "slots el (fd_key o1) \<noteq> Some i" using slots_distinct [OF assms(1) s] by auto
  with ne show "watched (snd (portal_event_del el fd)) o1 = watched el o1"
    unfolding watched_slots ok(2) entries by (simp add: map_option_nth_update)
qed

lemma watched_modify:
  assumes "loop_ok el" "valid_fd fd" "watched el fd = Some e"
  shows "fst (portal_event_modify el fd events) = 0" and "loop_ok (snd (portal_event_modify el fd events))"
    and "watched (snd (portal_event_modify el fd events)) fd = Some (e\<lparr>ee_fd := fd, ee_events := event_mask events\<rparr>)"
    and "valid_fd o1 \<Longrightarrow> o1 \<noteq> fd \<Longrightarrow> watched (snd (portal_event_modify el fd events)) o1 = watched el o1"
proof -
  obtain i where s: "slots el (fd_key fd) = Some i" "el_entries el ! i = e" using assms(3) by (auto simp: watched_slots)
  note i = loop_ok_slot [OF assms(1) s(1)]
  have e: "ee_active e" "length (el_entries el) = 16384" using assms(1) s by (auto simp: loop_ok_def)
  have m: "portal_event_modify el fd events = (0, el\<lparr>el_entries := (el_entries el)[i := e\<lparr>ee_fd := fd, ee_events := event_mask events\<rparr>]\<rparr>)"
    using s e by (simp add: portal_event_modify_def fd_idx_lookup_def)
  show "fst (portal_event_modify el fd events) = 0" by (simp add: m)
  show "watched (snd (portal_event_modify el fd events)) fd = Some (e\<lparr>ee_fd := fd, ee_events := event_mask events\<rparr>)"
    using s i e by (simp add: m watched_slots)
  have other: "slots el k = Some i \<Longrightarrow> k = fd_key fd" for k using slots_distinct [OF assms(1) _ s(1)] .
  show "valid_fd o1 \<Longrightarrow> o1 \<noteq> fd \<Longrightarrow> watched (snd (portal_event_modify el fd events)) o1 = watched el o1"
    using other fd_key_inj [OF _ assms(2)] by (auto simp: m watched_slots intro!: map_option_nth_update)
  have "ee_active ((el_entries el)[i := e\<lparr>ee_fd := fd, ee_events := event_mask events\<rparr>] ! j) \<and>
      fd_key (ee_fd ((el_entries el)[i := e\<lparr>ee_fd := fd, ee_events := event_mask events\<rparr>] ! j)) = k"
    if "slots el k = Some j" for k j
    using that other i e assms(1) by (cases "j = i") (auto simp: loop_ok_def)
  then show "loop_ok (snd (portal_event_modify el fd events))"
    by (intro loop_okI [where m = "slots el"]) (use assms(1) in \<open>simp_all add: m loop_ok_def\<close>)
qed

subsection \<open>Properties\<close>

text \<open>
  Property C33. The slot table, the free list and the hash index together are a map from
  descriptors to watchers: adding fails exactly for a descriptor that is watched already or
  when 16384 descriptors are watched, so no slot is lost in any history of additions and
  removals; otherwise the descriptor is watched with its mask, removal ends the watch, a change
  of mask keeps the callback, and no operation touches the watcher of another descriptor.
\<close>

theorem fd_table_refines_map:
  fixes o1 :: int and ud :: "nat option"
  assumes "loop_ok el" and "valid_fd fd"
  defines "same \<equiv> \<lambda>el' o1. valid_fd o1 \<and> o1 \<noteq> fd \<longrightarrow> watched el' o1 = watched el o1"
  shows "(if watched el fd \<noteq> None \<or> card (dom (slots el)) = 16384
          then portal_event_add el fd events cb ud = (-1, el)
          else fst (portal_event_add el fd events cb ud) = 0 \<and> loop_ok (snd (portal_event_add el fd events cb ud)) \<and>
               watched (snd (portal_event_add el fd events cb ud)) fd = Some \<lparr>ee_fd = fd, ee_events = event_mask events,
                 ee_callback = cb, ee_userdata = ud, ee_active = True\<rparr> \<and>
               same (snd (portal_event_add el fd events cb ud)) o1) \<and>
         (case watched el fd of
            None \<Rightarrow> portal_event_del el fd = (-1, el) \<and> portal_event_modify el fd events = (-1, el)
          | Some e \<Rightarrow>
              fst (portal_event_del el fd) = 0 \<and> loop_ok (snd (portal_event_del el fd)) \<and>
              watched (snd (portal_event_del el fd)) fd = None \<and> same (snd (portal_event_del el fd)) o1 \<and>
              fst (portal_event_modify el fd events) = 0 \<and> loop_ok (snd (portal_event_modify el fd events)) \<and>
              watched (snd (portal_event_modify el fd events)) fd = Some (e\<lparr>ee_fd := fd, ee_events := event_mask events\<rparr>) \<and>
              same (snd (portal_event_modify el fd events)) o1)"
proof -
  have "portal_event_add el fd events cb ud = (-1, el)" if "watched el fd \<noteq> None \<or> card (dom (slots el)) = 16384"
    using that slot_alloc_None [OF assms(1)]
    by (cases "slot_alloc el") (auto simp: portal_event_add_def watched_def)
  moreover have "portal_event_del el fd = (-1, el) \<and> portal_event_modify el fd events = (-1, el)" if "watched el fd = None"
    using that by (simp add: watched_def fd_idx_lookup_def portal_event_del_def portal_event_modify_def)
  ultimately show ?thesis
    using watched_add [OF assms(1,2)] watched_del [OF assms(1,2)] watched_modify [OF assms(1,2)]
    by (simp add: same_def split: option.splits)
qed

theorem fd_table_refines_map_witness:
  "watched (snd (portal_event_add portal_event_init 7 3 (Some 1) None)) 7 =
     Some \<lparr>ee_fd = 7, ee_events = 3, ee_callback = Some 1, ee_userdata = None, ee_active = True\<rparr>"
proof -
  have "watched portal_event_init 7 = None" "card (dom (slots portal_event_init)) = 0"
    by (simp_all add: watched_slots portal_event_init_def ht_ok_init)
  then show ?thesis
    using fd_table_refines_map [OF loop_ok_init, of 7 3 "Some 1" None 0]
    by (simp add: valid_fd_def event_mask_def)
qed

end
