(* ===== verification/Modules.thy ===== *)
theory Modules
  imports Prelude
begin

section \<open>The module table (core_module.c)\<close>

text \<open>
  The registry of \<^verbatim>\<open>src/core/core_module.c\<close> and \<^verbatim>\<open>include/portal/module.h\<close>: the entries
  with their count as a list. The four function pointers of an entry come from one shared
  library, so the entry keeps the number of that library; the dlopen handle is kept apart
  because unloading clears it and leaves the pointers. Loading and unloading run code of the
  library on the whole instance and are defined with the instance.
\<close>

record module_info =
  mi_name :: string
  mi_version :: string
  mi_description :: string

record module_entry =
  me_name :: string
  me_handle :: "nat option"
  me_lib :: "nat option"
  me_info :: "module_info option"
  me_loaded :: bool
  me_use_count :: int
  me_unloading :: bool
  me_msg_count :: "64 word"
  me_last_msg_us :: "64 word"

record module_registry =
  mr_entries :: "module_entry list"
  mr_dir :: string

definition portal_module_registry_init :: "string \<Rightarrow> module_registry" where
  "portal_module_registry_init modules_dir = \<lparr>mr_entries = [], mr_dir = csnprintf PORTAL_MAX_PATH_LEN modules_dir\<rparr>"

text \<open>The index of the loaded entry with this name, otherwise of the first one.\<close>

definition portal_module_find :: "module_registry \<Rightarrow> string \<Rightarrow> nat option" where
  "portal_module_find reg name =
     (case find_index (\<lambda>e. me_name e = name \<and> me_loaded e) (mr_entries reg) of
        Some i \<Rightarrow> Some i
      | None \<Rightarrow> find_index (\<lambda>e. me_name e = name) (mr_entries reg))"

definition portal_module_is_loaded :: "module_registry \<Rightarrow> string \<Rightarrow> bool" where
  "portal_module_is_loaded reg name =
     (case portal_module_find reg name of None \<Rightarrow> False | Some i \<Rightarrow> me_loaded (mr_entries reg ! i))"

definition entry_new :: module_entry where
  "entry_new = \<lparr>me_name = [], me_handle = None, me_lib = None, me_info = None, me_loaded = False,
     me_use_count = 0, me_unloading = False, me_msg_count = 0, me_last_msg_us = 0\<rparr>"

definition entry_fill :: "string \<Rightarrow> nat \<Rightarrow> module_info \<Rightarrow> module_entry \<Rightarrow> module_entry" where
  "entry_fill name lib info e =
     e\<lparr>me_name := csnprintf PORTAL_MAX_MODULE_NAME name, me_handle := Some lib, me_lib := Some lib,
       me_info := Some info, me_loaded := True\<rparr>"

definition module_store :: "module_registry \<Rightarrow> string \<Rightarrow> nat \<Rightarrow> module_info \<Rightarrow> module_registry" where
  "module_store reg name lib info =
     (case portal_module_find reg name of
        Some i \<Rightarrow> reg\<lparr>mr_entries := (mr_entries reg)[i := entry_fill name lib info (mr_entries reg ! i)]\<rparr>
      | None \<Rightarrow> reg\<lparr>mr_entries := mr_entries reg @ [entry_fill name lib info entry_new]\<rparr>)"

definition module_mark :: "module_registry \<Rightarrow> nat \<Rightarrow> (module_entry \<Rightarrow> module_entry) \<Rightarrow> module_registry" where
  "module_mark reg i f = reg\<lparr>mr_entries := (mr_entries reg)[i := f (mr_entries reg ! i)]\<rparr>"

definition entry_clear :: "module_entry \<Rightarrow> module_entry" where
  "entry_clear e = e\<lparr>me_loaded := False, me_unloading := False, me_use_count := 0, me_handle := None\<rparr>"

subsection \<open>One entry per name\<close>

definition modules_ok :: "module_registry \<Rightarrow> bool" where
  "modules_ok reg \<longleftrightarrow> distinct (map me_name (mr_entries reg))"

definition module_of :: "module_registry \<Rightarrow> string \<Rightarrow> module_entry option" where
  "module_of reg name = find (\<lambda>e. me_name e = name) (mr_entries reg)"

lemma find_index_distinct:
  assumes "distinct (map f xs)" "i < length xs"
  shows "find_index (\<lambda>x. f x = f (xs ! i)) xs = Some i"
  using assms by (auto simp: find_index_Some_iff nth_eq_iff_index_eq distinct_conv_nth)

lemma portal_module_find_eq:
  assumes "modules_ok reg"
  shows "portal_module_find reg name = find_index (\<lambda>e. me_name e = name) (mr_entries reg)"
proof (cases "find_index (\<lambda>e. me_name e = name \<and> me_loaded e) (mr_entries reg)")
  case (Some i)
  then have "i < length (mr_entries reg)" "me_name (mr_entries reg ! i) = name" by (auto simp: find_index_Some_iff)
  then show ?thesis
    using Some find_index_distinct [of me_name "mr_entries reg" i] assms by (simp add: portal_module_find_def modules_ok_def)
qed (simp add: portal_module_find_def)

lemma module_of_find:
  "modules_ok reg \<Longrightarrow> module_of reg name = map_option ((!) (mr_entries reg)) (portal_module_find reg name)"
  by (simp add: module_of_def portal_module_find_eq find_index_find)

lemma is_loaded_module_of:
  "modules_ok reg \<Longrightarrow> portal_module_is_loaded reg name \<longleftrightarrow> (\<exists>e. module_of reg name = Some e \<and> me_loaded e)"
  by (auto simp: portal_module_is_loaded_def module_of_find split: option.splits)

lemma map_update_same: "i < length xs \<Longrightarrow> f y = f (xs ! i) \<Longrightarrow> map f (xs[i := y]) = map f xs"
  by (metis list_update_id map_update)

lemma find_update_same_key:
  assumes "distinct (map f xs)" "i < length xs" "f y = f (xs ! i)"
  shows "find (\<lambda>x. f x = k) (xs[i := y]) = (if k = f y then Some y else find (\<lambda>x. f x = k) xs)"
proof -
  have d: "distinct (map f (xs[i := y]))" using assms by (simp add: map_update_same)
  have e: "find_index (\<lambda>x. f x = k) (xs[i := y]) = find_index (\<lambda>x. f x = k) xs" for k
  proof -
    have "f (xs[i := y] ! j) = f (xs ! j)" if "j < length xs" for j using that assms(3) by (cases "j = i") auto
    then have "find_index (\<lambda>x. f x = k) (xs[i := y]) = Some j \<longleftrightarrow> find_index (\<lambda>x. f x = k) xs = Some j" for j
      by (auto simp: find_index_Some_iff)
    then show ?thesis by (metis not_Some_eq)
  qed
  have i: "find_index (\<lambda>x. f x = f y) xs = Some i" using find_index_distinct [OF assms(1,2)] assms(3) by simp
  have "j \<noteq> i" if "find_index (\<lambda>x. f x = k) xs = Some j" "k \<noteq> f y" for j
    using that assms(3) by (auto simp: find_index_Some_iff)
  then show ?thesis
    using i assms(2) by (auto simp: find_index_find e nth_list_update intro!: option.map_cong0)
qed

lemma module_mark_ok:
  assumes "modules_ok reg" "portal_module_find reg name = Some i" "\<And>e. me_name (f e) = me_name e"
  shows "modules_ok (module_mark reg i f)"
    and "module_of (module_mark reg i f) = (module_of reg)(name := map_option f (module_of reg name))"
proof -
  have i: "i < length (mr_entries reg)" "me_name (mr_entries reg ! i) = name"
    using assms(1,2) by (auto simp: portal_module_find_eq find_index_Some_iff)
  show "modules_ok (module_mark reg i f)"
    using assms(1,3) i by (simp add: modules_ok_def module_mark_def map_update_same)
  have "module_of reg name = Some (mr_entries reg ! i)" using assms(1,2) by (simp add: module_of_find)
  then show "module_of (module_mark reg i f) = (module_of reg)(name := map_option f (module_of reg name))"
    using find_update_same_key [of me_name "mr_entries reg" i "f (mr_entries reg ! i)"] assms(1,3) i
    by (auto simp: module_of_def module_mark_def modules_ok_def fun_eq_iff)
qed

lemma module_mark_find:
  assumes "modules_ok reg" "\<And>e. me_name (f e) = me_name e"
  shows "portal_module_find (module_mark reg i f) name = portal_module_find reg name"
proof (cases "i < length (mr_entries reg)")
  case True
  then have names: "map me_name (mr_entries (module_mark reg i f)) = map me_name (mr_entries reg)"
    by (simp add: module_mark_def map_update_same assms(2))
  then have "modules_ok (module_mark reg i f)" using assms(1) by (simp add: modules_ok_def)
  moreover have "find_index (\<lambda>e. me_name e = name) xs = find_index (\<lambda>n. n = name) (map me_name xs)" for xs by (induction xs) auto
  then have "find_index (\<lambda>e. me_name e = name) (mr_entries (module_mark reg i f)) = find_index (\<lambda>e. me_name e = name) (mr_entries reg)"
    using names by metis
  ultimately show ?thesis using assms(1) by (simp add: portal_module_find_eq)
next
  case False
  then show ?thesis by (simp add: module_mark_def list_update_beyond)
qed

lemma module_store_ok:
  assumes "modules_ok reg" "length name < PORTAL_MAX_MODULE_NAME"
  shows "modules_ok (module_store reg name lib info)"
    and "module_of (module_store reg name lib info) =
      (module_of reg)(name \<mapsto> entry_fill name lib info (case module_of reg name of None \<Rightarrow> entry_new | Some e \<Rightarrow> e))"
proof -
  let ?g = "entry_fill name lib info"
  have nm: "me_name (?g e) = name" for e using assms(2) by (simp add: entry_fill_def csnprintf_fits)
  have "modules_ok (module_store reg name lib info) \<and> module_of (module_store reg name lib info) =
      (module_of reg)(name \<mapsto> ?g (case module_of reg name of None \<Rightarrow> entry_new | Some e \<Rightarrow> e))"
  proof (cases "portal_module_find reg name")
    case None
    then have "find (\<lambda>e. me_name e = name) (mr_entries reg) = None"
      using assms(1) by (simp add: portal_module_find_eq find_index_find)
    moreover from this have "name \<notin> set (map me_name (mr_entries reg))" by (auto simp: find_None_iff)
    ultimately show ?thesis
      using None assms(1) nm
      by (auto simp: module_store_def module_of_def modules_ok_def find_append_single fun_eq_iff split: option.splits)
  next
    case (Some i)
    then have i: "i < length (mr_entries reg)" "me_name (mr_entries reg ! i) = name"
      using assms(1) by (auto simp: portal_module_find_eq find_index_Some_iff)
    have "module_of reg name = Some (mr_entries reg ! i)" using assms(1) Some by (simp add: module_of_find)
    then show ?thesis
      using find_update_same_key [of me_name "mr_entries reg" i "?g (mr_entries reg ! i)"] assms(1) i nm Some
      by (auto simp: module_of_def module_store_def modules_ok_def map_update_same fun_eq_iff)
  qed
  then show "modules_ok (module_store reg name lib info)"
    and "module_of (module_store reg name lib info) =
      (module_of reg)(name \<mapsto> entry_fill name lib info (case module_of reg name of None \<Rightarrow> entry_new | Some e \<Rightarrow> e))"
    by blast+
qed

end
