(* ===== verification/Trace.thy ===== *)
theory Trace
  imports Message
begin

section \<open>Message tracing (portal_instance.c)\<close>

text \<open>
  The trace subscribers of \<^verbatim>\<open>src/core/portal_instance.c\<close>: terminals that see every message that
  passes the router. A write is recorded with the descriptor, the bytes in the buffer and the
  length that the call asks for; \<open>write_ok fd\<close> says whether writes to the descriptor succeed.
  The line editor of a terminal belongs to another module and is read through pointers:
  \<open>editor fd\<close> gives the text of its line and its cursor at the time of the call.
\<close>

subsection \<open>Subscribers\<close>

abbreviation (input) TRACE_MAX_SUBS :: nat where "TRACE_MAX_SUBS \<equiv> 8"

record trace_sub =
  ts_fd :: int
  ts_filter :: string
  ts_prompt :: string
  ts_line_buf :: bool
  ts_cursor_pos :: bool
  ts_debug :: bool
  ts_active :: bool

record trace_write =
  tw_fd :: int
  tw_bytes :: string
  tw_len :: nat

definition api_trace_add ::
    "trace_sub list \<Rightarrow> int \<Rightarrow> string \<Rightarrow> string option \<Rightarrow> bool \<Rightarrow> bool \<Rightarrow> bool \<Rightarrow> int \<times> trace_sub list" where
  "api_trace_add subs fd filter_text prompt line_buf cursor_pos debug =
     (case find_index (\<lambda>t. ts_fd t = fd) subs of
        Some i \<Rightarrow>
          (0, subs[i := (subs ! i)\<lparr>ts_filter := csnprintf PORTAL_MAX_PATH_LEN filter_text,
                 ts_prompt := (case prompt of None \<Rightarrow> ts_prompt (subs ! i) | Some p \<Rightarrow> csnprintf 64 p),
                 ts_line_buf := line_buf, ts_cursor_pos := cursor_pos, ts_debug := debug, ts_active := True\<rparr>])
      | None \<Rightarrow>
          if TRACE_MAX_SUBS \<le> length subs then (-1, subs)
          else (0, subs @ [\<lparr>ts_fd = fd, ts_filter = csnprintf PORTAL_MAX_PATH_LEN filter_text,
                 ts_prompt = (case prompt of None \<Rightarrow> [] | Some p \<Rightarrow> csnprintf 64 p),
                 ts_line_buf = line_buf, ts_cursor_pos = cursor_pos, ts_debug = debug, ts_active = True\<rparr>]))"

definition api_trace_del :: "trace_sub list \<Rightarrow> int \<Rightarrow> int \<times> trace_sub list" where
  "api_trace_del subs fd =
     (case find_index (\<lambda>t. ts_fd t = fd) subs of
        None \<Rightarrow> (-1, subs)
      | Some i \<Rightarrow> (0, subs[i := (subs ! i)\<lparr>ts_active := False\<rparr>]))"

subsection \<open>The text of a trace\<close>

definition method_name :: "8 word \<Rightarrow> string" where
  "method_name m =
     [''?'', ''GET'', ''SET'', ''CALL'', ''EVT'', ''SUB'', ''UNSUB'', ''META''] ! (if m < 8 then unat m else 0)"

definition hexd :: "nat \<Rightarrow> char" where
  "hexd n = ''0123456789abcdef'' ! (n mod 16)"

definition ctx_text :: "(portal_ctx \<Rightarrow> string option) \<Rightarrow> portal_msg \<Rightarrow> string" where
  "ctx_text f msg = (case Option.bind (msg_ctx msg) f of None \<Rightarrow> ''-'' | Some s \<Rightarrow> s)"

definition trace_text :: "portal_msg \<Rightarrow> string \<Rightarrow> portal_resp option \<Rightarrow> string" where
  "trace_text msg path resp =
     (let tid = dec (case msg_ctx msg of None \<Rightarrow> 0 | Some c \<Rightarrow> uint (trace_id (ctx_trace c)));
          right = [CHR 0xE2, CHR 0x86, CHR 0x92]; left = [CHR 0xE2, CHR 0x86, CHR 0x90]
      in case resp of
           None \<Rightarrow> right @ '' #'' @ tid @ '' ['' @ method_name (msg_method msg) @ ''] '' @ ctx_text source_module msg @
                   '' '' @ right @ '' '' @ path @ '' (user:'' @ ctx_text (\<lambda>c. auth_user (ctx_auth c)) msg @ '')'' @ [CHR 0x0A]
         | Some r \<Rightarrow> left @ '' #'' @ tid @ '' ['' @ dec (uint (resp_status r)) @ ''] '' @ path @ '' ('' @
                     dec (int (length (resp_body r))) @ '' bytes)'' @ [CHR 0x0A])"

definition hex_line :: "string \<Rightarrow> nat \<Rightarrow> string" where
  "hex_line data off =
     (let row = take 16 (drop off data)
      in ''  '' @ [hexd (off div 4096), hexd (off div 256), hexd (off div 16), hexd off] @ ''  '' @
         concat (map (\<lambda>j. if j < length row then [hexd (of_char (row ! j) div 16), hexd (of_char (row ! j)), CHR '' '']
                          else ''   '') [0..<16]) @ '' '' @
         map (\<lambda>c. if 32 \<le> (of_char c :: nat) \<and> (of_char c :: nat) < 127 then c else CHR ''.'') row @ [CHR 0x0A])"

definition body_dump :: "string \<Rightarrow> string list" where
  "body_dump data =
     map (hex_line (take 80 data)) (filter (\<lambda>off. off < min (length data) 80) [0, 16, 32, 48, 64]) @
     (if 80 < length data then [''  ... +'' @ dec (int (length data - 80)) @ '' bytes'' @ [CHR 0x0A]] else [])"

definition full_write :: "int \<Rightarrow> string \<Rightarrow> trace_write" where
  "full_write fd s = \<lparr>tw_fd = fd, tw_bytes = s, tw_len = length s\<rparr>"

definition redraw :: "(int \<Rightarrow> string \<times> int) \<Rightarrow> trace_sub \<Rightarrow> string list" where
  "redraw editor ts =
     (if ts_prompt ts \<noteq> [] then [ts_prompt ts] else []) @
     (let (line, cursor) = editor (ts_fd ts)
      in if ts_line_buf ts \<and> line \<noteq> [] then
           line # (if ts_cursor_pos ts \<and> cursor < int (length line)
                   then [[CHR 0x1B] @ ''['' @ dec (int (length line) - cursor) @ ''D''] else [])
         else [])"

definition trace_wants :: "string \<Rightarrow> trace_sub \<Rightarrow> bool" where
  "trace_wants path ts \<longleftrightarrow> ts_active ts \<and> \<not> (1 < length (ts_filter ts) \<and> \<not> sublist (ts_filter ts) path)"

definition trace_one ::
    "(int \<Rightarrow> bool) \<Rightarrow> (int \<Rightarrow> string \<times> int) \<Rightarrow> portal_msg \<Rightarrow> string \<Rightarrow> portal_resp option \<Rightarrow> trace_sub \<Rightarrow>
     trace_sub \<times> trace_write list" where
  "trace_one write_ok editor msg path resp ts =
     (if \<not> trace_wants path ts then (ts, [])
      else if \<not> write_ok (ts_fd ts) then (ts\<lparr>ts_active := False\<rparr>, [])
      else let text = trace_text msg path resp;
               data = (case resp of None \<Rightarrow> msg_body msg | Some r \<Rightarrow> resp_body r)
           in (ts, full_write (ts_fd ts) ([CHR 0x0D, CHR 0x1B] @ ''[K'') #
                   \<lparr>tw_fd = ts_fd ts, tw_bytes = csnprintf 512 text, tw_len = length text\<rparr> #
                   map (full_write (ts_fd ts)) ((if ts_debug ts then body_dump data else []) @ redraw editor ts)))"

definition trace_message ::
    "(int \<Rightarrow> bool) \<Rightarrow> (int \<Rightarrow> string \<times> int) \<Rightarrow> trace_sub list \<Rightarrow> portal_msg \<Rightarrow> portal_resp option \<Rightarrow>
     trace_sub list \<times> trace_write list" where
  "trace_message write_ok editor subs msg resp =
     (case msg_path msg of
        None \<Rightarrow> (subs, [])
      | Some path \<Rightarrow>
          (map (\<lambda>ts. fst (trace_one write_ok editor msg path resp ts)) subs,
           concat (map (\<lambda>ts. snd (trace_one write_ok editor msg path resp ts)) subs)))"

lemma trace_message_fds:
  "w \<in> set (snd (trace_message write_ok editor subs msg resp)) \<Longrightarrow>
   \<exists>ts\<in>set subs. \<exists>path. msg_path msg = Some path \<and> trace_wants path ts \<and> tw_fd w = ts_fd ts"
  by (auto simp: trace_message_def trace_one_def full_write_def Let_def split: option.splits if_splits)

end
