(* ===== verification/Reply.thy ===== *)
theory Reply
  imports Message
begin

section \<open>Replies and the faults of C\<close>

text \<open>
  What the request handlers share. A handler that dereferences a NULL string, or passes a buffer
  on with a length beyond its end, has no defined result: its outcome is a \<open>fault\<close>.
  \<open>Killed\<close> is the end of the process in the signal handler, \<open>Too_deep\<close> the exhausted depth of a
  recursive model. A reply
  is built with \<open>snprintf\<close> in a local buffer, or with the growing text of \<open>strbuf_append\<close>
  (\<^verbatim>\<open>src/core/core_handlers.c\<close>), and then copied by \<open>portal_resp_set_body\<close>.
\<close>

datatype fault = Null_deref | Over_read | Over_write | Killed | Too_deep

type_synonym 'a outcome = "fault + 'a"

definition obind :: "'a outcome \<Rightarrow> ('a \<Rightarrow> 'b outcome) \<Rightarrow> 'b outcome" where
  "obind m f = (case m of Inl e \<Rightarrow> Inl e | Inr x \<Rightarrow> f x)"

lemma obind_simps [simp]: "obind (Inl e) f = Inl e" "obind (Inr x) f = f x"
  by (simp_all add: obind_def)

lemma obind_Inr: "obind m f = Inr y \<longleftrightarrow> (\<exists>x. m = Inr x \<and> f x = Inr y)"
  by (cases m) auto

abbreviation (input) NUL :: char where "NUL \<equiv> CHR 0x00"
abbreviation (input) NL :: string where "NL \<equiv> [CHR 0x0A]"

text \<open>\<open>%s\<close> of a NULL pointer prints \<open>(null)\<close> in the C library the program is built with.\<close>

definition fmt_s :: "string option \<Rightarrow> string" where
  "fmt_s s = (case s of None \<Rightarrow> ''(null)'' | Some t \<Rightarrow> t)"

text \<open>
  The first \<open>len\<close> bytes of a buffer of \<open>size_of\<close> bytes after \<open>snprintf\<close> wrote \<open>text\<close> to it; a
  length behind the terminator reads what was never written.
\<close>

definition buf_bytes :: "nat \<Rightarrow> string \<Rightarrow> nat \<Rightarrow> string outcome" where
  "buf_bytes size_of text len =
     (let w = csnprintf size_of text @ [NUL] in if len \<le> length w then Inr (take len w) else Inl Over_read)"

lemma buf_bytes_fits: "length text < n \<Longrightarrow> buf_bytes n text (length text + 1) = Inr (text @ [NUL])"
  by (simp add: buf_bytes_def csnprintf_fits)

lemma buf_bytes_over: "0 < n \<Longrightarrow> n \<le> length text \<Longrightarrow> buf_bytes n text (length text + 1) = Inl Over_read"
  by (simp add: buf_bytes_def csnprintf_def)

subsection \<open>Growing text\<close>

text \<open>
  \<open>sb_text\<close> are the \<open>len\<close> bytes that count, \<open>sb_tail\<close> what a truncated append left behind them.
\<close>

record strbuf =
  sb_text :: string
  sb_tail :: string
  sb_cap :: nat

definition strbuf_new :: "nat \<Rightarrow> strbuf" where
  "strbuf_new cap = \<lparr>sb_text = [], sb_tail = [], sb_cap = cap\<rparr>"

definition strbuf_append :: "string \<Rightarrow> strbuf \<Rightarrow> strbuf" where
  "strbuf_append s sb =
     (let room = sb_cap sb - length (sb_text sb)
      in if 0 < length s \<and> length s < room then sb\<lparr>sb_text := sb_text sb @ s, sb_tail := []\<rparr>
         else sb\<lparr>sb_tail := csnprintf room s\<rparr>)"

text \<open>The \<open>len + 1\<close> bytes that a handler sends: the byte behind the text is not always the NUL.\<close>

definition strbuf_body :: "strbuf \<Rightarrow> string" where
  "strbuf_body sb = sb_text sb @ [if sb_tail sb = [] then NUL else hd (sb_tail sb)]"

definition strbuf_ok :: "strbuf \<Rightarrow> bool" where
  "strbuf_ok sb \<longleftrightarrow> length (sb_text sb) < sb_cap sb \<and> length (sb_text sb) + length (sb_tail sb) < sb_cap sb"

lemma strbuf_ok_new: "0 < n \<Longrightarrow> strbuf_ok (strbuf_new n)"
  by (simp add: strbuf_ok_def strbuf_new_def)

lemma strbuf_ok_append: "strbuf_ok sb \<Longrightarrow> strbuf_ok (strbuf_append s sb)"
  by (auto simp: strbuf_ok_def strbuf_append_def csnprintf_def Let_def)

lemma strbuf_append_cap [simp]: "sb_cap (strbuf_append s sb) = sb_cap sb"
  by (simp add: strbuf_append_def Let_def)

lemma strbuf_fold:
  assumes "strbuf_ok sb"
  shows "strbuf_ok (fold strbuf_append xs sb)" and "sb_cap (fold strbuf_append xs sb) = sb_cap sb"
  using assms by (induction xs arbitrary: sb) (simp_all add: strbuf_ok_append)

text \<open>As long as everything fits, the text is the concatenation of what was appended.\<close>

lemma strbuf_fits:
  assumes "length (sb_text sb) + length (concat xs) < sb_cap sb" "sb_tail sb = []"
  shows "sb_text (fold strbuf_append xs sb) = sb_text sb @ concat xs \<and> sb_tail (fold strbuf_append xs sb) = []"
  using assms
proof (induction xs arbitrary: sb)
  case (Cons x xs)
  have "sb_text (strbuf_append x sb) = sb_text sb @ x" "sb_tail (strbuf_append x sb) = []"
    using Cons.prems by (auto simp: strbuf_append_def csnprintf_def Let_def)
  with Cons.IH [of "strbuf_append x sb"] Cons.prems show ?case by simp
qed simp

subsection \<open>Request headers\<close>

text \<open>
  A header whose key is NULL (an empty string on the wire) is a NULL argument of \<open>strcmp\<close>.
  \<open>get_header\<close> stops at the first match; the loops without \<open>break\<close> compare every key, and the
  last match wins.
\<close>

fun get_header_or :: "portal_header list \<Rightarrow> string \<Rightarrow> string option \<Rightarrow> string option outcome" where
  "get_header_or [] key dflt = Inr dflt"
| "get_header_or ((None, v) # hs) key dflt = Inl Null_deref"
| "get_header_or ((Some k, v) # hs) key dflt = (if k = key then Inr v else get_header_or hs key dflt)"

definition get_header :: "portal_header list \<Rightarrow> string \<Rightarrow> string option outcome" where
  "get_header hs key = get_header_or hs key None"

definition keys_present :: "portal_header list \<Rightarrow> bool" where
  "keys_present hs \<longleftrightarrow> list_all (\<lambda>(k, v). k \<noteq> None) hs"

definition last_header_or :: "portal_header list \<Rightarrow> string \<Rightarrow> string option \<Rightarrow> string option" where
  "last_header_or hs key dflt = fold (\<lambda>(k, v) r. if k = Some key then v else r) hs dflt"

definition last_header :: "portal_header list \<Rightarrow> string \<Rightarrow> string option" where
  "last_header hs key = last_header_or hs key None"

definition all_headers :: "portal_header list \<Rightarrow> 'a outcome \<Rightarrow> 'a outcome" where
  "all_headers hs body = (if keys_present hs then body else Inl Null_deref)"

lemma get_header_present: "keys_present hs \<Longrightarrow> \<exists>v. get_header hs key = Inr v"
  unfolding get_header_def
proof (induction hs)
  case (Cons h hs)
  then show ?case by (cases h; cases "fst h") (auto simp: keys_present_def)
qed simp

end
