(* ===== verification/Mod_Kit.thy ===== *)
theory Mod_Kit
  imports Reply Config Paths
begin

section \<open>What the loadable modules share\<close>

text \<open>
  The handlers of the small modules under \<^verbatim>\<open>src/modules\<close> are functions on the static data of the
  module. A handler returns the code, the response, the new data and the events it emits, in
  order; the core delivers them. It answers from a local buffer with the length that \<open>snprintf\<close>
  returned, and a listing moves its offset by that length, so both can leave the buffer.

  The body of a message has a length and no terminator. A handler that treats it as a string
  reads up to the first NUL in it, or behind it when there is none.
\<close>

type_synonym 's mod_result = "(int \<times> portal_resp \<times> 's \<times> (string \<times> string) list) outcome"

definition m_status :: "16 word \<Rightarrow> int \<Rightarrow> portal_resp \<Rightarrow> 's \<Rightarrow> 's mod_result" where
  "m_status status rc resp s = Inr (rc, portal_resp_set_status resp status, s, [])"

definition m_body ::
    "16 word \<Rightarrow> string \<Rightarrow> int \<Rightarrow> portal_resp \<Rightarrow> 's \<Rightarrow> (string \<times> string) list \<Rightarrow> 's mod_result" where
  "m_body status body rc resp s events =
     Inr (rc, portal_resp_set_body (portal_resp_set_status resp status) body, s, events)"

definition m_text ::
    "nat \<Rightarrow> 16 word \<Rightarrow> string \<Rightarrow> int \<Rightarrow> portal_resp \<Rightarrow> 's \<Rightarrow> (string \<times> string) list \<Rightarrow> 's mod_result" where
  "m_text size_of status text rc resp s events =
     obind (buf_bytes size_of text (length text)) (\<lambda>body. m_body status body rc resp s events)"

lemmas m_defs = m_status_def m_body_def m_text_def

definition body_string :: "string \<Rightarrow> string outcome" where
  "body_string body = (if NUL \<in> set body then Inr (takeWhile (\<lambda>c. c \<noteq> NUL) body) else Inl Over_read)"

text \<open>One piece of a listing in a buffer of \<open>size_of\<close> bytes.\<close>

definition off_append :: "nat \<Rightarrow> string \<Rightarrow> string outcome \<Rightarrow> string outcome" where
  "off_append size_of piece text =
     obind text (\<lambda>t. if size_of < length t then Inl Over_write else Inr (t @ piece))"

text \<open>The pieces of a loop that stops at the first offset of at least \<open>limit\<close>.\<close>

definition off_append_below :: "nat \<Rightarrow> nat \<Rightarrow> string \<Rightarrow> string outcome \<Rightarrow> string outcome" where
  "off_append_below limit size_of piece text =
     obind text (\<lambda>t. if limit \<le> length t then Inr t else off_append size_of piece (Inr t))"

lemma off_append_fits:
  "length t \<le> n \<Longrightarrow> off_append n p (Inr t) = Inr (t @ p)"
  by (simp add: off_append_def)

lemma off_append_fold:
  "length t + length (concat ps) \<le> n \<Longrightarrow> fold (off_append n) ps (Inr t) = Inr (t @ concat ps)"
  by (induction ps arbitrary: t) (simp_all add: off_append_fits)

lemma buf_bytes_whole: "length text < n \<Longrightarrow> buf_bytes n text (length text) = Inr text"
  by (simp add: buf_bytes_def csnprintf_fits)

lemma m_text_fits:
  "length text < n \<Longrightarrow> m_text n status text rc resp s ev =
     Inr (rc, portal_resp_set_body (portal_resp_set_status resp status) text, s, ev)"
  by (simp add: m_defs buf_bytes_whole)

lemma m_text_Inr:
  "m_text n status text rc resp s ev = Inr (rc', r, s', ev') \<Longrightarrow> rc' = rc \<and> s' = s \<and> ev' = ev"
  by (auto simp: m_defs obind_Inr)

text \<open>The first NUL ends the string; a body the sender closed with one is read whole.\<close>

lemma body_string_terminated: "NUL \<notin> set s \<Longrightarrow> body_string (s @ NUL # t) = Inr s"
  by (simp add: body_string_def takeWhile_append)

text \<open>Most requests name what they are about in a header; without it they are refused.\<close>

definition with_header ::
    "string \<Rightarrow> portal_msg \<Rightarrow> portal_resp \<Rightarrow> 's \<Rightarrow> (string \<Rightarrow> 's mod_result) \<Rightarrow> 's mod_result" where
  "with_header key msg resp s body =
     obind (get_header (msg_headers msg) key) (\<lambda>v.
       case v of None \<Rightarrow> m_status PORTAL_BAD_REQUEST (-1) resp s | Some x \<Rightarrow> body x)"

text \<open>A request for a function of a module, as its clients build it.\<close>

definition call_msg :: "string \<Rightarrow> (string \<times> string) list \<Rightarrow> portal_msg" where
  "call_msg path headers =
     \<lparr>msg_id = 1, msg_path = Some path, msg_method = PORTAL_METHOD_CALL,
      msg_headers = map (\<lambda>(k, v). (Some k, Some v)) headers, msg_body = [], msg_ctx = None\<rparr>"

lemma call_msg_simps [simp]:
  "msg_path (call_msg p hs) = Some p" "msg_method (call_msg p hs) = PORTAL_METHOD_CALL" "msg_body (call_msg p hs) = []"
  "msg_ctx (call_msg p hs) = None"
  by (simp_all add: call_msg_def)

lemma call_msg_header [simp]: "get_header (msg_headers (call_msg p hs)) key = Inr (map_of hs key)"
  by (induction hs) (auto simp: call_msg_def get_header_def)

subsection \<open>Invariants of module data\<close>

text \<open>
  \<open>keeps P m\<close>: when the handler returns, the new data satisfies \<open>P\<close>. The rules follow the way
  handlers are put together, so that an invariant of a module is proved branch by branch.
\<close>

definition keeps :: "('s \<Rightarrow> bool) \<Rightarrow> 's mod_result \<Rightarrow> bool" where
  "keeps P m \<longleftrightarrow> (\<forall>rc r s ev. m = Inr (rc, r, s, ev) \<longrightarrow> P s)"

lemma keeps_fault [simp]: "keeps P (Inl e)"
  by (simp add: keeps_def)

lemma keeps_status [simp]: "keeps P (m_status status rc resp s) \<longleftrightarrow> P s"
  by (simp add: keeps_def m_status_def)

lemma keeps_body [simp]: "keeps P (m_body status body rc resp s ev) \<longleftrightarrow> P s"
  by (simp add: keeps_def m_body_def)

lemma keeps_text: "P s \<Longrightarrow> keeps P (m_text n status text rc resp s ev)"
  by (auto simp: keeps_def dest: m_text_Inr)

lemma keeps_obind: "(\<And>x. m = Inr x \<Longrightarrow> keeps P (f x)) \<Longrightarrow> keeps P (obind m f)"
  by (cases m) auto

lemma keeps_if: "(c \<Longrightarrow> keeps P a) \<Longrightarrow> (\<not> c \<Longrightarrow> keeps P b) \<Longrightarrow> keeps P (if c then a else b)"
  by simp

lemma keeps_option: "keeps P a \<Longrightarrow> (\<And>x. v = Some x \<Longrightarrow> keeps P (f x)) \<Longrightarrow> keeps P (case v of None \<Rightarrow> a | Some x \<Rightarrow> f x)"
  by (cases v) simp_all

lemmas keeps_rules = keeps_text keeps_obind

lemma keeps_header: "P s \<Longrightarrow> (\<And>x. get_header (msg_headers msg) key = Inr (Some x) \<Longrightarrow> keeps P (body x)) \<Longrightarrow> keeps P (with_header key msg resp s body)"
  unfolding with_header_def by (intro keeps_obind keeps_option) simp_all

lemma keepsD: "keeps P m \<Longrightarrow> m = Inr (rc, r, s, ev) \<Longrightarrow> P s"
  by (simp add: keeps_def)

subsection \<open>Paths of a module\<close>

text \<open>What \<open>portal_module_load\<close> registers: the path, its access mode and its description.\<close>

type_synonym path_decl = "string \<times> 8 word \<times> string option"

end
