(* ===== verification/Queues.thy ===== *)
theory Queues
  imports Mod_Kit
begin

section \<open>Message queues (mod_queue)\<close>

text \<open>
  \<^verbatim>\<open>modules/mod_queue/mod_queue.c\<close>: up to 64 named queues. The linked list between \<open>head\<close> and \<open>tail\<close>
  is the list \<open>q_items\<close>, head first; \<open>g_count\<close> is the length of the table. A destroyed queue keeps
  its slot.
\<close>

abbreviation (input) QUEUE_MAX_QUEUES :: nat where "QUEUE_MAX_QUEUES \<equiv> 64"
abbreviation (input) QUEUE_MAX_DEPTH :: int where "QUEUE_MAX_DEPTH \<equiv> 10000"

record named_queue =
  q_name :: string
  q_items :: "string list"
  q_depth :: int
  q_max_depth :: int
  q_pushed :: int
  q_popped :: int
  q_active :: bool

record queue_module =
  qm_queues :: "named_queue list"
  qm_default_depth :: int

definition queue_zero :: queue_module where
  "queue_zero = \<lparr>qm_queues = [], qm_default_depth = QUEUE_MAX_DEPTH\<rparr>"

definition find_queue :: "queue_module \<Rightarrow> string \<Rightarrow> nat option" where
  "find_queue s name = find_index (\<lambda>q. q_active q \<and> q_name q = name) (qm_queues s)"

subsection \<open>Loading\<close>

definition queue_load :: "string option \<Rightarrow> queue_module \<Rightarrow> queue_module" where
  "queue_load max_depth s =
     \<lparr>qm_queues = [], qm_default_depth = (case max_depth of None \<Rightarrow> qm_default_depth s | Some v \<Rightarrow> atoi v)\<rparr>"

definition queue_paths :: "path_decl list" where
  "queue_paths =
     [(''/queue/resources/status'', PORTAL_ACCESS_READ, Some ''Message queues: max depth, queue count''),
      (''/queue/resources/list'', PORTAL_ACCESS_READ, Some ''List all queues with depths''),
      (''/queue/functions/create'', PORTAL_ACCESS_RW, Some ''Create queue. Header: name, optional: maxdepth''),
      (''/queue/functions/push'', PORTAL_ACCESS_RW, Some ''Push to queue. Header: name. Body: message''),
      (''/queue/functions/pop'', PORTAL_ACCESS_RW, Some ''Pop from queue. Header: name''),
      (''/queue/functions/peek'', PORTAL_ACCESS_RW, Some ''Peek at queue head. Header: name''),
      (''/queue/functions/destroy'', PORTAL_ACCESS_RW, None)]"

subsection \<open>Requests\<close>

definition queue_status :: "portal_resp \<Rightarrow> queue_module \<Rightarrow> queue_module mod_result" where
  "queue_status resp s =
     (let qs = filter q_active (qm_queues s)
      in m_text 4096 PORTAL_OK
           (''Message Queues'' @ NL @ ''Queues: '' @ dec (int (length qs)) @ NL @
            ''Total pushed: '' @ dec (sum_list (map q_pushed qs)) @ NL @
            ''Total popped: '' @ dec (sum_list (map q_popped qs)) @ NL) 0 resp s [])"

definition queue_line :: "named_queue \<Rightarrow> string" where
  "queue_line q =
     ''  '' @ pad 20 (q_name q) @ '' depth: '' @ dec (q_depth q) @ ''/'' @ dec (q_max_depth q) @
     ''  pushed: '' @ dec (q_pushed q) @ ''  popped: '' @ dec (q_popped q) @ NL"

definition queue_list :: "portal_resp \<Rightarrow> queue_module \<Rightarrow> queue_module mod_result" where
  "queue_list resp s =
     (let text = fold (\<lambda>q. off_append 4096 (queue_line q)) (filter q_active (qm_queues s)) (Inr (''Queues:'' @ NL));
          text = (if qm_queues s = [] then off_append 4096 (''  (none)'' @ NL) text else text)
      in obind text (\<lambda>t. m_text 4096 PORTAL_OK t 0 resp s []))"

definition queue_create :: "string \<Rightarrow> portal_resp \<Rightarrow> queue_module \<Rightarrow> queue_module mod_result" where
  "queue_create name resp s =
     (if find_queue s name \<noteq> None \<or> QUEUE_MAX_QUEUES \<le> length (qm_queues s) then m_status PORTAL_CONFLICT (-1) resp s
      else
        let q = \<lparr>q_name = csnprintf 64 name, q_items = [], q_depth = 0, q_max_depth = qm_default_depth s,
                 q_pushed = 0, q_popped = 0, q_active = True\<rparr>
        in m_text 4096 PORTAL_CREATED (''Queue '' @ [CHR 0x27] @ name @ [CHR 0x27] @ '' created'' @ NL) 0 resp
             (s\<lparr>qm_queues := qm_queues s @ [q]\<rparr>) [])"

text \<open>The data is copied, and read to its end, only when there is room for it.\<close>

definition queue_push :: "string \<Rightarrow> string outcome \<Rightarrow> portal_resp \<Rightarrow> queue_module \<Rightarrow> queue_module mod_result" where
  "queue_push name data resp s =
     (case find_queue s name of
        None \<Rightarrow> m_status PORTAL_NOT_FOUND (-1) resp s
      | Some i \<Rightarrow>
          let q = qm_queues s ! i
          in if q_max_depth q \<le> q_depth q then m_text 4096 PORTAL_CONFLICT (''Queue full'' @ NL) (-1) resp s []
             else obind data (\<lambda>d.
               let q = q\<lparr>q_items := q_items q @ [d], q_depth := q_depth q + 1, q_pushed := q_pushed q + 1\<rparr>
               in m_text 4096 PORTAL_OK (''Pushed (depth: '' @ dec (q_depth q) @ '')'' @ NL) 0 resp
                    (s\<lparr>qm_queues := (qm_queues s)[i := q]\<rparr>) [(''/events/queue/push'', name)]))"

definition queue_pop :: "string \<Rightarrow> portal_resp \<Rightarrow> queue_module \<Rightarrow> queue_module mod_result" where
  "queue_pop name resp s =
     (case find_queue s name of
        None \<Rightarrow> m_status PORTAL_NOT_FOUND (-1) resp s
      | Some i \<Rightarrow>
          let q = qm_queues s ! i
          in case q_items q of
               [] \<Rightarrow> m_body PORTAL_OK (''(empty)'' @ NL) 0 resp s []
             | x # xs \<Rightarrow>
                 m_body PORTAL_OK x 0 resp
                   (s\<lparr>qm_queues := (qm_queues s)[i :=
                        q\<lparr>q_items := xs, q_depth := q_depth q - 1, q_popped := q_popped q + 1\<rparr>]\<rparr>)
                   [(''/events/queue/pop'', name)])"

definition queue_peek :: "string \<Rightarrow> portal_resp \<Rightarrow> queue_module \<Rightarrow> queue_module mod_result" where
  "queue_peek name resp s =
     (case find_queue s name of
        None \<Rightarrow> m_status PORTAL_NOT_FOUND (-1) resp s
      | Some i \<Rightarrow>
          (case q_items (qm_queues s ! i) of
             [] \<Rightarrow> m_body PORTAL_OK (''(empty)'' @ NL) 0 resp s []
           | x # xs \<Rightarrow> m_body PORTAL_OK x 0 resp s []))"

definition queue_destroy :: "string \<Rightarrow> portal_resp \<Rightarrow> queue_module \<Rightarrow> queue_module mod_result" where
  "queue_destroy name resp s =
     (case find_queue s name of
        None \<Rightarrow> m_status PORTAL_NOT_FOUND (-1) resp s
      | Some i \<Rightarrow>
          m_text 4096 PORTAL_OK (''Queue '' @ [CHR 0x27] @ name @ [CHR 0x27] @ '' destroyed'' @ NL) 0 resp
            (s\<lparr>qm_queues := (qm_queues s)[i := (qm_queues s ! i)\<lparr>q_items := [], q_active := False\<rparr>]\<rparr>) [])"

text \<open>A header \<open>data\<close> is a string; the body stands in for it when the header is missing.\<close>

definition handle_push :: "portal_msg \<Rightarrow> portal_resp \<Rightarrow> queue_module \<Rightarrow> queue_module mod_result" where
  "handle_push msg resp s =
     obind (get_header (msg_headers msg) ''name'') (\<lambda>name.
     obind (get_header (msg_headers msg) ''data'') (\<lambda>data.
       case name of
         None \<Rightarrow> m_status PORTAL_BAD_REQUEST (-1) resp s
       | Some n \<Rightarrow>
           (case data of
              Some d \<Rightarrow> queue_push n (Inr d) resp s
            | None \<Rightarrow>
                if msg_body msg = [] then m_status PORTAL_BAD_REQUEST (-1) resp s
                else queue_push n (body_string (msg_body msg)) resp s)))"

definition queue_handle :: "portal_msg \<Rightarrow> portal_resp \<Rightarrow> queue_module \<Rightarrow> queue_module mod_result" where
  "queue_handle msg resp s =
     (case msg_path msg of
        None \<Rightarrow> Inl Null_deref
      | Some path \<Rightarrow>
          if path = ''/queue/resources/status'' then queue_status resp s
          else if path = ''/queue/resources/list'' then queue_list resp s
          else if path = ''/queue/functions/create'' then with_header ''name'' msg resp s (\<lambda>n. queue_create n resp s)
          else if path = ''/queue/functions/push'' then handle_push msg resp s
          else if path = ''/queue/functions/pop'' then with_header ''name'' msg resp s (\<lambda>n. queue_pop n resp s)
          else if path = ''/queue/functions/peek'' then with_header ''name'' msg resp s (\<lambda>n. queue_peek n resp s)
          else if path = ''/queue/functions/destroy'' then with_header ''name'' msg resp s (\<lambda>n. queue_destroy n resp s)
          else m_status PORTAL_NOT_FOUND (-1) resp s)"

subsection \<open>The invariant\<close>

text \<open>
  At most 64 slots; names fit their field; the depth of a queue is the number of its messages,
  which is what went in minus what came out, and it stays within the bound of the queue; the
  bound fits an \<open>int\<close>.
\<close>

definition one_queue_ok :: "named_queue \<Rightarrow> bool" where
  "one_queue_ok q \<longleftrightarrow> length (q_name q) < 64 \<and> q_max_depth q < 2 ^ 31 \<and>
     (q_active q \<longrightarrow> q_depth q = int (length (q_items q)) \<and> q_depth q = q_pushed q - q_popped q \<and> q_depth q \<le> max 0 (q_max_depth q))"

definition queue_ok :: "queue_module \<Rightarrow> bool" where
  "queue_ok s \<longleftrightarrow> length (qm_queues s) \<le> QUEUE_MAX_QUEUES \<and> qm_default_depth s < 2 ^ 31 \<and> list_all one_queue_ok (qm_queues s)"

lemma find_queue_Some:
  assumes "find_queue s name = Some i"
  shows "i < length (qm_queues s)" "q_active (qm_queues s ! i)" "q_name (qm_queues s ! i) = name"
  using assms by (auto simp: find_queue_def find_index_Some_iff)

lemma queue_ok_nth: "queue_ok s \<Longrightarrow> find_queue s name = Some i \<Longrightarrow> one_queue_ok (qm_queues s ! i)"
  using find_queue_Some by (auto simp: queue_ok_def list_all_length)

lemma queue_ok_update: "queue_ok s \<Longrightarrow> one_queue_ok q \<Longrightarrow> queue_ok (s\<lparr>qm_queues := (qm_queues s)[i := q]\<rparr>)"
  by (simp add: queue_ok_def list_all_update)

lemma queue_create_ok: "queue_ok s \<Longrightarrow> keeps queue_ok (queue_create name resp s)"
  by (auto simp: queue_create_def queue_ok_def one_queue_ok_def csnprintf_def Let_def intro!: keeps_rules)

lemma queue_push_ok: "queue_ok s \<Longrightarrow> keeps queue_ok (queue_push name data resp s)"
  using queue_ok_nth [of s name] find_queue_Some [of s name]
  by (auto simp: queue_push_def one_queue_ok_def Let_def split: option.split intro!: keeps_rules queue_ok_update)

lemma queue_pop_ok: "queue_ok s \<Longrightarrow> keeps queue_ok (queue_pop name resp s)"
  using queue_ok_nth [of s name] find_queue_Some [of s name]
  by (auto simp: queue_pop_def one_queue_ok_def Let_def split: option.split list.split intro!: keeps_rules queue_ok_update)

lemma queue_destroy_ok: "queue_ok s \<Longrightarrow> keeps queue_ok (queue_destroy name resp s)"
  using queue_ok_nth [of s name]
  by (auto simp: queue_destroy_def one_queue_ok_def split: option.split intro!: keeps_rules queue_ok_update)

lemmas queue_ops_ok = queue_create_ok queue_push_ok queue_pop_ok queue_destroy_ok

lemma queue_views_ok:
  assumes "queue_ok s"
  shows "keeps queue_ok (queue_status resp s)" "keeps queue_ok (queue_list resp s)" "keeps queue_ok (queue_peek name resp s)"
  using assms by (auto simp: queue_status_def queue_list_def queue_peek_def Let_def split: option.split list.split intro!: keeps_rules)

lemma handle_push_ok: "queue_ok s \<Longrightarrow> keeps queue_ok (handle_push msg resp s)"
  unfolding handle_push_def by (intro keeps_obind keeps_option keeps_if queue_push_ok) simp_all

lemma queue_handle_ok: "queue_ok s \<Longrightarrow> keeps queue_ok (queue_handle msg resp s)"
  unfolding queue_handle_def
  by (intro keeps_option keeps_if queue_ops_ok queue_views_ok keeps_header handle_push_ok) simp_all

inductive queue_reach :: "queue_module \<Rightarrow> bool" where
  load: "(case max_depth of None \<Rightarrow> True | Some v \<Rightarrow> atoi v < 2 ^ 31) \<Longrightarrow> queue_reach (queue_load max_depth queue_zero)"
| handle: "queue_reach s \<Longrightarrow> queue_handle msg resp s = Inr (rc, r, s', ev) \<Longrightarrow> queue_reach s'"

text \<open>
  Property C23. The data of the queue module stays well-formed under every sequence of requests,
  whatever their headers and bodies: at most 64 slots, names that fit their field, and for each
  queue a depth that is the number of waiting messages, equals what was pushed minus what was
  popped and does not exceed the bound of the queue.
\<close>

theorem queues_well_formed:
  assumes "queue_reach s"
  shows "queue_ok s"
  using assms
proof induction
  case (load max_depth)
  then show ?case by (auto simp: queue_load_def queue_zero_def queue_ok_def split: option.splits)
next
  case (handle s msg resp rc r s' ev)
  from keepsD [OF queue_handle_ok [OF handle.IH] handle.hyps(2)] show ?case .
qed

theorem queues_well_formed_witness:
  "queue_reach (queue_load (Some ''25'') queue_zero) \<and> queue_ok (queue_load (Some ''25'') queue_zero)"
proof -
  have "queue_reach (queue_load (Some ''25'') queue_zero)" by (rule queue_reach.load) code_simp
  with queues_well_formed [OF this] show ?thesis by simp
qed

subsection \<open>First in, first out\<close>

text \<open>Sequences of requests that create queues, push and pop, with the response and the events of each.\<close>

datatype queue_op = Create string | Push string string | Pop string

definition queue_request :: "queue_op \<Rightarrow> portal_msg" where
  "queue_request p =
     (case p of
        Create n \<Rightarrow> call_msg ''/queue/functions/create'' [(''name'', n)]
      | Push n d \<Rightarrow> call_msg ''/queue/functions/push'' [(''name'', n), (''data'', d)]
      | Pop n \<Rightarrow> call_msg ''/queue/functions/pop'' [(''name'', n)])"

definition queue_step :: "queue_op \<Rightarrow> queue_module \<Rightarrow> queue_module mod_result" where
  "queue_step p s = queue_handle (queue_request p) portal_resp_alloc s"

lemma queue_step_simps [simp]:
  "queue_step (Create n) s = queue_create n portal_resp_alloc s"
  "queue_step (Push n d) s = queue_push n (Inr d) portal_resp_alloc s"
  "queue_step (Pop n) s = queue_pop n portal_resp_alloc s"
  by (simp_all add: queue_step_def queue_request_def queue_handle_def handle_push_def with_header_def)

fun queue_run ::
    "queue_op list \<Rightarrow> queue_module \<Rightarrow> ((queue_op \<times> portal_resp \<times> (string \<times> string) list) list \<times> queue_module) outcome" where
  "queue_run [] s = Inr ([], s)"
| "queue_run (p # ps) s =
     obind (queue_step p s) (\<lambda>(rc, r, s, ev). obind (queue_run ps s) (\<lambda>(tr, s). Inr ((p, r, ev) # tr, s)))"

text \<open>What a queue holds, what it accepted and what it handed out: a refused request emits no event.\<close>

definition waiting :: "queue_module \<Rightarrow> string \<Rightarrow> string list" where
  "waiting s name = (case find_queue s name of None \<Rightarrow> [] | Some i \<Rightarrow> q_items (qm_queues s ! i))"

fun accepted :: "string \<Rightarrow> queue_op \<times> portal_resp \<times> (string \<times> string) list \<Rightarrow> string list" where
  "accepted name (Push n d, r, ev) = (if n = name \<and> ev \<noteq> [] then [d] else [])"
| "accepted name (Pop n, r, ev) = []"
| "accepted name (Create n, r, ev) = []"

fun handed_out :: "string \<Rightarrow> queue_op \<times> portal_resp \<times> (string \<times> string) list \<Rightarrow> string list" where
  "handed_out name (Pop n, r, ev) = (if n = name \<and> ev \<noteq> [] then [resp_body r] else [])"
| "handed_out name (Push n d, r, ev) = []"
| "handed_out name (Create n, r, ev) = []"

text \<open>The reply to a create request repeats the name and has to fit its buffer.\<close>

fun short_op :: "queue_op \<Rightarrow> bool" where
  "short_op (Create n) = (length n < 4000)"
| "short_op p = True"

lemma find_queue_update:
  assumes "find_queue s name = Some i" "q_name q = name" "q_active q"
  shows "find_queue (s\<lparr>qm_queues := (qm_queues s)[i := q]\<rparr>) = find_queue s"
  using find_queue_Some [OF assms(1)] assms(2,3) by (auto simp: find_queue_def fun_eq_iff intro!: find_index_update_same)

lemma waiting_update:
  assumes "find_queue s name = Some i" "q_name q = name" "q_active q"
  shows "waiting (s\<lparr>qm_queues := (qm_queues s)[i := q]\<rparr>) = (waiting s)(name := q_items q)"
proof
  fix n
  show "waiting (s\<lparr>qm_queues := (qm_queues s)[i := q]\<rparr>) n = ((waiting s)(name := q_items q)) n"
    using find_queue_Some [OF assms(1)] find_queue_Some [of s n] assms(1)
    by (cases "n = name") (auto simp: waiting_def find_queue_update [OF assms] nth_list_update split: option.split)
qed

lemma push_accepted:
  assumes "queue_ok s" "find_queue s n = Some i" "q_depth (qm_queues s ! i) < q_max_depth (qm_queues s ! i)"
  obtains r s' where "queue_push n (Inr d) resp s = Inr (0, r, s', [(''/events/queue/push'', n)])"
    "queue_ok s'" "find_queue s' = find_queue s" "waiting s' = (waiting s)(n := waiting s n @ [d])"
proof -
  let ?q = "qm_queues s ! i"
  let ?q' = "?q\<lparr>q_items := q_items ?q @ [d], q_depth := q_depth ?q + 1, q_pushed := q_pushed ?q + 1\<rparr>"
  let ?s = "s\<lparr>qm_queues := (qm_queues s)[i := ?q']\<rparr>"
  have "\<bar>q_depth ?q + 1\<bar> < 2 ^ 31"
    using queue_ok_nth [OF assms(1,2)] assms(3) find_queue_Some [OF assms(2)] by (simp add: one_queue_ok_def)
  then have "length (dec (q_depth ?q + 1)) < 16" by (rule length_dec)
  then have step: "queue_push n (Inr d) resp s = Inr (0, portal_resp_set_body (portal_resp_set_status resp PORTAL_OK)
      (''Pushed (depth: '' @ dec (q_depth ?q + 1) @ '')'' @ NL), ?s, [(''/events/queue/push'', n)])"
    using assms by (simp add: queue_push_def m_text_fits Let_def)
  have upd: "q_name ?q' = n" "q_active ?q'" using find_queue_Some [OF assms(2)] by simp_all
  have "waiting s n = q_items ?q" using assms(2) by (simp add: waiting_def)
  then have "waiting ?s = (waiting s)(n := waiting s n @ [d])" using waiting_update [OF assms(2) upd] by simp
  from that [OF step keepsD [OF queue_push_ok [OF assms(1)] step] find_queue_update [OF assms(2) upd] this] show thesis .
qed

lemma push_refused:
  assumes "\<And>i. find_queue s n = Some i \<Longrightarrow> q_max_depth (qm_queues s ! i) \<le> q_depth (qm_queues s ! i)"
  shows "\<exists>rc r. queue_push n d resp s = Inr (rc, r, s, [])"
  using assms by (cases "find_queue s n") (simp_all add: queue_push_def m_status_def m_text_fits)

lemma pop_handed_out:
  assumes "queue_ok s" "waiting s n = x # xs"
  obtains r s' where "queue_pop n resp s = Inr (0, r, s', [(''/events/queue/pop'', n)])" "resp_body r = x"
    "queue_ok s'" "find_queue s' = find_queue s" "waiting s' = (waiting s)(n := xs)"
proof -
  obtain i where i: "find_queue s n = Some i" "q_items (qm_queues s ! i) = x # xs"
    using assms(2) by (auto simp: waiting_def split: option.splits)
  let ?q = "qm_queues s ! i"
  let ?q' = "?q\<lparr>q_items := xs, q_depth := q_depth ?q - 1, q_popped := q_popped ?q + 1\<rparr>"
  let ?r = "portal_resp_set_body (portal_resp_set_status resp PORTAL_OK) x"
  let ?s = "s\<lparr>qm_queues := (qm_queues s)[i := ?q']\<rparr>"
  have step: "queue_pop n resp s = Inr (0, ?r, ?s, [(''/events/queue/pop'', n)])"
    using i by (simp add: queue_pop_def m_body_def Let_def)
  have upd: "q_name ?q' = n" "q_active ?q'" using find_queue_Some [OF i(1)] by simp_all
  have "resp_body ?r = x" by (simp add: portal_resp_set_body_def)
  moreover have "waiting ?s = (waiting s)(n := xs)" using waiting_update [OF i(1) upd] by simp
  ultimately show thesis using that [OF step _ keepsD [OF queue_pop_ok [OF assms(1)] step] find_queue_update [OF i(1) upd]] by blast
qed

lemma pop_nothing: "waiting s n = [] \<Longrightarrow> \<exists>rc r. queue_pop n resp s = Inr (rc, r, s, [])"
  by (cases "find_queue s n") (simp_all add: queue_pop_def m_defs waiting_def)

lemma waiting_append:
  assumes "q_items q = []"
  shows "waiting (s\<lparr>qm_queues := qm_queues s @ [q]\<rparr>) = waiting s"
proof
  fix n
  show "waiting (s\<lparr>qm_queues := qm_queues s @ [q]\<rparr>) n = waiting s n"
    using assms find_queue_Some [of s n]
    by (auto simp: waiting_def find_queue_def find_index_append nth_append split: option.splits)
qed

lemma create_keeps_waiting:
  assumes "queue_ok s" "length n < 4000"
  obtains rc r s' where "queue_create n resp s = Inr (rc, r, s', [])" "queue_ok s'" "waiting s' = waiting s"
proof (cases "find_queue s n \<noteq> None \<or> QUEUE_MAX_QUEUES \<le> length (qm_queues s)")
  case True
  then show thesis using assms(1) by (intro that [of "-1" _ s]) (simp_all add: queue_create_def m_status_def)
next
  case False
  let ?q = "\<lparr>q_name = csnprintf 64 n, q_items = [], q_depth = 0, q_max_depth = qm_default_depth s, q_pushed = 0, q_popped = 0,
    q_active = True\<rparr>"
  let ?s = "s\<lparr>qm_queues := qm_queues s @ [?q]\<rparr>"
  have "\<exists>r. queue_create n resp s = Inr (0, r, ?s, [])" using False assms(2) by (simp add: queue_create_def m_text_fits Let_def)
  then obtain r where step: "queue_create n resp s = Inr (0, r, ?s, [])" by blast
  show thesis by (rule that [OF step keepsD [OF queue_create_ok [OF assms(1)] step] waiting_append]) simp
qed

text \<open>One step: it returns, and it either changes nothing and emits nothing or moves one message.\<close>

lemma queue_step_cases:
  assumes "queue_ok s" "short_op p"
  obtains (Idle) rc r s' where "queue_step p s = Inr (rc, r, s', [])" "queue_ok s'" "waiting s' = waiting s"
      "\<And>n. p = Pop n \<Longrightarrow> waiting s n = []"
  | (In) n d rc r s' ev where "p = Push n d" "queue_step p s = Inr (rc, r, s', ev)" "ev \<noteq> []" "queue_ok s'"
      "waiting s' = (waiting s)(n := waiting s n @ [d])"
  | (Out) n x xs rc r s' ev where "p = Pop n" "waiting s n = x # xs" "queue_step p s = Inr (rc, r, s', ev)" "ev \<noteq> []"
      "resp_body r = x" "queue_ok s'" "waiting s' = (waiting s)(n := xs)"
proof (cases p)
  case (Create n)
  have "length n < 4000" using assms(2) by (simp add: Create)
  from create_keeps_waiting [OF assms(1) this, of portal_resp_alloc]
  obtain rc r s' where "queue_create n portal_resp_alloc s = Inr (rc, r, s', [])" "queue_ok s'" "waiting s' = waiting s" .
  then show thesis by (intro Idle [of rc r s']) (simp_all add: Create)
next
  case (Push n d)
  show thesis
  proof (cases "\<exists>i. find_queue s n = Some i \<and> q_depth (qm_queues s ! i) < q_max_depth (qm_queues s ! i)")
    case True
    then obtain i where i: "find_queue s n = Some i" "q_depth (qm_queues s ! i) < q_max_depth (qm_queues s ! i)" by blast
    obtain r s' where "queue_push n (Inr d) portal_resp_alloc s = Inr (0, r, s', [(''/events/queue/push'', n)])"
      "queue_ok s'" "find_queue s' = find_queue s" "waiting s' = (waiting s)(n := waiting s n @ [d])"
      by (rule push_accepted [OF assms(1) i])
    then show thesis by (intro In [OF Push, of 0 r s' "[(''/events/queue/push'', n)]"]) (simp_all add: Push)
  next
    case False
    then have "\<And>i. find_queue s n = Some i \<Longrightarrow> q_max_depth (qm_queues s ! i) \<le> q_depth (qm_queues s ! i)" by force
    then obtain rc r where "queue_push n (Inr d) portal_resp_alloc s = Inr (rc, r, s, [])" using push_refused by blast
    then show thesis using assms(1) by (intro Idle [of rc r s]) (simp_all add: Push)
  qed
next
  case (Pop n)
  show thesis
  proof (cases "waiting s n")
    case Nil
    then obtain rc r where "queue_pop n portal_resp_alloc s = Inr (rc, r, s, [])" using pop_nothing by blast
    then show thesis using Nil assms(1) by (intro Idle [of rc r s]) (simp_all add: Pop)
  next
    case (Cons x xs)
    obtain r s' where "queue_pop n portal_resp_alloc s = Inr (0, r, s', [(''/events/queue/pop'', n)])" "resp_body r = x"
      "queue_ok s'" "find_queue s' = find_queue s" "waiting s' = (waiting s)(n := xs)"
      by (rule pop_handed_out [OF assms(1) Cons])
    then show thesis by (intro Out [OF Pop Cons, of 0 r s' "[(''/events/queue/pop'', n)]"]) (simp_all add: Pop)
  qed
qed

definition pops :: "string \<Rightarrow> queue_op list \<Rightarrow> nat" where
  "pops name ps = length (filter ((=) (Pop name)) ps)"

lemma pops_simps [simp]:
  "pops n [] = 0" "pops n (Create m # ps) = pops n ps" "pops n (Push m d # ps) = pops n ps" "pops n (Pop m # ps) = (if n = m then Suc (pops n ps) else pops n ps)"
  by (simp_all add: pops_def)

lemma queue_run_fifo:
  assumes "queue_ok s" "list_all short_op ps"
  shows "\<exists>tr s'. queue_run ps s = Inr (tr, s') \<and> map fst tr = ps \<and>
    concat (map (handed_out n) tr) @ waiting s' n = waiting s n @ concat (map (accepted n) tr) \<and>
    prefix (take (pops n ps) (waiting s n)) (concat (map (handed_out n) tr))"
  using assms
proof (induction ps arbitrary: s)
  case Nil
  then show ?case by simp
next
  case (Cons p ps)
  have "short_op p" "list_all short_op ps" using Cons.prems(2) by simp_all
  from Cons.prems(1) this(1) show ?case
  proof (cases rule: queue_step_cases [where p = p, consumes 2])
    case (Idle rc r s1)
    obtain tr s' where run: "queue_run ps s1 = Inr (tr, s')" "map fst tr = ps"
      "concat (map (handed_out n) tr) @ waiting s' n = waiting s1 n @ concat (map (accepted n) tr)"
      "prefix (take (pops n ps) (waiting s1 n)) (concat (map (handed_out n) tr))"
      using Cons.IH [OF Idle(2) \<open>list_all short_op ps\<close>] by blast
    then show ?thesis using Idle by (cases p) auto
  next
    case (In m d rc r s1 ev)
    obtain tr s' where run: "queue_run ps s1 = Inr (tr, s')" "map fst tr = ps"
      "concat (map (handed_out n) tr) @ waiting s' n = waiting s1 n @ concat (map (accepted n) tr)"
      "prefix (take (pops n ps) (waiting s1 n)) (concat (map (handed_out n) tr))"
      using Cons.IH [OF In(4) \<open>list_all short_op ps\<close>] by blast
    then show ?thesis using In by (auto dest: append_prefixD split: if_splits)
  next
    case (Out m x xs rc r s1 ev)
    obtain tr s' where run: "queue_run ps s1 = Inr (tr, s')" "map fst tr = ps"
      "concat (map (handed_out n) tr) @ waiting s' n = waiting s1 n @ concat (map (accepted n) tr)"
      "prefix (take (pops n ps) (waiting s1 n)) (concat (map (handed_out n) tr))"
      using Cons.IH [OF Out(6) \<open>list_all short_op ps\<close>] by blast
    then show ?thesis using Out by (auto split: if_splits)
  qed
qed

text \<open>
  Any sequence of create, push and pop requests handled by the queue module returns, and
  for each queue name what was handed out, followed by what still waits, is what waited at the
  start, followed by what was accepted: nothing is lost, repeated, reordered or leaked between
  queues.
\<close>

lemma queue_fifo:
  assumes "queue_ok s" "list_all short_op ps"
  shows "\<exists>tr s'. queue_run ps s = Inr (tr, s') \<and> map fst tr = ps \<and>
    (\<forall>n. concat (map (handed_out n) tr) @ waiting s' n = waiting s n @ concat (map (accepted n) tr))"
proof -
  obtain tr s' where run: "queue_run ps s = Inr (tr, s')" "map fst tr = ps" using queue_run_fifo [OF assms] by blast
  then show ?thesis using queue_run_fifo [OF assms] by auto
qed

definition jobs :: queue_module where
  "jobs = queue_zero\<lparr>qm_queues := [\<lparr>q_name = ''jobs'', q_items = [''a'', ''b''], q_depth = 2, q_max_depth = 2, q_pushed = 3,
     q_popped = 1, q_active = True\<rparr>]\<rparr>"

lemma jobs_ok: "queue_ok jobs"
  by (simp add: jobs_def queue_zero_def queue_ok_def one_queue_ok_def)

text \<open>
  Every message that waits in a queue is handed out, in order: once a sequence of
  requests holds as many pops of the queue as messages waited at its start, whatever pushes and
  pops of any queue and new queues come in between, the first responses to those pops carry exactly them.
\<close>

lemma queue_delivers:
  assumes "queue_ok s" "list_all short_op ps" "length (waiting s n) \<le> pops n ps"
  shows "\<exists>tr s'. queue_run ps s = Inr (tr, s') \<and> prefix (waiting s n) (concat (map (handed_out n) tr))"
  using queue_run_fifo [OF assms(1,2), of n] assms(3) by auto

end
