(* ===== verification/Cache.thy ===== *)
theory Cache
  imports Mod_Kit
begin

section \<open>The cache (mod_cache)\<close>

text \<open>
  \<^verbatim>\<open>modules/mod_cache/mod_cache.c\<close>: a table of \<open>g_max\<close> slots with values that may expire. The clock
  is read once per request (\<open>now\<close>). A freed slot keeps its fields and is not active, so they are
  never read again. The text of the hit rate is floating-point output of the C library; it is the
  parameter \<open>rate\<close>, a function of hits and misses.
\<close>

abbreviation (input) CACHE_DEFAULT_MAX :: int where "CACHE_DEFAULT_MAX \<equiv> 10000"
abbreviation (input) CACHE_DEFAULT_TTL :: int where "CACHE_DEFAULT_TTL \<equiv> 0"

record cache_entry =
  ce_key :: string
  ce_value :: string
  ce_expires :: int
  ce_active :: bool

record cache_module =
  cm_entries :: "cache_entry list"
  cm_max :: int
  cm_count :: int
  cm_hits :: int
  cm_misses :: int
  cm_sets :: int

definition cache_zero :: cache_module where
  "cache_zero = \<lparr>cm_entries = [], cm_max = CACHE_DEFAULT_MAX, cm_count = 0, cm_hits = 0, cm_misses = 0, cm_sets = 0\<rparr>"

subsection \<open>Operations\<close>

definition ce_expired :: "int \<Rightarrow> cache_entry \<Rightarrow> bool" where
  "ce_expired now e \<longleftrightarrow> 0 < ce_expires e \<and> ce_expires e < now"

definition ce_drop :: "cache_entry \<Rightarrow> cache_entry" where
  "ce_drop e = e\<lparr>ce_active := False\<rparr>"

definition cache_find :: "int \<Rightarrow> string \<Rightarrow> cache_module \<Rightarrow> nat option \<times> cache_module" where
  "cache_find now key s =
     (case find_index (\<lambda>e. ce_active e \<and> ce_key e = key) (cm_entries s) of
        None \<Rightarrow> (None, s)
      | Some i \<Rightarrow>
          if ce_expired now (cm_entries s ! i)
          then (None, s\<lparr>cm_entries := (cm_entries s)[i := ce_drop (cm_entries s ! i)], cm_count := cm_count s - 1\<rparr>)
          else (Some i, s))"

definition expires_at :: "int \<Rightarrow> int \<Rightarrow> int" where
  "expires_at now ttl = (if 0 < ttl then now + ttl else 0)"

definition cache_set :: "int \<Rightarrow> string \<Rightarrow> string \<Rightarrow> int \<Rightarrow> cache_module \<Rightarrow> int \<times> cache_module" where
  "cache_set now key val ttl s =
     (case cache_find now key s of
        (Some i, s) \<Rightarrow>
          (0, s\<lparr>cm_entries := (cm_entries s)[i := (cm_entries s ! i)\<lparr>ce_value := val, ce_expires := expires_at now ttl\<rparr>],
                cm_sets := cm_sets s + 1\<rparr>)
      | (None, s) \<Rightarrow>
          if cm_max s \<le> cm_count s then (-1, s)
          else case find_index (\<lambda>e. \<not> ce_active e) (cm_entries s) of
            None \<Rightarrow> (-1, s)
          | Some i \<Rightarrow>
              (0, s\<lparr>cm_entries := (cm_entries s)[i := \<lparr>ce_key = key, ce_value = val, ce_expires = expires_at now ttl, ce_active = True\<rparr>],
                    cm_count := cm_count s + 1, cm_sets := cm_sets s + 1\<rparr>))"

definition cache_get :: "int \<Rightarrow> string \<Rightarrow> cache_module \<Rightarrow> string option \<times> cache_module" where
  "cache_get now key s =
     (case cache_find now key s of
        (Some i, s) \<Rightarrow> (Some (ce_value (cm_entries s ! i)), s\<lparr>cm_hits := cm_hits s + 1\<rparr>)
      | (None, s) \<Rightarrow> (None, s\<lparr>cm_misses := cm_misses s + 1\<rparr>))"

definition cache_del :: "int \<Rightarrow> string \<Rightarrow> cache_module \<Rightarrow> int \<times> cache_module" where
  "cache_del now key s =
     (case cache_find now key s of
        (Some i, s) \<Rightarrow> (0, s\<lparr>cm_entries := (cm_entries s)[i := ce_drop (cm_entries s ! i)], cm_count := cm_count s - 1\<rparr>)
      | (None, s) \<Rightarrow> (-1, s))"

definition cache_flush :: "cache_module \<Rightarrow> cache_module" where
  "cache_flush s = s\<lparr>cm_entries := map (\<lambda>e. if ce_active e then ce_drop e else e) (cm_entries s), cm_count := 0\<rparr>"

definition cache_cleanup :: "int \<Rightarrow> cache_module \<Rightarrow> int \<times> cache_module" where
  "cache_cleanup now s =
     (let gone = (\<lambda>e. ce_active e \<and> ce_expired now e);
          cleaned = int (length (filter gone (cm_entries s)))
      in (cleaned, s\<lparr>cm_entries := map (\<lambda>e. if gone e then ce_drop e else e) (cm_entries s), cm_count := cm_count s - cleaned\<rparr>))"

subsection \<open>Loading and requests\<close>

definition cache_load :: "string option \<Rightarrow> cache_module \<Rightarrow> cache_module" where
  "cache_load max_entries s =
     (let n = (case max_entries of None \<Rightarrow> cm_max s | Some v \<Rightarrow> atoi v);
          n = (if n < 1 then CACHE_DEFAULT_MAX else n)
      in \<lparr>cm_entries = replicate (nat n) \<lparr>ce_key = [], ce_value = [], ce_expires = 0, ce_active = False\<rparr>,
          cm_max = n, cm_count = 0, cm_hits = 0, cm_misses = 0, cm_sets = 0\<rparr>)"

definition cache_paths :: "path_decl list" where
  "cache_paths =
     [(''/cache/resources/status'', PORTAL_ACCESS_READ, Some ''Cache stats: entries, hits, misses, memory''),
      (''/cache/resources/keys'', PORTAL_ACCESS_READ, Some ''List all cache keys with TTL''),
      (''/cache/functions/get'', PORTAL_ACCESS_RW, Some ''Get cache value. Header: key''),
      (''/cache/functions/set'', PORTAL_ACCESS_RW, Some ''Set cache key. Headers: key, value, optional: ttl (seconds)''),
      (''/cache/functions/del'', PORTAL_ACCESS_RW, Some ''Delete cache key. Header: key''),
      (''/cache/functions/flush'', PORTAL_ACCESS_RW, Some ''Clear all cache entries'')]"

definition cache_status :: "int \<Rightarrow> (int \<Rightarrow> int \<Rightarrow> string) \<Rightarrow> portal_resp \<Rightarrow> cache_module \<Rightarrow> cache_module mod_result" where
  "cache_status now rate resp s =
     (let s = snd (cache_cleanup now s)
      in m_text 8192 PORTAL_OK
           (''Cache Status'' @ NL @ ''Entries: '' @ dec (cm_count s) @ '' / '' @ dec (cm_max s) @ NL @
            ''Hits: '' @ dec (cm_hits s) @ NL @ ''Misses: '' @ dec (cm_misses s) @ NL @ ''Sets: '' @ dec (cm_sets s) @ NL @
            ''Hit rate: '' @ rate (cm_hits s) (cm_misses s) @ ''%'' @ NL) 0 resp s [])"

definition cache_keys :: "portal_resp \<Rightarrow> cache_module \<Rightarrow> cache_module mod_result" where
  "cache_keys resp s =
     obind (fold (\<lambda>e. off_append_below (8192 - 128) 8192 (ce_key e @ NL)) (filter ce_active (cm_entries s)) (Inr []))
       (\<lambda>t. m_text 8192 PORTAL_OK (if t = [] then ''(empty)'' @ NL else t) 0 resp s [])"

definition cache_do_get :: "int \<Rightarrow> string \<Rightarrow> portal_resp \<Rightarrow> cache_module \<Rightarrow> cache_module mod_result" where
  "cache_do_get now key resp s =
     (case cache_get now key s of
        (Some v, s) \<Rightarrow> m_body PORTAL_OK v 0 resp s []
      | (None, s) \<Rightarrow> m_text 8192 PORTAL_NOT_FOUND (''Key not found: '' @ key @ NL) 0 resp s [])"

definition cache_do_set ::
    "int \<Rightarrow> string \<Rightarrow> string \<Rightarrow> string option \<Rightarrow> portal_resp \<Rightarrow> cache_module \<Rightarrow> cache_module mod_result" where
  "cache_do_set now key val ttl_s resp s =
     (case cache_set now key val (case ttl_s of None \<Rightarrow> CACHE_DEFAULT_TTL | Some t \<Rightarrow> atoi t) s of
        (rc, s) \<Rightarrow>
          if rc = 0 then m_text 8192 PORTAL_OK (''OK'' @ NL) 0 resp s [(''/events/cache/set'', key)]
          else m_text 8192 PORTAL_INTERNAL_ERROR (''Cache full'' @ NL) 0 resp s [])"

definition handle_set :: "int \<Rightarrow> portal_msg \<Rightarrow> portal_resp \<Rightarrow> cache_module \<Rightarrow> cache_module mod_result" where
  "handle_set now msg resp s =
     obind (get_header (msg_headers msg) ''key'') (\<lambda>key.
     obind (get_header (msg_headers msg) ''value'') (\<lambda>val.
     obind (get_header (msg_headers msg) ''ttl'') (\<lambda>ttl_s.
       case key of
         None \<Rightarrow> m_status PORTAL_BAD_REQUEST (-1) resp s
       | Some k \<Rightarrow>
           (case val of None \<Rightarrow> m_status PORTAL_BAD_REQUEST (-1) resp s | Some v \<Rightarrow> cache_do_set now k v ttl_s resp s))))"

definition cache_handle ::
    "int \<Rightarrow> (int \<Rightarrow> int \<Rightarrow> string) \<Rightarrow> portal_msg \<Rightarrow> portal_resp \<Rightarrow> cache_module \<Rightarrow> cache_module mod_result" where
  "cache_handle now rate msg resp s =
     (case msg_path msg of
        None \<Rightarrow> Inl Null_deref
      | Some path \<Rightarrow>
          if path = ''/cache/resources/status'' then cache_status now rate resp s
          else if path = ''/cache/resources/keys'' then cache_keys resp s
          else if path = ''/cache/functions/get'' then with_header ''key'' msg resp s (\<lambda>k. cache_do_get now k resp s)
          else if path = ''/cache/functions/set'' then handle_set now msg resp s
          else if path = ''/cache/functions/del'' then with_header ''key'' msg resp s (\<lambda>k.
            m_text 8192 PORTAL_OK (''Deleted'' @ NL) 0 resp (snd (cache_del now k s)) [(''/events/cache/del'', k)])
          else if path = ''/cache/functions/flush'' then
            m_text 8192 PORTAL_OK (''Flushed'' @ NL) 0 resp (cache_flush s) [(''/events/cache/flush'', ''all'')]
          else m_status PORTAL_NOT_FOUND (-1) resp s)"

subsection \<open>The abstract cache\<close>

text \<open>
  What the table stores, as a finite map from keys to values with their expiry (0 for never), and
  what of it is alive at a time. \<open>cache_ok\<close> says that the slots really represent such a map:
  no key is cached twice, and the counter is the number of used slots.
\<close>

definition used_slots :: "cache_entry list \<Rightarrow> (string \<times> string \<times> int) list" where
  "used_slots es = map (\<lambda>e. (ce_key e, ce_value e, ce_expires e)) (filter ce_active es)"

definition cached :: "cache_module \<Rightarrow> string \<Rightarrow> (string \<times> int) option" where
  "cached s = map_of (used_slots (cm_entries s))"

definition alive :: "int \<Rightarrow> (string \<Rightarrow> (string \<times> int) option) \<Rightarrow> string \<Rightarrow> string option" where
  "alive now m key = (case m key of None \<Rightarrow> None | Some (v, e) \<Rightarrow> if 0 < e \<and> e < now then None else Some v)"

definition cache_ok :: "cache_module \<Rightarrow> bool" where
  "cache_ok s \<longleftrightarrow> distinct (map fst (used_slots (cm_entries s))) \<and> cm_count s = int (length (used_slots (cm_entries s))) \<and>
     cm_max s = int (length (cm_entries s))"

lemma used_slots_split:
  assumes "i < length es"
  shows "used_slots es = used_slots (take i es) @ used_slots [es ! i] @ used_slots (drop (Suc i) es)"
    and "used_slots (es[i := e]) = used_slots (take i es) @ used_slots [e] @ used_slots (drop (Suc i) es)"
proof -
  show "used_slots es = used_slots (take i es) @ used_slots [es ! i] @ used_slots (drop (Suc i) es)"
    unfolding used_slots_def by (subst id_take_nth_drop [OF assms]) simp
  show "used_slots (es[i := e]) = used_slots (take i es) @ used_slots [e] @ used_slots (drop (Suc i) es)"
    by (simp add: used_slots_def upd_conv_take_nth_drop [OF assms])
qed

lemma slots_single: "used_slots [e] = (if ce_active e then [(ce_key e, ce_value e, ce_expires e)] else [])"
  by (simp add: used_slots_def)

lemma slots_Nil: "used_slots [] = []"
  by (simp add: used_slots_def)

lemma slots_Cons: "used_slots (e # es) = (if ce_active e then (ce_key e, ce_value e, ce_expires e) # used_slots es else used_slots es)"
  by (simp add: used_slots_def)

lemma find_active_None:
  "find_index (\<lambda>e. ce_active e \<and> ce_key e = key) es = None \<longleftrightarrow> key \<notin> fst ` set (used_slots es)"
  by (auto simp: find_index_None_iff used_slots_def image_image)

lemma map_of_middle:
  assumes "distinct (map fst (xs @ (k, w) # ys))"
  shows "map_of (xs @ (k, w') # ys) = (map_of (xs @ (k, w) # ys))(k \<mapsto> w')"
    and "map_of (xs @ ys) = (map_of (xs @ (k, w) # ys))(k := None)"
proof -
  have "map_of xs k = None" "map_of ys k = None" using assms by (auto simp: map_of_eq_None_iff)
  then show "map_of (xs @ (k, w') # ys) = (map_of (xs @ (k, w) # ys))(k \<mapsto> w')"
    and "map_of (xs @ ys) = (map_of (xs @ (k, w) # ys))(k := None)"
    by (auto simp: fun_eq_iff map_add_def split: option.splits)
qed

lemma map_of_insert_middle:
  "k \<notin> fst ` set (xs @ ys) \<Longrightarrow> map_of (xs @ (k, w) # ys) = (map_of (xs @ ys))(k \<mapsto> w)"
proof -
  assume "k \<notin> fst ` set (xs @ ys)"
  then have "map_of xs k = None" "map_of ys k = None" by (auto simp: map_of_eq_None_iff)
  then show ?thesis by (auto simp: fun_eq_iff map_add_def split: option.splits)
qed

text \<open>The three ways a slot changes: a new value for its key, its release, and its use for a new key.\<close>

lemma slot_overwrite:
  assumes "cache_ok s" "i < length (cm_entries s)" "ce_active (cm_entries s ! i)" "ce_key (cm_entries s ! i) = k"
    "ce_active e" "ce_key e = k"
  shows "cache_ok (s\<lparr>cm_entries := (cm_entries s)[i := e]\<rparr>)"
    and "cached (s\<lparr>cm_entries := (cm_entries s)[i := e]\<rparr>) = (cached s)(k \<mapsto> (ce_value e, ce_expires e))"
  using assms used_slots_split [OF assms(2)]
    map_of_middle(1) [of "used_slots (take i (cm_entries s))" k "(ce_value (cm_entries s ! i), ce_expires (cm_entries s ! i))"
      "used_slots (drop (Suc i) (cm_entries s))" "(ce_value e, ce_expires e)"]
  by (simp_all add: cache_ok_def cached_def slots_single)

lemma slot_release:
  assumes "cache_ok s" "i < length (cm_entries s)" "ce_active (cm_entries s ! i)" "ce_key (cm_entries s ! i) = k"
  shows "cache_ok (s\<lparr>cm_entries := (cm_entries s)[i := ce_drop (cm_entries s ! i)], cm_count := cm_count s - 1\<rparr>)"
    and "cached (s\<lparr>cm_entries := (cm_entries s)[i := ce_drop (cm_entries s ! i)], cm_count := cm_count s - 1\<rparr>) =
      (cached s)(k := None)"
  using assms used_slots_split [OF assms(2)]
    map_of_middle(2) [of "used_slots (take i (cm_entries s))" k "(ce_value (cm_entries s ! i), ce_expires (cm_entries s ! i))"
      "used_slots (drop (Suc i) (cm_entries s))"]
  by (simp_all add: cache_ok_def cached_def slots_single ce_drop_def)

lemma slot_fill:
  assumes "cache_ok s" "i < length (cm_entries s)" "\<not> ce_active (cm_entries s ! i)" "cached s k = None"
    "ce_active e" "ce_key e = k"
  shows "cache_ok (s\<lparr>cm_entries := (cm_entries s)[i := e], cm_count := cm_count s + 1\<rparr>)"
    and "cached (s\<lparr>cm_entries := (cm_entries s)[i := e], cm_count := cm_count s + 1\<rparr>) = (cached s)(k \<mapsto> (ce_value e, ce_expires e))"
proof -
  let ?a = "used_slots (take i (cm_entries s))" and ?b = "used_slots (drop (Suc i) (cm_entries s))"
  have eq: "used_slots (cm_entries s) = ?a @ ?b" "used_slots ((cm_entries s)[i := e]) = ?a @ (k, ce_value e, ce_expires e) # ?b"
    using used_slots_split [OF assms(2)] assms(3,5,6) by (simp_all add: slots_single)
  have "k \<notin> fst ` set (?a @ ?b)" using assms(4) by (simp only: cached_def eq map_of_eq_None_iff) simp
  then show "cache_ok (s\<lparr>cm_entries := (cm_entries s)[i := e], cm_count := cm_count s + 1\<rparr>)"
    and "cached (s\<lparr>cm_entries := (cm_entries s)[i := e], cm_count := cm_count s + 1\<rparr>) = (cached s)(k \<mapsto> (ce_value e, ce_expires e))"
    using assms(1) map_of_insert_middle [of k ?a ?b] by (simp_all add: cache_ok_def cached_def eq image_Un)
qed

subsection \<open>The operations on the abstract cache\<close>

text \<open>A lookup releases the slot of an expired value, which changes nothing that is alive now or later.\<close>

lemma cache_find_cases:
  assumes "cache_ok s"
  obtains (Hit) i v e where "cache_find now k s = (Some i, s)" "cached s k = Some (v, e)" "alive now (cached s) k = Some v"
      "i < length (cm_entries s)" "ce_active (cm_entries s ! i)" "ce_key (cm_entries s ! i) = k" "ce_value (cm_entries s ! i) = v"
  | (Miss) s' where "cache_find now k s = (None, s')" "cache_ok s'" "cached s' = (cached s)(k := None)" "alive now (cached s) k = None"
      "cm_max s' = cm_max s" "length (cm_entries s') = length (cm_entries s)"
proof (cases "find_index (\<lambda>e. ce_active e \<and> ce_key e = k) (cm_entries s)")
  case None
  then have "cached s k = None" using find_active_None [of k "cm_entries s"] by (simp add: cached_def map_of_eq_None_iff)
  with None show thesis by (intro Miss [of s]) (simp_all add: assms cache_find_def alive_def fun_upd_idem)
next
  case (Some i)
  let ?e = "cm_entries s ! i"
  have i: "i < length (cm_entries s)" "ce_active ?e" "ce_key ?e = k" using find_index_SomeD [OF Some] by auto
  have st: "cached s k = Some (ce_value ?e, ce_expires ?e)"
    using fun_cong [OF slot_overwrite(2) [OF assms i i(2,3)], of k] by simp
  show thesis
  proof (cases "ce_expired now ?e")
    case True
    with Some show thesis
      by (intro Miss [OF _ slot_release [OF assms i]]) (simp_all add: cache_find_def alive_def st ce_expired_def)
  next
    case False
    with Some i st show thesis by (intro Hit) (auto simp: cache_find_def alive_def ce_expired_def)
  qed
qed

lemma cache_get_spec:
  assumes "cache_ok s" "cache_get now k s = (r, s')"
  shows "cache_ok s'" "r = alive now (cached s) k"
    "cached s' = (if r = None then (cached s)(k := None) else cached s)"
  using assms
  by (cases rule: cache_find_cases [where now = now and k = k, consumes 1];
      auto simp: cache_get_def cache_ok_def cached_def)+

lemma slots_full: "length (used_slots es) < length es \<Longrightarrow> \<exists>i. find_index (\<lambda>e. \<not> ce_active e) es = Some i"
proof (rule ccontr)
  assume "length (used_slots es) < length es" "\<nexists>i. find_index (\<lambda>e. \<not> ce_active e) es = Some i"
  then have "find_index (\<lambda>e. \<not> ce_active e) es = None" by simp
  then have "filter ce_active es = es" by (auto simp: find_index_None_iff filter_id_conv)
  with \<open>length (used_slots es) < length es\<close> show False by (simp add: used_slots_def)
qed

text \<open>A set is refused only when every slot is in use and the key is not alive.\<close>

lemma cache_ok_counters [simp]:
  "cache_ok (s\<lparr>cm_sets := n\<rparr>) = cache_ok s" "cached (s\<lparr>cm_sets := n\<rparr>) = cached s"
  "cache_ok (s\<lparr>cm_hits := n\<rparr>) = cache_ok s" "cached (s\<lparr>cm_hits := n\<rparr>) = cached s"
  "cache_ok (s\<lparr>cm_misses := n\<rparr>) = cache_ok s" "cached (s\<lparr>cm_misses := n\<rparr>) = cached s"
  by (simp_all add: cache_ok_def cached_def)

lemma cache_set_cases:
  assumes "cache_ok s"
  obtains (Done) s' where "cache_set now k v ttl s = (0, s')" "cache_ok s'" "cached s' = (cached s)(k \<mapsto> (v, expires_at now ttl))"
  | (Full) s' where "cache_set now k v ttl s = (-1, s')" "cache_ok s'" "cached s' = (cached s)(k := None)"
      "alive now (cached s) k = None" "cm_count s' = cm_max s'"
  using assms
proof (cases rule: cache_find_cases [where now = now and k = k, consumes 1])
  case (Hit i w e)
  let ?e = "(cm_entries s ! i)\<lparr>ce_value := v, ce_expires := expires_at now ttl\<rparr>"
  have "ce_active ?e" "ce_key ?e = k" using Hit by simp_all
  note up = slot_overwrite [OF assms Hit(4-6) this]
  have "cache_set now k v ttl s = (0, s\<lparr>cm_entries := (cm_entries s)[i := ?e], cm_sets := cm_sets s + 1\<rparr>)"
    using Hit(1) by (simp add: cache_set_def)
  from Done [OF this] up show thesis by simp
next
  case (Miss s1)
  let ?e = "\<lparr>ce_key = k, ce_value = v, ce_expires = expires_at now ttl, ce_active = True\<rparr>"
  show thesis
  proof (cases "cm_max s1 \<le> cm_count s1")
    case True
    moreover have "cm_count s1 \<le> cm_max s1" using Miss(2) by (simp add: cache_ok_def used_slots_def)
    ultimately show thesis using Miss by (intro Full [of s1]) (simp_all add: cache_set_def)
  next
    case False
    then obtain i where i: "find_index (\<lambda>e. \<not> ce_active e) (cm_entries s1) = Some i"
      using slots_full [of "cm_entries s1"] Miss(2) by (auto simp: cache_ok_def)
    have "cached s1 k = None" "ce_active ?e" "ce_key ?e = k" using Miss(3) by simp_all
    note up = slot_fill [OF Miss(2) _ _ this, of i]
    have "cache_set now k v ttl s =
        (0, s1\<lparr>cm_entries := (cm_entries s1)[i := ?e], cm_count := cm_count s1 + 1, cm_sets := cm_sets s1 + 1\<rparr>)"
      using False i Miss(1) by (simp add: cache_set_def)
    from Done [OF this] up find_index_SomeD [OF i] Miss(3) show thesis by simp
  qed
qed

lemma cache_del_spec:
  assumes "cache_ok s"
  shows "cache_ok (snd (cache_del now k s))" "cached (snd (cache_del now k s)) = (cached s)(k := None)"
  using assms slot_release [OF assms]
  by (cases rule: cache_find_cases [where now = now and k = k, consumes 1]; simp add: cache_del_def)+

lemma cache_flush_spec:
  assumes "cache_ok s"
  shows "cache_ok (cache_flush s)" "cached (cache_flush s) = Map.empty"
proof -
  have "used_slots (map (\<lambda>e. if ce_active e then ce_drop e else e) es) = []" for es
    by (auto simp: used_slots_def filter_empty_conv ce_drop_def)
  then show "cache_ok (cache_flush s)" "cached (cache_flush s) = Map.empty"
    using assms by (simp_all add: cache_flush_def cache_ok_def cached_def)
qed

lemma slots_cleanup:
  fixes now :: int
  defines "gone \<equiv> \<lambda>e. ce_active e \<and> ce_expired now e"
  shows "used_slots (map (\<lambda>e. if gone e then ce_drop e else e) es) = filter (\<lambda>(k, v, e). \<not> (0 < e \<and> e < now)) (used_slots es)"
    and "length (used_slots (map (\<lambda>e. if gone e then ce_drop e else e) es)) + length (filter gone es) = length (used_slots es)"
  by (induction es) (auto simp: slots_Nil slots_Cons gone_def ce_drop_def ce_expired_def)

lemma cache_cleanup_ok:
  assumes "cache_ok s"
  shows "cache_ok (snd (cache_cleanup now s))"
  using assms slots_cleanup [of now "cm_entries s"]
  by (auto simp: cache_ok_def cache_cleanup_def Let_def distinct_map_filter)

subsection \<open>The invariant\<close>

lemma cache_do_get_ok: "cache_ok s \<Longrightarrow> keeps cache_ok (cache_do_get now key resp s)"
  using cache_get_spec(1) [of s now key "fst (cache_get now key s)" "snd (cache_get now key s)"]
  by (auto simp: cache_do_get_def split: prod.split option.split intro!: keeps_text)

lemma cache_do_set_ok: "cache_ok s \<Longrightarrow> keeps cache_ok (cache_do_set now key val ttl_s resp s)"
  unfolding cache_do_set_def
  by (cases rule: cache_set_cases [of s now key val "case ttl_s of None \<Rightarrow> CACHE_DEFAULT_TTL | Some t \<Rightarrow> atoi t"])
     (auto intro: keeps_text)

lemma handle_set_ok: "cache_ok s \<Longrightarrow> keeps cache_ok (handle_set now msg resp s)"
  unfolding handle_set_def by (intro keeps_obind keeps_option cache_do_set_ok) simp_all

lemma cache_views_ok:
  assumes "cache_ok s"
  shows "keeps cache_ok (cache_status now rate resp s)" "keeps cache_ok (cache_keys resp s)"
  using assms cache_cleanup_ok [OF assms] by (auto simp: cache_status_def cache_keys_def Let_def intro!: keeps_rules)

lemma cache_handle_ok: "cache_ok s \<Longrightarrow> keeps cache_ok (cache_handle now rate msg resp s)"
  unfolding cache_handle_def
  by (intro keeps_option keeps_if keeps_header keeps_text cache_do_get_ok handle_set_ok cache_views_ok cache_del_spec cache_flush_spec)
     simp_all

lemma cache_load_ok: "cache_ok (cache_load max_entries s)"
  by (simp add: cache_load_def cache_ok_def used_slots_def Let_def)

subsection \<open>The cache as a timed map\<close>

datatype cache_op = CSet string string "string option" | CGet string | CDel string | CFlush

definition cache_request :: "cache_op \<Rightarrow> portal_msg" where
  "cache_request p =
     (case p of
        CSet k v ttl \<Rightarrow>
          call_msg ''/cache/functions/set'' ([(''key'', k), (''value'', v)] @ (case ttl of None \<Rightarrow> [] | Some t \<Rightarrow> [(''ttl'', t)]))
      | CGet k \<Rightarrow> call_msg ''/cache/functions/get'' [(''key'', k)]
      | CDel k \<Rightarrow> call_msg ''/cache/functions/del'' [(''key'', k)]
      | CFlush \<Rightarrow> call_msg ''/cache/functions/flush'' [])"

definition cache_step :: "int \<Rightarrow> (int \<Rightarrow> int \<Rightarrow> string) \<Rightarrow> cache_op \<Rightarrow> cache_module \<Rightarrow> cache_module mod_result" where
  "cache_step now rate p s = cache_handle now rate (cache_request p) portal_resp_alloc s"

lemma cache_step_simps:
  "cache_step now rate (CSet k v ttl) s = cache_do_set now k v ttl portal_resp_alloc s"
  "cache_step now rate (CGet k) s = cache_do_get now k portal_resp_alloc s"
  "cache_step now rate (CDel k) s =
     m_text 8192 PORTAL_OK (''Deleted'' @ NL) 0 portal_resp_alloc (snd (cache_del now k s)) [(''/events/cache/del'', k)]"
  "cache_step now rate CFlush s =
     m_text 8192 PORTAL_OK (''Flushed'' @ NL) 0 portal_resp_alloc (cache_flush s) [(''/events/cache/flush'', ''all'')]"
  by (simp_all add: cache_step_def cache_request_def cache_handle_def handle_set_def with_header_def split: option.split)

fun cache_run ::
    "(int \<Rightarrow> int \<Rightarrow> string) \<Rightarrow> (int \<times> cache_op) list \<Rightarrow> cache_module \<Rightarrow>
     ((int \<times> cache_op \<times> portal_resp) list \<times> cache_module) outcome" where
  "cache_run rate [] s = Inr ([], s)"
| "cache_run rate ((now, p) # ps) s =
     obind (cache_step now rate p s) (\<lambda>(rc, r, s, ev). obind (cache_run rate ps s) (\<lambda>(tr, s). Inr ((now, p, r) # tr, s)))"

text \<open>The contract: what a response says about the abstract map, and what the map is afterwards.\<close>

fun answers :: "int \<Rightarrow> cache_op \<Rightarrow> portal_resp \<Rightarrow> (string \<Rightarrow> (string \<times> int) option) \<Rightarrow> bool" where
  "answers now (CGet k) r m =
     (case alive now m k of Some v \<Rightarrow> resp_status r = PORTAL_OK \<and> resp_body r = v | None \<Rightarrow> resp_status r = PORTAL_NOT_FOUND)"
| "answers now (CSet k v ttl) r m =
     (if alive now m k = None then resp_status r = PORTAL_OK \<or> resp_status r = PORTAL_INTERNAL_ERROR else resp_status r = PORTAL_OK)"
| "answers now p r m = (resp_status r = PORTAL_OK)"

fun timed_map ::
    "int \<Rightarrow> cache_op \<Rightarrow> portal_resp \<Rightarrow> (string \<Rightarrow> (string \<times> int) option) \<Rightarrow> string \<Rightarrow> (string \<times> int) option" where
  "timed_map now (CSet k v ttl) r m =
     (if resp_status r = PORTAL_OK then m(k \<mapsto> (v, expires_at now (case ttl of None \<Rightarrow> 0 | Some t \<Rightarrow> atoi t))) else m)"
| "timed_map now (CDel k) r m = m(k := None)"
| "timed_map now CFlush r m = Map.empty"
| "timed_map now (CGet k) r m = m"

fun agrees :: "(int \<times> cache_op \<times> portal_resp) list \<Rightarrow> (string \<Rightarrow> (string \<times> int) option) \<Rightarrow> bool" where
  "agrees [] m = True"
| "agrees ((now, p, r) # tr) m = (answers now p r m \<and> agrees tr (timed_map now p r m))"

definition sim :: "int \<Rightarrow> cache_module \<Rightarrow> (string \<Rightarrow> (string \<times> int) option) \<Rightarrow> bool" where
  "sim now s m \<longleftrightarrow> cache_ok s \<and> (\<forall>t\<ge>now. alive t (cached s) = alive t m)"

lemma alive_update: "alive t (m(k := x)) = (alive t m)(k := alive t (\<lambda>_. x) k)"
  by (auto simp: alive_def fun_eq_iff)

lemma alive_None [simp]: "alive t (\<lambda>_. None) k = None"
  by (simp add: alive_def)

lemma alive_expired: "alive now m k = None \<Longrightarrow> now \<le> t \<Longrightarrow> (alive t m)(k := None) = alive t m"
  by (auto simp: alive_def fun_eq_iff split: option.splits if_splits)

fun op_key :: "cache_op \<Rightarrow> string" where
  "op_key (CSet k v ttl) = k" | "op_key (CGet k) = k" | "op_key (CDel k) = k" | "op_key CFlush = []"

lemma sim_step:
  assumes "sim now s m" "now \<le> t" "length (op_key p) < 8000"
  obtains rc r s' ev where "cache_step t rate p s = Inr (rc, r, s', ev)" "answers t p r m" "sim t s' (timed_map t p r m)"
proof -
  have ok: "cache_ok s" using assms(1) by (simp add: sim_def)
  have al: "alive u (cached s) = alive u m" if "t \<le> u" for u using assms(1,2) that by (auto simp: sim_def)
  note set_body = portal_resp_set_body_def portal_resp_set_status_def
  show thesis
  proof (cases p)
    case (CSet k v ttl)
    show thesis using ok
    proof (cases rule: cache_set_cases [where now = t and k = k and v = v and
        ttl = "case ttl of None \<Rightarrow> CACHE_DEFAULT_TTL | Some t \<Rightarrow> atoi t", consumes 1])
      case (Done s')
      show thesis
        by (rule that) (use Done al in \<open>auto simp: CSet cache_step_simps cache_do_set_def m_text_fits sim_def set_body alive_update\<close>)
    next
      case (Full s')
      show thesis
        by (rule that) (use Full al in \<open>auto simp: CSet cache_step_simps cache_do_set_def m_text_fits sim_def set_body alive_update alive_expired\<close>)
    qed
  next
    case (CGet k)
    obtain r s' where get: "cache_get t k s = (r, s')" by fastforce
    note spec = cache_get_spec [OF ok get]
    show thesis
    proof (cases r)
      case None
      show thesis
        by (rule that) (use None get spec al assms(3) in \<open>auto simp: CGet cache_step_simps cache_do_get_def m_text_fits sim_def set_body alive_update alive_expired\<close>)
    next
      case (Some v)
      show thesis
        by (rule that) (use Some get spec al in \<open>auto simp: CGet cache_step_simps cache_do_get_def m_body_def sim_def set_body\<close>)
    qed
  next
    case (CDel k)
    show thesis
      by (rule that) (use cache_del_spec [OF ok, of t k] al in \<open>auto simp: CDel cache_step_simps m_text_fits sim_def set_body alive_update\<close>)
  next
    case CFlush
    show thesis
      by (rule that) (use cache_flush_spec [OF ok] in \<open>auto simp: CFlush cache_step_simps m_text_fits sim_def set_body\<close>)
  qed
qed

lemma cache_run_agrees:
  assumes "sim now s m" "sorted (now # map fst ps)" "list_all (\<lambda>(t, p). length (op_key p) < 8000) ps"
  shows "\<exists>tr s'. cache_run rate ps s = Inr (tr, s') \<and> map (\<lambda>(t, p, r). (t, p)) tr = ps \<and> agrees tr m"
  using assms
proof (induction ps arbitrary: now s m)
  case Nil
  then show ?case by simp
next
  case (Cons tp ps)
  obtain t p where tp: "tp = (t, p)" by fastforce
  obtain rc r s1 ev where step: "cache_step t rate p s = Inr (rc, r, s1, ev)" "answers t p r m" "sim t s1 (timed_map t p r m)"
    by (rule sim_step [OF Cons.prems(1), of t p rate]) (use Cons.prems(2,3) in \<open>simp_all add: tp\<close>)
  from Cons.IH [OF step(3)] Cons.prems(2,3) obtain tr s' where
    "cache_run rate ps s1 = Inr (tr, s')" "map (\<lambda>(t, p, r). (t, p)) tr = ps" "agrees tr (timed_map t p r m)"
    by (auto simp: tp)
  with step show ?case by (simp add: tp)
qed



text \<open>
  An expired value keeps its slot until its own key is looked up or the status is read: while all
  slots are in use, a set of another key is refused at any time.
\<close>

lemma expired_slots_block:
  assumes "cache_ok s" "cm_count s = cm_max s" "cached s k = None"
  shows "cache_set now k v ttl s = (-1, s)"
proof -
  have "find_index (\<lambda>e. ce_active e \<and> ce_key e = k) (cm_entries s) = None"
    using assms(3) by (simp add: find_active_None cached_def map_of_eq_None_iff)
  then show ?thesis using assms(2) by (simp add: cache_set_def cache_find_def)
qed

end
