(* ===== verification/Firewall.thy ===== *)
theory Firewall
  imports Mod_Kit
begin

section \<open>Rate limits and source rules (mod_firewall)\<close>

text \<open>
  \<^verbatim>\<open>modules/mod_firewall/mod_firewall.c\<close>: explicit rules for a source, and a counter per source for
  the sources without a rule. The counters \<open>g_rule_count\<close> and \<open>g_tracker_count\<close> are the lengths of
  the lists; the clock is read once per request (\<open>now\<close>). Every counter is an unbounded integer.
\<close>

abbreviation (input) FW_MAX_RULES :: nat where "FW_MAX_RULES \<equiv> 256"
abbreviation (input) FW_MAX_TRACKERS :: nat where "FW_MAX_TRACKERS \<equiv> 1024"
abbreviation (input) FW_RATE_LIMIT :: int where "FW_RATE_LIMIT \<equiv> 100"
abbreviation (input) FW_RATE_WINDOW :: int where "FW_RATE_WINDOW \<equiv> 60"

datatype fw_action = FW_ALLOW | FW_DENY

record fw_rule =
  fr_source :: string
  fr_action :: fw_action
  fr_reason :: string
  fr_created :: int
  fr_active :: bool

record fw_tracker =
  ft_source :: string
  ft_count :: int
  ft_start :: int
  ft_blocked :: bool

record fw_module =
  fw_rules :: "fw_rule list"
  fw_trackers :: "fw_tracker list"
  fw_limit :: int
  fw_window :: int
  fw_checked :: int
  fw_blocked :: int

definition fw_zero :: fw_module where
  "fw_zero = \<lparr>fw_rules = [], fw_trackers = [], fw_limit = FW_RATE_LIMIT, fw_window = FW_RATE_WINDOW, fw_checked = 0, fw_blocked = 0\<rparr>"

definition find_tracker :: "fw_module \<Rightarrow> string \<Rightarrow> nat option" where
  "find_tracker s source = find_index (\<lambda>t. ft_source t = source) (fw_trackers s)"

definition find_rule :: "fw_module \<Rightarrow> string \<Rightarrow> nat option" where
  "find_rule s source = find_index (\<lambda>r. fr_active r \<and> fr_source r = source) (fw_rules s)"

subsection \<open>Checking a source\<close>

definition new_tracker :: "int \<Rightarrow> string \<Rightarrow> fw_tracker" where
  "new_tracker now source = \<lparr>ft_source = csnprintf 128 source, ft_count = 0, ft_start = now, ft_blocked = False\<rparr>"

text \<open>The part of \<open>check_source\<close> that works on one tracker: a new window when the old one is over, then one more request.\<close>

definition count_request :: "int \<Rightarrow> int \<Rightarrow> int \<Rightarrow> fw_tracker \<Rightarrow> bool \<times> fw_tracker" where
  "count_request now window limit t =
     (let t = (if window \<le> now - ft_start t then t\<lparr>ft_count := 0, ft_start := now, ft_blocked := False\<rparr> else t);
          t = t\<lparr>ft_count := ft_count t + 1\<rparr>
      in if limit < ft_count t then (False, t\<lparr>ft_blocked := True\<rparr>) else (True, t))"

definition rate_check :: "int \<Rightarrow> nat \<Rightarrow> fw_module \<Rightarrow> int \<times> string \<times> fw_module" where
  "rate_check now i s =
     (case count_request now (fw_window s) (fw_limit s) (fw_trackers s ! i) of
        (passed, t) \<Rightarrow>
          let s = s\<lparr>fw_trackers := (fw_trackers s)[i := t]\<rparr>
          in if passed then (0, ''OK ('' @ dec (ft_count t) @ ''/'' @ dec (fw_limit s) @ '')'', s)
             else (-1, ''Rate limit exceeded ('' @ dec (ft_count t) @ ''/'' @ dec (fw_limit s) @ '' in '' @ dec (fw_window s) @ ''s)'',
                   s\<lparr>fw_blocked := fw_blocked s + 1\<rparr>))"

definition check_source :: "int \<Rightarrow> string \<Rightarrow> nat \<Rightarrow> fw_module \<Rightarrow> int \<times> string \<times> fw_module" where
  "check_source now source rlen s =
     (let s = s\<lparr>fw_checked := fw_checked s + 1\<rparr>;
          (rc, reason, s) =
            (case find_rule s source of
               Some i \<Rightarrow>
                 (case fr_action (fw_rules s ! i) of
                    FW_DENY \<Rightarrow> (-1, ''Blocked by rule: '' @ fr_reason (fw_rules s ! i), s\<lparr>fw_blocked := fw_blocked s + 1\<rparr>)
                  | FW_ALLOW \<Rightarrow> (0, ''Allowed by rule'', s))
             | None \<Rightarrow>
                 (case find_tracker s source of
                    Some i \<Rightarrow> rate_check now i s
                  | None \<Rightarrow>
                      if length (fw_trackers s) < FW_MAX_TRACKERS
                      then rate_check now (length (fw_trackers s)) (s\<lparr>fw_trackers := fw_trackers s @ [new_tracker now source]\<rparr>)
                      else (0, ''Tracker table full'', s)))
      in (rc, csnprintf rlen reason, s))"

subsection \<open>Loading and requests\<close>

definition fw_load :: "string option \<Rightarrow> string option \<Rightarrow> fw_module \<Rightarrow> fw_module" where
  "fw_load rate_limit rate_window s =
     \<lparr>fw_rules = [], fw_trackers = [],
      fw_limit = (case rate_limit of None \<Rightarrow> fw_limit s | Some v \<Rightarrow> atoi v),
      fw_window = (case rate_window of None \<Rightarrow> fw_window s | Some v \<Rightarrow> atoi v), fw_checked = 0, fw_blocked = 0\<rparr>"

definition fw_paths :: "path_decl list" where
  "fw_paths =
     [(''/firewall/resources/status'', PORTAL_ACCESS_READ, Some ''Rate limiter status: rules, blocked sources''),
      (''/firewall/resources/rules'', PORTAL_ACCESS_READ, Some ''List all firewall rules''),
      (''/firewall/resources/blocked'', PORTAL_ACCESS_READ, None),
      (''/firewall/functions/allow'', PORTAL_ACCESS_RW, Some ''Allow a source. Header: source''),
      (''/firewall/functions/deny'', PORTAL_ACCESS_RW, Some ''Block a source. Header: source (IP or pattern)''),
      (''/firewall/functions/remove'', PORTAL_ACCESS_RW, None),
      (''/firewall/functions/check'', PORTAL_ACCESS_RW, Some ''Check if source blocked. Header: source''),
      (''/firewall/functions/clear'', PORTAL_ACCESS_RW, None)]"

definition fw_status :: "portal_resp \<Rightarrow> fw_module \<Rightarrow> fw_module mod_result" where
  "fw_status resp s =
     (let rules = filter fr_active (fw_rules s);
          count = (\<lambda>a. int (length (filter (\<lambda>r. fr_action r = a) rules)))
      in m_text 8192 PORTAL_OK
           (''Firewall'' @ NL @ ''Rules: '' @ dec (count FW_ALLOW) @ '' allow, '' @ dec (count FW_DENY) @ '' deny'' @ NL @
            ''Rate limit: '' @ dec (fw_limit s) @ '' requests / '' @ dec (fw_window s) @ '' seconds'' @ NL @
            ''Rate-blocked sources: '' @ dec (int (length (filter ft_blocked (fw_trackers s)))) @ NL @
            ''Total checked: '' @ dec (fw_checked s) @ NL @ ''Total blocked: '' @ dec (fw_blocked s) @ NL) 0 resp s [])"

definition fw_rule_line :: "fw_rule \<Rightarrow> string" where
  "fw_rule_line r =
     ''  '' @ pad 20 (fr_source r) @ '' '' @ pad 6 (if fr_action r = FW_ALLOW then ''ALLOW'' else ''DENY'') @ '' '' @ fr_reason r @ NL"

definition fw_list_rules :: "portal_resp \<Rightarrow> fw_module \<Rightarrow> fw_module mod_result" where
  "fw_list_rules resp s =
     (let text = fold (\<lambda>r. off_append 8192 (fw_rule_line r)) (filter fr_active (fw_rules s)) (Inr (''Firewall Rules:'' @ NL));
          text = (if fw_rules s = [] then off_append 8192 (''  (none)'' @ NL) text else text)
      in obind text (\<lambda>t. m_text 8192 PORTAL_OK t 0 resp s []))"

definition fw_list_blocked :: "portal_resp \<Rightarrow> fw_module \<Rightarrow> fw_module mod_result" where
  "fw_list_blocked resp s =
     (let piece = off_append_below (8192 - 128) 8192;
          text = fold (\<lambda>t. piece (''  '' @ pad 20 (ft_source t) @ '' '' @ dec (ft_count t) @ '' requests (rate limit)'' @ NL))
                   (filter ft_blocked (fw_trackers s)) (Inr (''Currently Blocked:'' @ NL));
          text = fold (\<lambda>r. piece (''  '' @ pad 20 (fr_source r) @ '' (rule: '' @ fr_reason r @ '')'' @ NL))
                   (filter (\<lambda>r. fr_active r \<and> fr_action r = FW_DENY) (fw_rules s)) text
      in obind text (\<lambda>t.
           obind (if length t < 30 then off_append 8192 (''  (none)'' @ NL) (Inr t) else Inr t) (\<lambda>t.
             m_text 8192 PORTAL_OK t 0 resp s [])))"

definition put_rule :: "int \<Rightarrow> fw_action \<Rightarrow> string \<Rightarrow> string \<Rightarrow> fw_module \<Rightarrow> fw_module option" where
  "put_rule now action source reason s =
     (let r = \<lparr>fr_source = csnprintf 128 source, fr_action = action, fr_reason = csnprintf 128 reason, fr_created = now, fr_active = True\<rparr>
      in case find_rule s source of
           Some i \<Rightarrow> Some (s\<lparr>fw_rules := (fw_rules s)[i := r]\<rparr>)
         | None \<Rightarrow> if FW_MAX_RULES \<le> length (fw_rules s) then None else Some (s\<lparr>fw_rules := fw_rules s @ [r]\<rparr>))"

definition need_source :: "portal_msg \<Rightarrow> portal_resp \<Rightarrow> fw_module \<Rightarrow> (string \<Rightarrow> fw_module mod_result) \<Rightarrow> fw_module mod_result" where
  "need_source msg resp s body =
     obind (get_header (msg_headers msg) ''source'') (\<lambda>source.
       case source of
         None \<Rightarrow> m_text 8192 PORTAL_BAD_REQUEST (''Need: source header'' @ NL) (-1) resp s []
       | Some x \<Rightarrow> body x)"

definition handle_rule :: "int \<Rightarrow> fw_action \<Rightarrow> portal_msg \<Rightarrow> portal_resp \<Rightarrow> fw_module \<Rightarrow> fw_module mod_result" where
  "handle_rule now action msg resp s =
     obind (get_header (msg_headers msg) ''reason'') (\<lambda>reason.
       need_source msg resp s (\<lambda>source.
         case put_rule now action source (case reason of None \<Rightarrow> ''manual'' | Some x \<Rightarrow> x) s of
           None \<Rightarrow> m_status PORTAL_INTERNAL_ERROR (-1) resp s
         | Some s \<Rightarrow>
             m_text 8192 PORTAL_OK ((if action = FW_ALLOW then ''Allowed: '' else ''Denied: '') @ source @ NL) 0 resp s
               [(if action = FW_ALLOW then ''/events/firewall/allow'' else ''/events/firewall/deny'', source)]))"

definition handle_remove :: "portal_msg \<Rightarrow> portal_resp \<Rightarrow> fw_module \<Rightarrow> fw_module mod_result" where
  "handle_remove msg resp s =
     with_header ''source'' msg resp s (\<lambda>source.
       case find_rule s source of
         None \<Rightarrow> m_status PORTAL_NOT_FOUND (-1) resp s
       | Some i \<Rightarrow>
           m_text 8192 PORTAL_OK (''Rule removed for '' @ source @ NL) 0 resp
             (s\<lparr>fw_rules := (fw_rules s)[i := (fw_rules s ! i)\<lparr>fr_active := False\<rparr>]\<rparr>) [(''/events/firewall/remove'', source)])"

definition handle_check :: "int \<Rightarrow> portal_msg \<Rightarrow> portal_resp \<Rightarrow> fw_module \<Rightarrow> fw_module mod_result" where
  "handle_check now msg resp s =
     need_source msg resp s (\<lambda>source.
       case check_source now source 256 s of
         (result, reason, s) \<Rightarrow>
           m_text 8192 (if result = 0 then PORTAL_OK else PORTAL_FORBIDDEN)
             (source @ '': '' @ (if result = 0 then ''ALLOWED'' else ''BLOCKED'') @ '' '' @ [CHR 0xE2, CHR 0x80, CHR 0x94] @ '' '' @
              reason @ NL) 0 resp s [])"

definition handle_clear :: "portal_resp \<Rightarrow> fw_module \<Rightarrow> fw_module mod_result" where
  "handle_clear resp s =
     m_text 8192 PORTAL_OK (''All rules and trackers cleared'' @ NL) 0 resp (s\<lparr>fw_rules := [], fw_trackers := []\<rparr>)
       [(''/events/firewall/clear'', ''all'')]"

definition fw_handle :: "int \<Rightarrow> portal_msg \<Rightarrow> portal_resp \<Rightarrow> fw_module \<Rightarrow> fw_module mod_result" where
  "fw_handle now msg resp s =
     (case msg_path msg of
        None \<Rightarrow> Inl Null_deref
      | Some path \<Rightarrow>
          if path = ''/firewall/resources/status'' then fw_status resp s
          else if path = ''/firewall/resources/rules'' then fw_list_rules resp s
          else if path = ''/firewall/resources/blocked'' then fw_list_blocked resp s
          else if path = ''/firewall/functions/allow'' then handle_rule now FW_ALLOW msg resp s
          else if path = ''/firewall/functions/deny'' then handle_rule now FW_DENY msg resp s
          else if path = ''/firewall/functions/remove'' then handle_remove msg resp s
          else if path = ''/firewall/functions/check'' then handle_check now msg resp s
          else if path = ''/firewall/functions/clear'' then handle_clear resp s
          else m_status PORTAL_NOT_FOUND (-1) resp s)"

subsection \<open>The invariant and the rules\<close>

text \<open>The tables keep within their bounds, every stored source fits its field, and no count is negative.\<close>

definition tracker_ok :: "fw_tracker \<Rightarrow> bool" where
  "tracker_ok t \<longleftrightarrow> length (ft_source t) < 128 \<and> 0 \<le> ft_count t"

definition fw_ok :: "fw_module \<Rightarrow> bool" where
  "fw_ok s \<longleftrightarrow> length (fw_rules s) \<le> FW_MAX_RULES \<and> length (fw_trackers s) \<le> FW_MAX_TRACKERS \<and>
     list_all (\<lambda>r. length (fr_source r) < 128) (fw_rules s) \<and> list_all tracker_ok (fw_trackers s)"

definition rule_for :: "fw_module \<Rightarrow> string \<Rightarrow> fw_action option" where
  "rule_for s source = map_option (\<lambda>i. fr_action (fw_rules s ! i)) (find_rule s source)"

lemma csnprintf_128: "length (csnprintf 128 x) < 128"
  by (simp add: csnprintf_def)

lemma find_rule_Some:
  assumes "find_rule s x = Some i"
  shows "i < length (fw_rules s)" "fr_active (fw_rules s ! i)" "fr_source (fw_rules s ! i) = x"
  using assms by (auto simp: find_rule_def find_index_Some_iff)

lemma rule_for_other:
  assumes "find_rule s x = Some i" "fr_source r = x" "x \<noteq> src"
  shows "rule_for (s\<lparr>fw_rules := (fw_rules s)[i := r]\<rparr>) src = rule_for s src"
proof -
  have same: "find_rule (s\<lparr>fw_rules := (fw_rules s)[i := r]\<rparr>) src = find_rule s src"
    using assms find_rule_Some [OF assms(1)] by (auto simp: find_rule_def intro!: find_index_update_same)
  show ?thesis
  proof (cases "find_rule s src")
    case (Some j)
    then have "i \<noteq> j" using find_rule_Some [OF assms(1)] find_rule_Some [OF Some] assms(3) by auto
    with Some same show ?thesis by (simp add: rule_for_def)
  qed (simp add: rule_for_def same)
qed

lemma rule_for_append:
  assumes "rule_for s src = Some a"
  shows "rule_for (s\<lparr>fw_rules := fw_rules s @ [r]\<rparr>) src = Some a"
proof -
  obtain i where i: "find_rule s src = Some i" "fr_action (fw_rules s ! i) = a" using assms by (auto simp: rule_for_def)
  with find_rule_Some [OF i(1)] show ?thesis by (simp add: rule_for_def find_rule_def find_index_append nth_append)
qed

lemma put_rule_ok: "fw_ok s \<Longrightarrow> put_rule now action x reason s = Some s' \<Longrightarrow> fw_ok s'"
  using csnprintf_128 [of x]
  by (auto simp: put_rule_def fw_ok_def Let_def intro!: list_all_update split: option.splits if_splits)

lemma put_rule_other:
  assumes "fw_ok s" "rule_for s src = Some a" "x \<noteq> src" "put_rule now action x reason s = Some s'"
  shows "rule_for s' src = Some a"
proof (cases "find_rule s x")
  case None
  then show ?thesis using assms rule_for_append by (auto simp: put_rule_def Let_def split: if_splits)
next
  case (Some i)
  have "length x < 128" using assms(1) find_rule_Some [OF Some] by (auto simp: fw_ok_def list_all_length)
  then show ?thesis using assms rule_for_other [OF Some _ assms(3)] Some by (auto simp: put_rule_def csnprintf_fits Let_def)
qed

lemma count_request_ok: "tracker_ok t \<Longrightarrow> tracker_ok (snd (count_request now w l t))"
  by (simp add: count_request_def tracker_ok_def Let_def)

lemma new_tracker_ok: "tracker_ok (new_tracker now x)"
  using csnprintf_128 [of x] by (simp add: new_tracker_def tracker_ok_def)

lemma rate_check_frame:
  assumes "rate_check now i s = (rc, reason, s')" "i < length (fw_trackers s)"
  shows "fw_rules s' = fw_rules s \<and> fw_limit s' = fw_limit s \<and> fw_window s' = fw_window s \<and> (fw_ok s \<longrightarrow> fw_ok s')"
  using assms count_request_ok [of "fw_trackers s ! i" now "fw_window s" "fw_limit s"]
  by (auto simp: rate_check_def Let_def case_prod_beta fw_ok_def list_all_length nth_list_update split: if_splits)

lemma find_tracker_Some:
  assumes "find_tracker s x = Some i"
  shows "i < length (fw_trackers s)" "ft_source (fw_trackers s ! i) = x"
  using assms by (auto simp: find_tracker_def find_index_Some_iff)

lemma check_source_frame:
  assumes "check_source now x n s = (rc, reason, s')"
  shows "fw_rules s' = fw_rules s" "fw_limit s' = fw_limit s" "fw_window s' = fw_window s" "fw_ok s \<Longrightarrow> fw_ok s'"
proof -
  let ?s = "s\<lparr>fw_checked := fw_checked s + 1\<rparr>"
  have "fw_ok ?s = fw_ok s" by (simp add: fw_ok_def)
  moreover have "fw_ok (?s\<lparr>fw_trackers := fw_trackers s @ [new_tracker now x]\<rparr>)" if "fw_ok s" "length (fw_trackers s) < 1024"
    using that new_tracker_ok by (simp add: fw_ok_def)
  ultimately have "fw_rules s' = fw_rules s \<and> fw_limit s' = fw_limit s \<and> fw_window s' = fw_window s \<and> (fw_ok s \<longrightarrow> fw_ok s')"
    using assms
    by (auto simp: check_source_def Let_def fw_ok_def dest!: rate_check_frame dest: find_tracker_Some
        split: option.splits fw_action.splits if_splits prod.splits)
  then show "fw_rules s' = fw_rules s" "fw_limit s' = fw_limit s" "fw_window s' = fw_window s" "fw_ok s \<Longrightarrow> fw_ok s'" by simp_all
qed

lemma rule_for_rules: "fw_rules s' = fw_rules s \<Longrightarrow> rule_for s' = rule_for s"
  by (simp add: rule_for_def find_rule_def fun_eq_iff)

subsection \<open>Rules are enforced\<close>

text \<open>The requests that change the rule of a source: a rule for it, its removal, and a clear.\<close>

definition touches :: "string \<Rightarrow> portal_msg \<Rightarrow> bool" where
  "touches source msg \<longleftrightarrow>
     msg_path msg = Some ''/firewall/functions/clear'' \<or>
     get_header (msg_headers msg) ''source'' = Inr (Some source) \<and>
     msg_path msg \<in> {Some ''/firewall/functions/allow'', Some ''/firewall/functions/deny'', Some ''/firewall/functions/remove''}"

definition has_rule :: "string \<Rightarrow> fw_action \<Rightarrow> fw_module \<Rightarrow> bool" where
  "has_rule source a s \<longleftrightarrow> fw_ok s \<and> rule_for s source = Some a"

lemma need_source_keeps:
  assumes "P s" "\<And>x. get_header (msg_headers msg) ''source'' = Inr (Some x) \<Longrightarrow> keeps P (body x)"
  shows "keeps P (need_source msg resp s body)"
  unfolding need_source_def by (intro keeps_obind keeps_option keeps_text) (simp_all add: assms)

lemma handle_rule_keeps:
  assumes "has_rule src a s" "get_header (msg_headers msg) ''source'' \<noteq> Inr (Some src)"
  shows "keeps (has_rule src a) (handle_rule now action msg resp s)"
proof -
  have "has_rule src a s'" if "put_rule now action x reason s = Some s'" "x \<noteq> src" for x reason s'
    using assms(1) put_rule_ok [OF _ that(1)] put_rule_other [OF _ _ that(2,1)] by (simp add: has_rule_def)
  then show ?thesis
    unfolding handle_rule_def using assms
    by (intro keeps_obind need_source_keeps keeps_option keeps_text) auto
qed

lemma handle_remove_keeps:
  assumes "has_rule src a s" "get_header (msg_headers msg) ''source'' \<noteq> Inr (Some src)"
  shows "keeps (has_rule src a) (handle_remove msg resp s)"
proof -
  have "has_rule src a (s\<lparr>fw_rules := (fw_rules s)[i := (fw_rules s ! i)\<lparr>fr_active := False\<rparr>]\<rparr>)"
    if i: "find_rule s x = Some i" "x \<noteq> src" for x i
  proof -
    have "fr_source ((fw_rules s ! i)\<lparr>fr_active := False\<rparr>) = x" using find_rule_Some [OF i(1)] by simp
    moreover have "length (fr_source (fw_rules s ! i)) < 128"
      using assms(1) find_rule_Some [OF i(1)] by (auto simp: has_rule_def fw_ok_def list_all_length)
    ultimately show ?thesis
      using assms(1) rule_for_other [OF i(1) _ i(2)] by (auto simp: has_rule_def fw_ok_def intro!: list_all_update)
  qed
  then show ?thesis
    unfolding handle_remove_def using assms by (intro keeps_header keeps_option keeps_text) auto
qed

lemma handle_check_keeps:
  assumes "has_rule src a s"
  shows "keeps (has_rule src a) (handle_check now msg resp s)"
proof -
  have "has_rule src a s'" if "check_source now x n s = (rc, reason, s')" for x n rc reason s'
    using assms check_source_frame [OF that] rule_for_rules [of s' s] by (simp add: has_rule_def)
  then show ?thesis
    unfolding handle_check_def using assms by (intro need_source_keeps) (auto split: prod.split intro!: keeps_text)
qed

lemma fw_views_keep:
  assumes "P s"
  shows "keeps P (fw_status resp s)" "keeps P (fw_list_rules resp s)" "keeps P (fw_list_blocked resp s)"
  using assms by (auto simp: fw_status_def fw_list_rules_def fw_list_blocked_def Let_def intro!: keeps_rules)

lemma fw_handle_keeps:
  assumes "has_rule src a s" "\<not> touches src msg"
  shows "keeps (has_rule src a) (fw_handle now msg resp s)"
  unfolding fw_handle_def
  apply (intro keeps_option keeps_if keeps_fault handle_rule_keeps handle_remove_keeps handle_check_keeps fw_views_keep assms(1))
  using assms by (simp_all add: touches_def)

fun fw_run :: "(int \<times> portal_msg) list \<Rightarrow> fw_module \<Rightarrow> fw_module outcome" where
  "fw_run [] s = Inr s"
| "fw_run ((now, msg) # ps) s = obind (fw_handle now msg portal_resp_alloc s) (\<lambda>(rc, r, s, ev). fw_run ps s)"

lemma fw_run_keeps:
  "has_rule src a s \<Longrightarrow> list_all (\<lambda>(t, m). \<not> touches src m) ps \<Longrightarrow> fw_run ps s = Inr s' \<Longrightarrow> has_rule src a s'"
proof (induction ps arbitrary: s)
  case (Cons p ps)
  then show ?case
    using keepsD [OF fw_handle_keeps] by (cases p) (fastforce simp: obind_Inr)
qed simp

lemma put_rule_sets:
  assumes "fw_ok s" "length src < 128" "put_rule now a src reason s = Some s'"
  shows "has_rule src a s'"
proof -
  have "rule_for s' src = Some a"
  proof (cases "find_rule s src")
    case None
    with assms(2,3) show ?thesis
      by (auto simp: put_rule_def rule_for_def find_rule_def csnprintf_fits find_index_append Let_def split: if_splits)
  next
    case (Some i)
    let ?r = "\<lparr>fr_source = src, fr_action = a, fr_reason = csnprintf 128 reason, fr_created = now, fr_active = True\<rparr>"
    have s': "s' = s\<lparr>fw_rules := (fw_rules s)[i := ?r]\<rparr>" using assms(2,3) Some by (simp add: put_rule_def csnprintf_fits Let_def)
    have "find_rule s' src = Some i"
      using Some find_rule_Some [OF Some] find_index_update_same [of "\<lambda>r. fr_active r \<and> fr_source r = src" ?r "fw_rules s" i]
      by (simp add: s' find_rule_def)
    then show ?thesis using find_rule_Some [OF Some] by (simp add: rule_for_def s')
  qed
  with put_rule_ok [OF assms(1,3)] show ?thesis by (simp add: has_rule_def)
qed

lemma check_by_rule:
  assumes "rule_for s src = Some a"
  obtains why s' where "check_source now src 256 s = (if a = FW_DENY then -1 else 0, why, s')" "length why \<le> 255"
proof -
  obtain i where i: "find_rule s src = Some i" "fr_action (fw_rules s ! i) = a" using assms by (auto simp: rule_for_def)
  have "find_rule (s\<lparr>fw_checked := fw_checked s + 1\<rparr>) src = Some i" using i(1) by (simp add: find_rule_def)
  moreover have "length (csnprintf 256 x) \<le> 255" for x by (simp add: csnprintf_def)
  ultimately show thesis using i(2) that by (cases a) (fastforce simp: check_source_def Let_def)+
qed


definition guarded :: fw_module where
  "guarded = fw_zero\<lparr>fw_trackers := [\<lparr>ft_source = ''10.0.0.9'', ft_count = 0, ft_start = 0, ft_blocked = False\<rparr>], fw_limit := 2\<rparr>"

lemma guarded_ok: "fw_ok guarded"
  by (simp add: guarded_def fw_zero_def fw_ok_def tracker_ok_def)


subsection \<open>The rate limit\<close>

text \<open>A run of checks, with the verdict of each.\<close>

fun check_run :: "(int \<times> string) list \<Rightarrow> fw_module \<Rightarrow> (string \<times> bool) list" where
  "check_run [] s = []"
| "check_run ((now, x) # ps) s = (case check_source now x 256 s of (rc, reason, s) \<Rightarrow> (x, rc = 0) # check_run ps s)"

definition allowed_checks :: "string \<Rightarrow> (string \<times> bool) list \<Rightarrow> nat" where
  "allowed_checks src vs = length (filter (\<lambda>v. v = (src, True)) vs)"

definition tracker_of :: "fw_module \<Rightarrow> string \<Rightarrow> fw_tracker option" where
  "tracker_of s src = map_option ((!) (fw_trackers s)) (find_tracker s src)"

text \<open>The checks of one source only move the counter of that source.\<close>

fun count_run :: "int \<Rightarrow> int \<Rightarrow> int list \<Rightarrow> fw_tracker \<Rightarrow> nat" where
  "count_run w l [] t = 0"
| "count_run w l (now # ts) t = (case count_request now w l t of (passed, t) \<Rightarrow> (if passed then 1 else 0) + count_run w l ts t)"

lemma find_tracker_update:
  assumes "find_tracker s x = Some i" "ft_source t = x"
  shows "find_tracker (s\<lparr>fw_trackers := (fw_trackers s)[i := t]\<rparr>) = find_tracker s"
  using find_tracker_Some [OF assms(1)] assms(2) by (auto simp: find_tracker_def fun_eq_iff intro!: find_index_update_same)

lemma tracker_of_update:
  assumes "find_tracker s x = Some i" "ft_source t = x"
  shows "tracker_of (s\<lparr>fw_trackers := (fw_trackers s)[i := t]\<rparr>) = (tracker_of s)(x \<mapsto> t)"
proof
  fix y
  show "tracker_of (s\<lparr>fw_trackers := (fw_trackers s)[i := t]\<rparr>) y = ((tracker_of s)(x \<mapsto> t)) y"
    using find_tracker_Some [OF assms(1)] find_tracker_Some [of s y] assms(1)
    by (cases "find_tracker s y") (auto simp: tracker_of_def find_tracker_update [OF assms] nth_list_update)
qed

lemma tracker_of_append:
  "tracker_of s src = Some t \<Longrightarrow> tracker_of (s\<lparr>fw_trackers := fw_trackers s @ [u]\<rparr>) src = Some t"
  using find_tracker_Some [of s src]
  by (auto simp: tracker_of_def find_tracker_def find_index_append nth_append)

lemma tracker_of_counters [simp]:
  "tracker_of (s\<lparr>fw_checked := n\<rparr>) = tracker_of s" "tracker_of (s\<lparr>fw_blocked := n\<rparr>) = tracker_of s"
  by (simp_all add: tracker_of_def find_tracker_def fun_eq_iff)

lemma rate_check_tracker:
  assumes "find_tracker s x = Some i" "rate_check now i s = (rc, reason, s')"
  shows "tracker_of s' = (tracker_of s)(x \<mapsto> snd (count_request now (fw_window s) (fw_limit s) (fw_trackers s ! i)))"
    "rc = 0 \<longleftrightarrow> fst (count_request now (fw_window s) (fw_limit s) (fw_trackers s ! i))"
proof -
  obtain ok t where c: "count_request now (fw_window s) (fw_limit s) (fw_trackers s ! i) = (ok, t)" by fastforce
  have "ft_source t = x"
    using c find_tracker_Some [OF assms(1)] by (auto simp: count_request_def Let_def split: if_splits)
  from tracker_of_update [OF assms(1) this] assms(2) c
  show "tracker_of s' = (tracker_of s)(x \<mapsto> snd (count_request now (fw_window s) (fw_limit s) (fw_trackers s ! i)))"
    "rc = 0 \<longleftrightarrow> fst (count_request now (fw_window s) (fw_limit s) (fw_trackers s ! i))"
    by (auto simp: rate_check_def Let_def split: if_splits)
qed

lemma rate_check_elsewhere:
  assumes "rate_check now i s = (rc, reason, s')" "find_tracker s src = Some j" "i \<noteq> j"
  shows "tracker_of s' src = tracker_of s src"
proof -
  obtain ok t where c: "count_request now (fw_window s) (fw_limit s) (fw_trackers s ! i) = (ok, t)" by fastforce
  then have "ft_source t = ft_source (fw_trackers s ! i)" by (auto simp: count_request_def Let_def split: if_splits)
  then have "find_tracker (s\<lparr>fw_trackers := (fw_trackers s)[i := t]\<rparr>) src = find_tracker s src"
    by (simp add: find_tracker_def find_index_update_same)
  then have "tracker_of (s\<lparr>fw_trackers := (fw_trackers s)[i := t]\<rparr>) src = tracker_of s src"
    using assms(2,3) by (simp add: tracker_of_def)
  with assms(1) c show ?thesis by (auto simp: rate_check_def Let_def split: if_splits)
qed

lemma check_other:
  assumes "check_source now x n s = (rc, reason, s')" "tracker_of s src = Some t" "x \<noteq> src"
  shows "tracker_of s' src = Some t"
proof -
  let ?s = "s\<lparr>fw_checked := fw_checked s + 1\<rparr>"
  let ?n = "?s\<lparr>fw_trackers := fw_trackers s @ [new_tracker now x]\<rparr>"
  obtain j where j: "find_tracker ?s src = Some j" using assms(2) by (auto simp: tracker_of_def find_tracker_def)
  have new: "tracker_of ?n src = Some t" "find_tracker ?n src = Some j"
    using assms(2) tracker_of_append [of ?s src t "new_tracker now x"] j by (simp_all add: find_tracker_def find_index_append)
  have "tracker_of s1 src = Some t" if "rate_check now (length (fw_trackers s)) ?n = (rc, why, s1)" for rc why s1
    using rate_check_elsewhere [OF that new(2)] find_tracker_Some [OF j] new(1) by simp
  moreover have "tracker_of s1 src = Some t" if "rate_check now i ?s = (rc, why, s1)" "find_tracker ?s x = Some i" for rc why s1 i
  proof -
    have "i \<noteq> j" using find_tracker_Some [OF j] find_tracker_Some [OF that(2)] assms(3) by auto
    from rate_check_elsewhere [OF that(1) j this] show ?thesis using assms(2) by simp
  qed
  ultimately show ?thesis
    using assms(1,2) by (auto simp: check_source_def Let_def split: option.splits fw_action.splits if_splits prod.splits)
qed

lemma check_own:
  assumes "check_source now src n s = (rc, reason, s')" "rule_for s src = None" "tracker_of s src = Some t"
  shows "tracker_of s' src = Some (snd (count_request now (fw_window s) (fw_limit s) t))"
    "rc = 0 \<longleftrightarrow> fst (count_request now (fw_window s) (fw_limit s) t)"
proof -
  let ?s = "s\<lparr>fw_checked := fw_checked s + 1\<rparr>"
  obtain i where i: "find_tracker ?s src = Some i" "fw_trackers s ! i = t"
    using assms(3) by (auto simp: tracker_of_def find_tracker_def)
  have "find_rule ?s src = None" using assms(2) by (simp add: rule_for_def find_rule_def)
  then obtain why where "rate_check now i ?s = (rc, why, s')"
    using assms(1) i by (auto simp: check_source_def Let_def split: prod.splits)
  from rate_check_tracker [OF i(1) this] i(2)
  show "tracker_of s' src = Some (snd (count_request now (fw_window s) (fw_limit s) t))"
    "rc = 0 \<longleftrightarrow> fst (count_request now (fw_window s) (fw_limit s) t)"
    by simp_all
qed

lemma check_run_count:
  assumes "rule_for s src = None" "tracker_of s src = Some t"
  shows "allowed_checks src (check_run ps s) = count_run (fw_window s) (fw_limit s) (map fst (filter (\<lambda>(now, x). x = src) ps)) t"
  using assms
proof (induction ps arbitrary: s t)
  case Nil
  then show ?case by (simp add: allowed_checks_def)
next
  case (Cons p ps)
  obtain now x where p: "p = (now, x)" by fastforce
  obtain rc reason s' where c: "check_source now x 256 s = (rc, reason, s')" using prod_cases3 by blast
  note frame = check_source_frame [OF c]
  have rule: "rule_for s' src = None" using rule_for_rules [OF frame(1)] Cons.prems(1) by simp
  show ?case
  proof (cases "x = src")
    case True
    note own = check_own [OF c [unfolded True] Cons.prems]
    from Cons.IH [OF rule own(1)] own(2) frame show ?thesis
      by (simp add: p c [unfolded True] True allowed_checks_def split: prod.splits)
  next
    case False
    from Cons.IH [OF rule check_other [OF c Cons.prems(2) False]] frame False show ?thesis by (simp add: p c allowed_checks_def)
  qed
qed

text \<open>Within one window a counter lets through what is left of the limit; a new window adds one full limit.\<close>

lemma count_run_window:
  "list_all (\<lambda>now. now - ft_start t < w) ts \<Longrightarrow> int (count_run w l ts t) \<le> max 0 (l - ft_count t)"
proof (induction ts arbitrary: t)
  case (Cons now ts)
  let ?t = "t\<lparr>ft_count := ft_count t + 1\<rparr>"
  have "int (count_run w l ts ?t) \<le> max 0 (l - (ft_count t + 1))" using Cons.IH [of ?t] Cons.prems by simp
  moreover have "int (count_run w l ts (?t\<lparr>ft_blocked := True\<rparr>)) \<le> max 0 (l - (ft_count t + 1))"
    using Cons.IH [of "?t\<lparr>ft_blocked := True\<rparr>"] Cons.prems by simp
  ultimately show ?case using Cons.prems by (auto simp: count_request_def Let_def split: if_splits)
qed simp

lemma count_run_bound:
  "list_all (\<lambda>now. start \<le> now \<and> now < start + w) ts \<Longrightarrow> sorted ts \<Longrightarrow>
     int (count_run w l ts t) \<le> max 0 (l - ft_count t) + max 0 l"
proof (induction ts arbitrary: t)
  case (Cons now ts)
  show ?case
  proof (cases "w \<le> now - ft_start t")
    case True
    let ?t = "t\<lparr>ft_count := 0, ft_start := now, ft_blocked := False\<rparr>"
    have "list_all (\<lambda>u. u - ft_start ?t < w) (now # ts)" using Cons.prems by (auto simp: list_all_iff)
    from count_run_window [OF this, of l] have "int (count_run w l (now # ts) ?t) \<le> max 0 l" by simp
    moreover have "count_run w l (now # ts) t = count_run w l (now # ts) ?t"
      using True Cons.prems(1) by (auto simp: count_request_def Let_def)
    ultimately show ?thesis by linarith
  next
    case False
    let ?t = "t\<lparr>ft_count := ft_count t + 1\<rparr>"
    have "int (count_run w l ts ?t) \<le> max 0 (l - (ft_count t + 1)) + max 0 l"
      "int (count_run w l ts (?t\<lparr>ft_blocked := True\<rparr>)) \<le> max 0 (l - (ft_count t + 1)) + max 0 l"
      using Cons.IH [of ?t] Cons.IH [of "?t\<lparr>ft_blocked := True\<rparr>"] Cons.prems by simp_all
    with False show ?thesis by (auto simp: count_request_def Let_def)
  qed
qed simp



subsection \<open>Long source names\<close>

text \<open>
  A source whose name has 128 characters or more is never blocked, whatever rules and
  counters exist: rules and trackers store the first 127 characters and are compared with the
  whole name, so a deny rule for it is accepted without effect and every check starts a new
  tracker with a count of one, or finds the table full and passes.
\<close>

lemma long_source_never_blocked:
  assumes "fw_ok s" "128 \<le> length src" "1 \<le> fw_limit s"
  shows "fst (check_source now src n s) = 0"
proof -
  let ?s = "s\<lparr>fw_checked := fw_checked s + 1\<rparr>"
  have "find_rule ?s src = None" "find_tracker ?s src = None"
    using assms(1,2) by (auto simp: find_rule_def find_tracker_def fw_ok_def tracker_ok_def find_index_None_iff list_all_iff)
  then show ?thesis using assms(3)
    by (auto simp: check_source_def Let_def rate_check_def count_request_def new_tracker_def split: prod.splits if_splits)
qed

end
