(* ===== verification/Kv.thy ===== *)
theory Kv
  imports Mod_Kit
begin

section \<open>The persistent key-value store (mod_kv)\<close>

text \<open>
  \<^verbatim>\<open>modules/mod_kv/mod_kv.c\<close>: each key is a file of one directory. The data of the module is paired
  with the file system, which survives a restart. What the operating system decides is a record:
  which files can be opened for writing or removed, the text of an error, and the names that \<open>readdir\<close>
  returns for the directory (\<open>None\<close> when it cannot be opened). The directory holds regular files
  only, and a write that was started is completed.
\<close>

abbreviation (input) KV_MAX_KEY :: nat where "KV_MAX_KEY \<equiv> 256"
abbreviation (input) KV_MAX_VALUE :: nat where "KV_MAX_VALUE \<equiv> 1048576"

record kv_module =
  kv_dir :: string
  kv_max_value :: nat
  kv_gets :: int
  kv_sets :: int
  kv_dels :: int

record kv_os =
  os_can_write :: "string \<Rightarrow> bool"
  os_can_unlink :: "string \<Rightarrow> bool"
  os_strerror :: string
  os_names :: "string list option"

type_synonym kv_state = "kv_module \<times> file_system"

definition kv_zero :: kv_module where
  "kv_zero = \<lparr>kv_dir = ''/var/lib/portal/kv'', kv_max_value = KV_MAX_VALUE, kv_gets = 0, kv_sets = 0, kv_dels = 0\<rparr>"

definition valid_key :: "string \<Rightarrow> bool" where
  "valid_key key \<longleftrightarrow> key \<noteq> [] \<and> length key \<le> KV_MAX_KEY \<and> \<not> sublist ''..'' key \<and> CHR ''/'' \<notin> set key \<and> hd key \<noteq> CHR ''.''"

definition key_file :: "string \<Rightarrow> string \<Rightarrow> string" where
  "key_file dir key = csnprintf 1024 (dir @ ''/'' @ key)"

definition kv_path :: "string \<Rightarrow> string \<Rightarrow> string option" where
  "kv_path dir key = (if valid_key key then Some (key_file dir key) else None)"

subsection \<open>Loading\<close>

definition kv_load :: "string option \<Rightarrow> string option \<Rightarrow> kv_module \<Rightarrow> kv_module" where
  "kv_load data_dir max_value_size s =
     \<lparr>kv_dir = (case data_dir of None \<Rightarrow> kv_dir s | Some v \<Rightarrow> csnprintf 512 v),
      kv_max_value = (case max_value_size of None \<Rightarrow> kv_max_value s | Some v \<Rightarrow> nat (atoi v mod 2 ^ 64)),
      kv_gets = 0, kv_sets = 0, kv_dels = 0\<rparr>"

definition kv_paths :: "path_decl list" where
  "kv_paths =
     [(''/kv/resources/status'', PORTAL_ACCESS_READ, Some ''Key-value store: key count, storage path''),
      (''/kv/resources/keys'', PORTAL_ACCESS_READ, Some ''List all persistent keys''),
      (''/kv/functions/get'', PORTAL_ACCESS_RW, Some ''Get persistent key. Header: key''),
      (''/kv/functions/set'', PORTAL_ACCESS_RW, Some ''Set persistent key. Headers: key, value''),
      (''/kv/functions/del'', PORTAL_ACCESS_RW, Some ''Delete persistent key. Header: key''),
      (''/kv/functions/exists'', PORTAL_ACCESS_RW, None)]"

subsection \<open>Requests\<close>

definition shown :: "kv_os \<Rightarrow> string list" where
  "shown os = filter (\<lambda>n. n = [] \<or> hd n \<noteq> CHR ''.'') (case os_names os of None \<Rightarrow> [] | Some ns \<Rightarrow> ns)"

definition kv_status :: "kv_os \<Rightarrow> portal_resp \<Rightarrow> kv_state \<Rightarrow> kv_state mod_result" where
  "kv_status os resp s =
     (let m = fst s
      in m_text 8192 PORTAL_OK
           (''KV Store'' @ NL @ ''Directory: '' @ kv_dir m @ NL @ ''Keys: '' @ dec (int (length (shown os))) @ NL @
            ''Max value size: '' @ dec (int (kv_max_value m)) @ '' bytes'' @ NL @ ''Gets: '' @ dec (kv_gets m) @ NL @
            ''Sets: '' @ dec (kv_sets m) @ NL @ ''Deletes: '' @ dec (kv_dels m) @ NL) 0 resp s [])"

definition kv_key_line :: "kv_state \<Rightarrow> string \<Rightarrow> string option" where
  "kv_key_line s name =
     map_option (\<lambda>content. ''  '' @ pad 32 name @ '' '' @ dec (int (length content)) @ '' bytes'' @ NL)
       (snd s (key_file (kv_dir (fst s)) name))"

definition kv_keys :: "kv_os \<Rightarrow> portal_resp \<Rightarrow> kv_state \<Rightarrow> kv_state mod_result" where
  "kv_keys os resp s =
     obind (fold (off_append_below (8192 - 256) 8192) (List.map_filter (kv_key_line s) (shown os)) (Inr (''Keys:'' @ NL))) (\<lambda>t.
     obind (if length t < 10 then off_append 8192 (''  (empty)'' @ NL) (Inr t) else Inr t) (\<lambda>t.
       m_text 8192 PORTAL_OK t 0 resp s []))"

definition with_key ::
    "portal_msg \<Rightarrow> kv_state \<Rightarrow> kv_state mod_result \<Rightarrow> (string \<Rightarrow> string \<Rightarrow> kv_state mod_result) \<Rightarrow> kv_state mod_result" where
  "with_key msg s bad body =
     obind (get_header (msg_headers msg) ''key'') (\<lambda>key.
       case key of
         None \<Rightarrow> bad
       | Some k \<Rightarrow> (case kv_path (kv_dir (fst s)) k of None \<Rightarrow> bad | Some path \<Rightarrow> body k path))"

definition kv_get :: "portal_msg \<Rightarrow> portal_resp \<Rightarrow> kv_state \<Rightarrow> kv_state mod_result" where
  "kv_get msg resp s =
     with_key msg s (m_text 8192 PORTAL_BAD_REQUEST (''Need: key header (no . or / or ..)'' @ NL) (-1) resp s []) (\<lambda>k path.
       case snd s path of
         None \<Rightarrow> m_text 8192 PORTAL_NOT_FOUND (''Key not found: '' @ k @ NL) (-1) resp s []
       | Some content \<Rightarrow> m_body PORTAL_OK content 0 resp ((fst s)\<lparr>kv_gets := kv_gets (fst s) + 1\<rparr>, snd s) [])"

definition kv_store :: "kv_os \<Rightarrow> string \<Rightarrow> string \<Rightarrow> string \<Rightarrow> portal_resp \<Rightarrow> kv_state \<Rightarrow> kv_state mod_result" where
  "kv_store os key path val resp s =
     (if kv_max_value (fst s) < length val
      then m_text 8192 PORTAL_BAD_REQUEST
             (''Value too large ('' @ dec (int (length val)) @ '' > '' @ dec (int (kv_max_value (fst s))) @ '')'' @ NL) (-1) resp s []
      else if \<not> os_can_write os path
      then m_text 8192 PORTAL_INTERNAL_ERROR (''Write error: '' @ os_strerror os @ NL) (-1) resp s []
      else m_text 8192 PORTAL_OK (''OK ('' @ dec (int (length val)) @ '' bytes)'' @ NL) 0 resp
             ((fst s)\<lparr>kv_sets := kv_sets (fst s) + 1\<rparr>, (snd s)(path \<mapsto> val)) [(''/events/kv/set'', key)])"

definition kv_set :: "kv_os \<Rightarrow> portal_msg \<Rightarrow> portal_resp \<Rightarrow> kv_state \<Rightarrow> kv_state mod_result" where
  "kv_set os msg resp s =
     obind (if msg_body msg \<noteq> [] then Inr (Some (msg_body msg)) else get_header (msg_headers msg) ''value'') (\<lambda>val.
       with_key msg s (m_text 8192 PORTAL_BAD_REQUEST (''Need: key header'' @ NL) (-1) resp s []) (\<lambda>k path.
         case val of
           None \<Rightarrow> m_text 8192 PORTAL_BAD_REQUEST (''Need: value header or body'' @ NL) (-1) resp s []
         | Some v \<Rightarrow> kv_store os k path v resp s))"

definition kv_del :: "kv_os \<Rightarrow> portal_msg \<Rightarrow> portal_resp \<Rightarrow> kv_state \<Rightarrow> kv_state mod_result" where
  "kv_del os msg resp s =
     with_key msg s (m_status PORTAL_BAD_REQUEST (-1) resp s) (\<lambda>k path.
       if snd s path = None \<or> \<not> os_can_unlink os path then m_status PORTAL_NOT_FOUND (-1) resp s
       else m_text 8192 PORTAL_OK (''Deleted: '' @ k @ NL) 0 resp
              ((fst s)\<lparr>kv_dels := kv_dels (fst s) + 1\<rparr>, (snd s)(path := None)) [(''/events/kv/del'', k)])"

definition kv_exists :: "portal_msg \<Rightarrow> portal_resp \<Rightarrow> kv_state \<Rightarrow> kv_state mod_result" where
  "kv_exists msg resp s =
     with_key msg s (m_status PORTAL_BAD_REQUEST (-1) resp s) (\<lambda>k path.
       if snd s path \<noteq> None then m_text 8192 PORTAL_OK (''true'' @ NL) 0 resp s []
       else m_text 8192 PORTAL_NOT_FOUND (''false'' @ NL) 0 resp s [])"

definition kv_handle :: "kv_os \<Rightarrow> portal_msg \<Rightarrow> portal_resp \<Rightarrow> kv_state \<Rightarrow> kv_state mod_result" where
  "kv_handle os msg resp s =
     (case msg_path msg of
        None \<Rightarrow> Inl Null_deref
      | Some path \<Rightarrow>
          if path = ''/kv/resources/status'' then kv_status os resp s
          else if path = ''/kv/resources/keys'' then kv_keys os resp s
          else if path = ''/kv/functions/get'' then kv_get msg resp s
          else if path = ''/kv/functions/set'' then kv_set os msg resp s
          else if path = ''/kv/functions/del'' then kv_del os msg resp s
          else if path = ''/kv/functions/exists'' then kv_exists msg resp s
          else m_status PORTAL_NOT_FOUND (-1) resp s)"

subsection \<open>Which files a request can change\<close>

definition kv_dir_ok :: "kv_module \<Rightarrow> bool" where
  "kv_dir_ok m \<longleftrightarrow> length (kv_dir m) < 512"

lemma key_file_whole: "kv_dir_ok m \<Longrightarrow> valid_key k \<Longrightarrow> key_file (kv_dir m) k = kv_dir m @ ''/'' @ k"
  by (simp add: kv_dir_ok_def valid_key_def key_file_def csnprintf_fits)

text \<open>A request keeps the directory, and it changes no file but the one of its key, when it is a set or a delete.\<close>

definition kv_frame :: "kv_state \<Rightarrow> string set \<Rightarrow> kv_state \<Rightarrow> bool" where
  "kv_frame s ps s' \<longleftrightarrow> kv_dir (fst s') = kv_dir (fst s) \<and> (\<forall>p. p \<notin> ps \<longrightarrow> snd s' p = snd s p)"

definition files_of :: "portal_msg \<Rightarrow> kv_state \<Rightarrow> string set" where
  "files_of msg s =
     {p. msg_path msg \<in> {Some ''/kv/functions/set'', Some ''/kv/functions/del''} \<and>
         (\<exists>k. get_header (msg_headers msg) ''key'' = Inr (Some k) \<and> kv_path (kv_dir (fst s)) k = Some p)}"

lemma frame_refl: "kv_frame s ps s"
  by (simp add: kv_frame_def)

lemma with_key_keeps:
  assumes "keeps P bad"
    "\<And>k p. get_header (msg_headers msg) ''key'' = Inr (Some k) \<Longrightarrow> kv_path (kv_dir (fst s)) k = Some p \<Longrightarrow> keeps P (body k p)"
  shows "keeps P (with_key msg s bad body)"
  unfolding with_key_def by (intro keeps_obind keeps_option) (use assms in auto)

lemma kv_store_frame: "p \<in> ps \<Longrightarrow> keeps (kv_frame s ps) (kv_store os k p v resp s)"
  unfolding kv_store_def by (intro keeps_if keeps_text) (auto simp: kv_frame_def)

lemma kv_set_frame:
  assumes "msg_path msg = Some ''/kv/functions/set''"
  shows "keeps (kv_frame s (files_of msg s)) (kv_set os msg resp s)"
  unfolding kv_set_def
  by (intro keeps_obind with_key_keeps keeps_option keeps_text kv_store_frame frame_refl) (auto simp: files_of_def assms)

lemma kv_del_frame:
  assumes "msg_path msg = Some ''/kv/functions/del''"
  shows "keeps (kv_frame s (files_of msg s)) (kv_del os msg resp s)"
  unfolding kv_del_def
  by (intro with_key_keeps keeps_if keeps_text) (auto simp: files_of_def assms kv_frame_def)

lemma kv_views_frame:
  "keeps (kv_frame s ps) (kv_status os resp s)" "keeps (kv_frame s ps) (kv_keys os resp s)"
  "keeps (kv_frame s ps) (kv_get msg resp s)" "keeps (kv_frame s ps) (kv_exists msg resp s)"
  unfolding kv_status_def Let_def kv_keys_def kv_get_def kv_exists_def
  by (intro keeps_text keeps_obind with_key_keeps keeps_option keeps_if frame_refl; simp add: kv_frame_def)+

lemma kv_handle_frame: "keeps (kv_frame s (files_of msg s)) (kv_handle os msg resp s)"
  unfolding kv_handle_def
  by (intro keeps_option keeps_if kv_views_frame kv_set_frame kv_del_frame) (simp_all add: frame_refl)

text \<open>
  Property C20. Whatever a message asks of the key-value store, every file it creates, changes or
  removes lies directly in the data directory of the module: its name after the directory has no
  slash and does not start with a dot.
\<close>

theorem kv_confined:
  assumes "kv_dir_ok (fst s)" "kv_handle os msg resp s = Inr (rc, r, s', ev)" "snd s' p \<noteq> snd s p"
  shows "\<exists>k. p = kv_dir (fst s) @ ''/'' @ k \<and> k \<noteq> [] \<and> CHR ''/'' \<notin> set k \<and> hd k \<noteq> CHR ''.''"
proof -
  have "kv_frame s (files_of msg s) s'" using keepsD [OF kv_handle_frame assms(2)] .
  with assms(3) have "p \<in> files_of msg s" by (auto simp: kv_frame_def)
  then obtain k where "valid_key k" "p = key_file (kv_dir (fst s)) k" by (auto simp: files_of_def kv_path_def split: if_splits)
  then show ?thesis using key_file_whole [OF assms(1)] by (auto simp: valid_key_def)
qed

definition kv_demo_os :: kv_os where
  "kv_demo_os = \<lparr>os_can_write = (\<lambda>_. True), os_can_unlink = (\<lambda>_. True), os_strerror = ''Permission denied'', os_names = Some []\<rparr>"

lemma kv_set_demo:
  "\<exists>r s'. kv_handle kv_demo_os (call_msg ''/kv/functions/set'' [(''key'', ''lang''), (''value'', ''en'')]) portal_resp_alloc (kv_zero, Map.empty) =
     Inr (0, r, s', [(''/events/kv/set'', ''lang'')]) \<and> snd s' = [''/var/lib/portal/kv/lang'' \<mapsto> ''en'']"
proof -
  have "length (dec 2) < 16" by (rule length_dec) simp
  then show ?thesis
    by (simp add: kv_handle_def kv_set_def with_key_def kv_path_def valid_key_def key_file_def kv_zero_def kv_store_def kv_demo_os_def
        sublist_Cons_right csnprintf_fits m_text_fits)
qed

theorem kv_confined_witness:
  "\<exists>rc r s' ev k. kv_handle kv_demo_os (call_msg ''/kv/functions/set'' [(''key'', ''lang''), (''value'', ''en'')]) portal_resp_alloc
     (kv_zero, Map.empty) = Inr (rc, r, s', ev) \<and> snd s' ''/var/lib/portal/kv/lang'' \<noteq> None \<and>
     ''/var/lib/portal/kv/lang'' = kv_dir kv_zero @ ''/'' @ k \<and> CHR ''/'' \<notin> set k"
proof -
  obtain r s' where step: "kv_handle kv_demo_os (call_msg ''/kv/functions/set'' [(''key'', ''lang''), (''value'', ''en'')]) portal_resp_alloc
     (kv_zero, Map.empty) = Inr (0, r, s', [(''/events/kv/set'', ''lang'')])" "snd s' = [''/var/lib/portal/kv/lang'' \<mapsto> ''en'']"
    using kv_set_demo by blast
  have "kv_dir_ok (fst (kv_zero, Map.empty))" by (simp add: kv_dir_ok_def kv_zero_def)
  from kv_confined [OF this step(1), of "''/var/lib/portal/kv/lang''"] step show ?thesis by auto
qed

subsection \<open>What is stored stays\<close>

datatype kv_event = Request kv_os portal_msg | Restart

text \<open>Requests and restarts under one configuration; a restart reloads the module and keeps the files.\<close>

fun kv_run :: "string option \<Rightarrow> string option \<Rightarrow> kv_event list \<Rightarrow> kv_state \<Rightarrow> kv_state outcome" where
  "kv_run d mx [] s = Inr s"
| "kv_run d mx (Request os msg # es) s = obind (kv_handle os msg portal_resp_alloc s) (\<lambda>(rc, r, s, ev). kv_run d mx es s)"
| "kv_run d mx (Restart # es) s = kv_run d mx es (kv_load d mx kv_zero, snd s)"

fun overwrites :: "string \<Rightarrow> kv_event \<Rightarrow> bool" where
  "overwrites k Restart = False"
| "overwrites k (Request os msg) =
     (msg_path msg \<in> {Some ''/kv/functions/set'', Some ''/kv/functions/del''} \<and> get_header (msg_headers msg) ''key'' = Inr (Some k))"

definition kv_holds :: "string \<Rightarrow> string \<Rightarrow> string \<Rightarrow> kv_state \<Rightarrow> bool" where
  "kv_holds dir k v s \<longleftrightarrow> kv_dir (fst s) = dir \<and> snd s (dir @ ''/'' @ k) = Some v"

lemma kv_request_holds:
  assumes "kv_holds dir k v s" "length dir < 512" "valid_key k" "\<not> overwrites k (Request os msg)"
    "kv_handle os msg resp s = Inr (rc, r, s', ev)"
  shows "kv_holds dir k v s'"
proof -
  have fr: "kv_frame s (files_of msg s) s'" using keepsD [OF kv_handle_frame assms(5)] .
  have "dir @ ''/'' @ k \<notin> files_of msg s"
  proof
    assume "dir @ ''/'' @ k \<in> files_of msg s"
    then obtain k' where k': "get_header (msg_headers msg) ''key'' = Inr (Some k')" "valid_key k'" "dir @ ''/'' @ k = key_file dir k'"
      "msg_path msg \<in> {Some ''/kv/functions/set'', Some ''/kv/functions/del''}"
      using assms(1) by (auto simp: files_of_def kv_path_def kv_holds_def split: if_splits)
    moreover have "kv_dir_ok (fst s)" "kv_dir (fst s) = dir" using assms(1,2) by (simp_all add: kv_dir_ok_def kv_holds_def)
    ultimately have "k' = k" using key_file_whole [of "fst s" k'] by simp
    with k' assms(4) show False by simp
  qed
  with fr assms(1) show ?thesis by (auto simp: kv_frame_def kv_holds_def)
qed

lemma kv_run_holds:
  assumes "kv_holds (kv_dir (kv_load d mx kv_zero)) k v s" "valid_key k" "list_all (\<lambda>e. \<not> overwrites k e) es" "kv_run d mx es s = Inr s'"
  shows "kv_holds (kv_dir (kv_load d mx kv_zero)) k v s'"
  using assms(1,3,4)
proof (induction es arbitrary: s)
  case (Cons e es)
  have len: "length (kv_dir (kv_load d mx kv_zero)) < 512" by (simp add: kv_load_def kv_zero_def split: option.split)
  show ?case
  proof (cases e)
    case (Request os msg)
    then obtain rc r s1 ev where step: "kv_handle os msg portal_resp_alloc s = Inr (rc, r, s1, ev)" "kv_run d mx es s1 = Inr s'"
      using Cons.prems(3) by (auto simp: obind_Inr)
    have "\<not> overwrites k (Request os msg)" using Cons.prems(2) Request by simp
    from Cons.IH [OF kv_request_holds [OF Cons.prems(1) len assms(2) this step(1)]] Cons.prems(2) step(2) show ?thesis by simp
  next
    case Restart
    have "kv_holds (kv_dir (kv_load d mx kv_zero)) k v (kv_load d mx kv_zero, snd s)" using Cons.prems(1) by (simp add: kv_holds_def)
    from Cons.IH [OF this] Cons.prems(2,3) show ?thesis by (simp add: Restart)
  qed
qed simp

lemma kv_set_holds:
  assumes "kv_dir_ok (fst s)" "kv_handle os (call_msg ''/kv/functions/set'' [(''key'', k), (''value'', v)]) resp s = Inr (0, r, s', ev)"
  shows "valid_key k" "kv_holds (kv_dir (fst s)) k v s'"
  using assms(2) key_file_whole [OF assms(1), of k]
  by (auto simp: kv_handle_def kv_set_def with_key_def kv_path_def kv_store_def kv_holds_def dest!: m_text_Inr split: if_splits)

text \<open>
  A value that the key-value store accepted is read back unchanged after any sequence
  of further requests and restarts of the program under the same configuration, as long as none of
  the requests sets or deletes that key.
\<close>

lemma kv_persistent:
  assumes "s = (kv_load d mx kv_zero, fs)"
    "kv_handle os (call_msg ''/kv/functions/set'' [(''key'', k), (''value'', v)]) portal_resp_alloc s = Inr (0, r1, s1, ev1)"
    "list_all (\<lambda>e. \<not> overwrites k e) es" "kv_run d mx es s1 = Inr s2"
  shows "\<exists>r s3. kv_handle os' (call_msg ''/kv/functions/get'' [(''key'', k)]) portal_resp_alloc s2 = Inr (0, r, s3, []) \<and>
    resp_status r = PORTAL_OK \<and> resp_body r = v"
proof -
  have ok: "kv_dir_ok (fst s)" by (simp add: assms(1) kv_load_def kv_dir_ok_def kv_zero_def split: option.split)
  have k: "valid_key k" and st: "kv_holds (kv_dir (kv_load d mx kv_zero)) k v s1"
    using kv_set_holds [OF ok assms(2)] by (simp_all add: assms(1))
  have h: "kv_holds (kv_dir (kv_load d mx kv_zero)) k v s2" by (rule kv_run_holds [OF st k assms(3,4)])
  moreover have "key_file (kv_dir (kv_load d mx kv_zero)) k = kv_dir (kv_load d mx kv_zero) @ ''/'' @ k"
    using key_file_whole [OF ok k] by (simp add: assms(1))
  ultimately show ?thesis using k
    by (simp add: kv_handle_def kv_get_def with_key_def kv_path_def kv_holds_def m_body_def portal_resp_set_body_def portal_resp_set_status_def)
qed

end
