(* ===== verification/Template.thy ===== *)
theory Template
  imports Mod_Kit
begin

section \<open>Templates (mod_template)\<close>

text \<open>
  \<^verbatim>\<open>modules/mod_template/mod_template.c\<close>: templates are files of one directory, cached in a table
  after the first use, and rendered by replacing \<open>{{key}}\<close> by the value of the header \<open>key\<close>. The
  data of the module is paired with the file system; \<open>can_write\<close> and the names of the directory
  come from the operating system. The table has \<open>TPL_MAX\<close> slots, while \<open>g_max\<close> is what the
  configuration says.
\<close>

abbreviation (input) TPL_MAX :: nat where "TPL_MAX \<equiv> 256"
abbreviation (input) TPL_MAX_SIZE :: nat where "TPL_MAX_SIZE \<equiv> 65536"
abbreviation (input) TPL_OUT_SIZE :: nat where "TPL_OUT_SIZE \<equiv> 131072"

record template =
  tp_name :: string
  tp_content :: string
  tp_active :: bool

record tpl_module =
  tm_templates :: "template list"
  tm_max :: int
  tm_dir :: string
  tm_renders :: int

type_synonym tpl_state = "tpl_module \<times> file_system"

definition tpl_zero :: tpl_module where
  "tpl_zero = \<lparr>tm_templates = [], tm_max = int TPL_MAX, tm_dir = ''/var/lib/portal/templates'', tm_renders = 0\<rparr>"

definition find_template :: "tpl_module \<Rightarrow> string \<Rightarrow> nat option" where
  "find_template m name = find_index (\<lambda>t. tp_active t \<and> tp_name t = name) (tm_templates m)"

definition tpl_path :: "tpl_module \<Rightarrow> string \<Rightarrow> string" where
  "tpl_path m name = csnprintf 1024 (tm_dir m @ ''/'' @ name)"

definition load_template :: "string \<Rightarrow> tpl_state \<Rightarrow> (string option \<times> tpl_state) outcome" where
  "load_template name s =
     (case s of (m, fs) \<Rightarrow>
        case find_template m name of
          Some i \<Rightarrow> Inr (Some (tp_content (tm_templates m ! i)), s)
        | None \<Rightarrow>
            if tm_max m \<le> int (length (tm_templates m)) then Inr (None, s)
            else case fs (tpl_path m name) of
              None \<Rightarrow> Inr (None, s)
            | Some content \<Rightarrow>
                if TPL_MAX_SIZE < length content then Inr (None, s)
                else if TPL_MAX \<le> length (tm_templates m) then Inl Over_write
                else Inr (Some content,
                       (m\<lparr>tm_templates := tm_templates m @
                            [\<lparr>tp_name = csnprintf 128 name, tp_content = content, tp_active = True\<rparr>]\<rparr>, fs)))"

subsection \<open>Rendering\<close>

text \<open>
  \<open>find_close s\<close>: what \<open>strstr(s, "}}")\<close> finds in a string that ends at its first NUL. The content
  of a file has a terminator; the body of a message has none, so a search that reaches its end
  reads on behind it (\<open>terminated\<close> is false).
\<close>

fun find_close :: "string \<Rightarrow> nat option" where
  "find_close (c # d # s) =
     (if c = NUL then None else if c = CHR ''}'' \<and> d = CHR ''}'' then Some 0 else map_option Suc (find_close (d # s)))"
| "find_close s = None"

definition strstr_close :: "bool \<Rightarrow> string \<Rightarrow> nat option outcome" where
  "strstr_close terminated s =
     (case find_close s of
        Some k \<Rightarrow> Inr (Some k)
      | None \<Rightarrow> if terminated \<or> NUL \<in> set s then Inr None else Inl Over_read)"

definition trim_key :: "string \<Rightarrow> string" where
  "trim_key key = rev (dropWhile (\<lambda>c. c = CHR '' '') (rev (dropWhile (\<lambda>c. c = CHR '' '') key)))"

text \<open>One round of the loop at a position that starts with two braces: the key, its length, or none.\<close>

definition tag_at :: "bool \<Rightarrow> string \<Rightarrow> nat option outcome" where
  "tag_at terminated src =
     (if 3 < length src \<and> src ! 0 = CHR ''{'' \<and> src ! 1 = CHR ''{''
      then obind (strstr_close terminated (drop 2 src)) (\<lambda>k. Inr (case k of Some n \<Rightarrow> if n < 256 then Some n else None | None \<Rightarrow> None))
      else Inr None)"

function render_loop :: "portal_header list \<Rightarrow> bool \<Rightarrow> nat \<Rightarrow> string \<Rightarrow> string \<Rightarrow> string outcome" where
  "render_loop hs terminated outlen src out =
     (if src = [] \<or> outlen - 1 \<le> length out then Inr out
      else obind (tag_at terminated src) (\<lambda>tag.
        case tag of
          None \<Rightarrow> render_loop hs terminated outlen (tl src) (out @ [hd src])
        | Some klen \<Rightarrow>
            obind (get_header hs (trim_key (take klen (drop 2 src)))) (\<lambda>val.
              let piece = (case val of Some v \<Rightarrow> v | None \<Rightarrow> take (klen + 4) src)
              in render_loop hs terminated outlen (drop (klen + 4) src)
                   (if length out + length piece < outlen - 1 then out @ piece else out))))"
  by pat_completeness auto
termination
  by (relation "measure (\<lambda>(hs, terminated, outlen, src, out). length src)") auto

declare render_loop.simps [simp del]

definition render_template :: "bool \<Rightarrow> string \<Rightarrow> portal_header list \<Rightarrow> nat \<Rightarrow> string outcome" where
  "render_template terminated content hs outlen = render_loop hs terminated outlen content []"

subsection \<open>Loading and requests\<close>

definition tpl_load :: "string option \<Rightarrow> string option \<Rightarrow> tpl_module \<Rightarrow> tpl_module" where
  "tpl_load template_dir max_templates m =
     \<lparr>tm_templates = [], tm_max = (case max_templates of None \<Rightarrow> tm_max m | Some v \<Rightarrow> atoi v),
      tm_dir = (case template_dir of None \<Rightarrow> tm_dir m | Some v \<Rightarrow> csnprintf 512 v), tm_renders = 0\<rparr>"

definition tpl_paths :: "path_decl list" where
  "tpl_paths =
     [(''/template/resources/status'', PORTAL_ACCESS_READ, Some ''Template engine: template count, directory''),
      (''/template/resources/list'', PORTAL_ACCESS_READ, Some ''List available templates''),
      (''/template/functions/render'', PORTAL_ACCESS_RW, Some ''Render template. Header: name. Body: key=value variables''),
      (''/template/functions/reload'', PORTAL_ACCESS_RW, None),
      (''/template/functions/store'', PORTAL_ACCESS_RW, None)]"

definition tpl_status :: "portal_resp \<Rightarrow> tpl_state \<Rightarrow> tpl_state mod_result" where
  "tpl_status resp s =
     (let m = fst s
      in m_text 8192 PORTAL_OK
           (''Template Engine'' @ NL @ ''Directory: '' @ tm_dir m @ NL @
            ''Cached: '' @ dec (int (length (tm_templates m))) @ '' / '' @ dec (tm_max m) @ NL @
            ''Renders: '' @ dec (tm_renders m) @ NL) 0 resp s [])"

definition tpl_list :: "string list option \<Rightarrow> portal_resp \<Rightarrow> tpl_state \<Rightarrow> tpl_state mod_result" where
  "tpl_list names resp s =
     (let m = fst s;
          files = filter (\<lambda>n. n = [] \<or> hd n \<noteq> CHR ''.'') (case names of None \<Rightarrow> [] | Some ns \<Rightarrow> ns);
          text = fold (\<lambda>n. off_append_below (8192 - 128) 8192
                     (''  '' @ pad 30 n @ '' '' @ (if find_template m n \<noteq> None then ''(cached)'' else []) @ NL)) files
                   (Inr (''Templates:'' @ NL));
          text = fold (\<lambda>t. off_append 8192 (''  '' @ pad 30 (tp_name t) @ '' (cached, '' @ dec (int (length (tp_content t))) @ '' bytes)'' @ NL))
                   (filter tp_active (tm_templates m)) text
      in obind text (\<lambda>t.
         obind (if length t < 20 then off_append 8192 (''  (none)'' @ NL) (Inr t) else Inr t) (\<lambda>t.
           m_text 8192 PORTAL_OK t 0 resp s [])))"

definition bad_name :: "string \<Rightarrow> bool" where
  "bad_name name \<longleftrightarrow> sublist ''..'' name \<or> (name \<noteq> [] \<and> hd name = CHR ''/'')"

definition rendered :: "tpl_state \<Rightarrow> tpl_state" where
  "rendered s = ((fst s)\<lparr>tm_renders := tm_renders (fst s) + 1\<rparr>, snd s)"

definition handle_render :: "portal_msg \<Rightarrow> portal_resp \<Rightarrow> tpl_state \<Rightarrow> tpl_state mod_result" where
  "handle_render msg resp s =
     obind (get_header (msg_headers msg) ''name'') (\<lambda>name.
       case name of
         None \<Rightarrow>
           if msg_body msg \<noteq> []
           then obind (render_template False (msg_body msg) (msg_headers msg) TPL_OUT_SIZE) (\<lambda>out. m_body PORTAL_OK out 0 resp (rendered s) [])
           else m_text 8192 PORTAL_BAD_REQUEST (''Need: name header or template in body'' @ NL) (-1) resp s []
       | Some n \<Rightarrow>
           if bad_name n then m_status PORTAL_BAD_REQUEST (-1) resp s
           else obind (load_template n s) (\<lambda>(t, s).
             case t of
               None \<Rightarrow> m_text 8192 PORTAL_NOT_FOUND (''Template not found: '' @ n @ NL) (-1) resp s []
             | Some content \<Rightarrow>
                 obind (render_template True content (msg_headers msg) TPL_OUT_SIZE) (\<lambda>out.
                   m_body PORTAL_OK out 0 resp (rendered s) [(''/events/template/render'', n)])))"

definition forget :: "tpl_module \<Rightarrow> string \<Rightarrow> tpl_module" where
  "forget m name =
     (case find_template m name of
        None \<Rightarrow> m
      | Some i \<Rightarrow> m\<lparr>tm_templates := (tm_templates m)[i := (tm_templates m ! i)\<lparr>tp_active := False\<rparr>]\<rparr>)"

definition handle_store :: "(string \<Rightarrow> bool) \<Rightarrow> portal_msg \<Rightarrow> portal_resp \<Rightarrow> tpl_state \<Rightarrow> tpl_state mod_result" where
  "handle_store can_write msg resp s =
     obind (get_header (msg_headers msg) ''name'') (\<lambda>name.
     obind (if msg_body msg \<noteq> [] then Inr (Some (msg_body msg)) else get_header (msg_headers msg) ''content'') (\<lambda>content.
       case (name, content) of
         (Some n, Some c) \<Rightarrow>
           if bad_name n then m_status PORTAL_BAD_REQUEST (-1) resp s
           else if \<not> can_write (tpl_path (fst s) n) then m_status PORTAL_INTERNAL_ERROR (-1) resp s
           else m_text 8192 PORTAL_CREATED (''Template '' @ [CHR 0x27] @ n @ [CHR 0x27] @ '' stored ('' @ dec (int (length c)) @ '' bytes)'' @ NL)
                  0 resp (forget (fst s) n, (snd s)(tpl_path (fst s) n \<mapsto> c)) [(''/events/template/store'', n)]
       | _ \<Rightarrow> m_text 8192 PORTAL_BAD_REQUEST (''Need: name header + body or content header'' @ NL) (-1) resp s []))"

definition handle_reload :: "portal_resp \<Rightarrow> tpl_state \<Rightarrow> tpl_state mod_result" where
  "handle_reload resp s =
     m_text 8192 PORTAL_OK (''Template cache cleared'' @ NL) 0 resp ((fst s)\<lparr>tm_templates := []\<rparr>, snd s) [(''/events/template/reload'', ''all'')]"

definition tpl_handle ::
    "(string \<Rightarrow> bool) \<Rightarrow> string list option \<Rightarrow> portal_msg \<Rightarrow> portal_resp \<Rightarrow> tpl_state \<Rightarrow> tpl_state mod_result" where
  "tpl_handle can_write names msg resp s =
     (case msg_path msg of
        None \<Rightarrow> Inl Null_deref
      | Some path \<Rightarrow>
          if path = ''/template/resources/status'' then tpl_status resp s
          else if path = ''/template/resources/list'' then tpl_list names resp s
          else if path = ''/template/functions/render'' then handle_render msg resp s
          else if path = ''/template/functions/store'' then handle_store can_write msg resp s
          else if path = ''/template/functions/reload'' then handle_reload resp s
          else m_status PORTAL_NOT_FOUND (-1) resp s)"

subsection \<open>The output stays in its buffer\<close>

lemma render_loop_bounded:
  "render_loop hs terminated outlen src out = Inr res \<Longrightarrow> length out \<le> outlen - 1 \<Longrightarrow> length res \<le> outlen - 1"
proof (induction hs terminated outlen src out rule: render_loop.induct)
  case (1 hs terminated outlen src out)
  show ?case
  proof (cases "src = [] \<or> outlen - 1 \<le> length out")
    case True
    with "1.prems" show ?thesis by (auto simp: render_loop.simps [of hs terminated outlen src out])
  next
    case False
    then obtain tag where tag: "tag_at terminated src = Inr tag"
      using "1.prems"(1) by (auto simp: render_loop.simps [of hs terminated outlen src out] obind_Inr)
    show ?thesis
    proof (cases tag)
      case None
      with False tag "1.IH"(1) [OF False] "1.prems" show ?thesis
        by (simp add: render_loop.simps [of hs terminated outlen src out])
    next
      case (Some klen)
      with False tag "1.prems"(1) obtain val where val: "get_header hs (trim_key (take klen (drop 2 src))) = Inr val"
        by (auto simp: render_loop.simps [of hs terminated outlen src out] obind_Inr)
      with False tag Some "1.IH"(2) [OF False refl] "1.prems" show ?thesis
        by (auto simp: render_loop.simps [of hs terminated outlen src out] Let_def)
    qed
  qed
qed

text \<open>
  Rendering never writes behind the output buffer: whatever the template, the headers
  and the lengths of their values, the text and its terminator fit in \<open>outlen\<close> bytes.
\<close>

lemma render_bounded:
  assumes "render_template terminated content hs outlen = Inr res" "0 < outlen"
  shows "length res + 1 \<le> outlen"
  using render_loop_bounded [of hs terminated outlen content "[]" res] assms by (simp add: render_template_def)

subsection \<open>Substitution\<close>

text \<open>A template put together from literal text and tags, and what it stands for under some headers.\<close>

definition print_tag :: "string \<Rightarrow> string" where
  "print_tag k = ''{{'' @ k @ ''}}''"

definition print_template :: "(string \<times> string) list \<Rightarrow> string \<Rightarrow> string" where
  "print_template segs tail = concat (map (\<lambda>(l, k). l @ print_tag k) segs) @ tail"

definition tag_value :: "portal_header list \<Rightarrow> string \<Rightarrow> string" where
  "tag_value hs k = (case get_header hs (trim_key k) of Inr (Some v) \<Rightarrow> v | _ \<Rightarrow> print_tag k)"

definition expand :: "portal_header list \<Rightarrow> (string \<times> string) list \<Rightarrow> string \<Rightarrow> string" where
  "expand hs segs tail = concat (map (\<lambda>(l, k). l @ tag_value hs k) segs) @ tail"

definition clean_segs :: "(string \<times> string) list \<Rightarrow> string \<Rightarrow> bool" where
  "clean_segs segs tail \<longleftrightarrow>
     list_all (\<lambda>(l, k). CHR ''{'' \<notin> set l \<and> CHR ''}'' \<notin> set k \<and> NUL \<notin> set k \<and> length k < 256) segs \<and> CHR ''{'' \<notin> set tail"

lemma find_close_key: "CHR ''}'' \<notin> set k \<Longrightarrow> NUL \<notin> set k \<Longrightarrow> find_close (k @ ''}}'' @ s) = Some (length k)"
proof (induction k)
  case (Cons c k)
  then show ?case by (cases k) auto
qed simp

lemma render_literal:
  "CHR ''{'' \<notin> set l \<Longrightarrow> length out + length l < outlen \<Longrightarrow>
     render_loop hs terminated outlen (l @ src) out = render_loop hs terminated outlen src (out @ l)"
proof (induction l arbitrary: out)
  case (Cons c l)
  have "tag_at terminated ((c # l) @ src) = Inr None" using Cons.prems(1) by (auto simp: tag_at_def)
  then have "render_loop hs terminated outlen ((c # l) @ src) out = render_loop hs terminated outlen (l @ src) (out @ [c])"
    using Cons.prems(2) less_diff_conv [of "length out" outlen 1] by (subst render_loop.simps) (simp add: not_le)
  with Cons.IH [of "out @ [c]"] Cons.prems show ?case by simp
qed simp

lemma render_tag:
  assumes "CHR ''}'' \<notin> set k" "NUL \<notin> set k" "length k < 256" "keys_present hs" "length out + length (tag_value hs k) + 1 < outlen"
  shows "render_loop hs terminated outlen (print_tag k @ src) out = render_loop hs terminated outlen src (out @ tag_value hs k)"
proof -
  have "tag_at terminated (print_tag k @ src) = Inr (Some (length k))"
    using assms(3) find_close_key [OF assms(1,2), of src] by (simp add: tag_at_def strstr_close_def print_tag_def)
  moreover obtain val where val: "get_header hs (trim_key k) = Inr val" using get_header_present [OF assms(4)] by blast
  moreover have len: "length (print_tag k) = length k + 4" by (simp add: print_tag_def)
  then have cut: "take (length k + 4) (print_tag k @ src) = print_tag k" "drop (length k + 4) (print_tag k @ src) = src"
    by (metis append_eq_conv_conj)+
  then have "(case val of Some v \<Rightarrow> v | None \<Rightarrow> take (length k + 4) (print_tag k @ src)) = tag_value hs k"
    using val by (simp add: tag_value_def split: option.split)
  moreover have "print_tag k @ src \<noteq> []" "take (length k) (drop 2 (print_tag k @ src)) = k" by (simp_all add: print_tag_def)
  moreover have "\<not> outlen - 1 \<le> length out" "length out + length (tag_value hs k) < outlen - 1" using assms(5) by linarith+
  ultimately show ?thesis using cut(2) by (subst render_loop.simps) (simp only: if_False obind_simps option.case Let_def if_True de_Morgan_disj simp_thms)
qed

lemma render_segs:
  assumes "clean_segs segs tail" "keys_present hs" "length out + length (expand hs segs tail) + 1 < outlen"
  shows "render_loop hs terminated outlen (print_template segs tail) out = Inr (out @ expand hs segs tail)"
  using assms(1,3)
proof (induction segs arbitrary: out)
  case Nil
  have "render_loop hs terminated outlen (tail @ []) out = render_loop hs terminated outlen [] (out @ tail)"
    using Nil by (intro render_literal) (simp_all add: clean_segs_def expand_def)
  then show ?case by (simp add: print_template_def expand_def render_loop.simps [of hs terminated outlen "[]"])
next
  case (Cons lk segs)
  obtain l k where lk: "lk = (l, k)" by fastforce
  have c: "CHR ''{'' \<notin> set l" "CHR ''}'' \<notin> set k" "NUL \<notin> set k" "length k < 256" "clean_segs segs tail"
    using Cons.prems(1) by (auto simp: clean_segs_def lk)
  have len: "length out + length l + length (tag_value hs k) + length (expand hs segs tail) + 1 < outlen"
    using Cons.prems(2) by (simp add: expand_def lk)
  have "render_loop hs terminated outlen (l @ print_tag k @ print_template segs tail) out =
      render_loop hs terminated outlen (print_tag k @ print_template segs tail) (out @ l)"
    using len by (intro render_literal c) simp
  also have "\<dots> = render_loop hs terminated outlen (print_template segs tail) ((out @ l) @ tag_value hs k)"
    using len by (intro render_tag c assms(2)) simp
  also have "\<dots> = Inr (((out @ l) @ tag_value hs k) @ expand hs segs tail)" using len by (intro Cons.IH c) simp
  finally show ?case by (simp add: print_template_def expand_def lk)
qed

text \<open>
  Property C24. Rendering substitutes: a template that consists of literal text without braces and
  tags \<open>{{key}}\<close>, when the result fits the buffer, renders to the same text with each tag replaced by
  the value of the header of that name, spaces around the name ignored, and with the tags that name no
  header left as they are. This holds for a template from a file and for one in a message body.
\<close>

theorem template_substitution:
  assumes "clean_segs segs tail" "keys_present hs" "length (expand hs segs tail) + 1 < outlen"
  shows "render_template terminated (print_template segs tail) hs outlen = Inr (expand hs segs tail)"
  using render_segs [OF assms(1,2), of "[]" outlen] assms(3) by (simp add: render_template_def)

theorem template_substitution_witness:
  "let hs = [(Some ''who'', Some ''Ann'')]; segs = [(''Dear '', '' who ''), ('', you owe '', ''sum'')]; tail = ''.''
   in clean_segs segs tail \<and> keys_present hs \<and>
      render_template False ''Dear {{ who }}, you owe {{sum}}.'' hs 131072 = Inr ''Dear Ann, you owe {{sum}}.''"
proof -
  let ?hs = "[(Some ''who'', Some ''Ann'')]" and ?segs = "[(''Dear '', '' who ''), ('', you owe '', ''sum'')]"
  have "clean_segs ?segs ''.''" "keys_present ?hs" by (simp_all add: clean_segs_def keys_present_def)
  moreover have "expand ?hs ?segs ''.'' = ''Dear Ann, you owe {{sum}}.''"
    by (simp add: expand_def tag_value_def trim_key_def get_header_def print_tag_def)
  moreover have "print_template ?segs ''.'' = ''Dear {{ who }}, you owe {{sum}}.''" by (simp add: print_template_def print_tag_def)
  ultimately show ?thesis using template_substitution [of ?segs "''.''" ?hs 131072 False] by simp
qed

end
