(* ===== verification/Crypto.thy ===== *)
theory Crypto
  imports Mod_Kit Sha256
begin

unbundle bit_operations_syntax

section \<open>Hashes and encodings (mod_crypto)\<close>

text \<open>
  \<^verbatim>\<open>modules/mod_crypto/mod_crypto.c\<close>: SHA-256, MD5, Base64 and hexadecimal as functions of the core. Bytes
  are characters. The encoders and decoders write into local arrays of the handler without looking at
  their size, so each takes the size of its array and a write behind it is a fault.
\<close>

subsection \<open>Hexadecimal\<close>

definition hex_encode :: "nat \<Rightarrow> string \<Rightarrow> string outcome" where
  "hex_encode size_of s = (if size_of < 2 * length s + 1 then Inl Over_write else Inr (concat (map hex_byte s)))"

definition hex_val :: "char \<Rightarrow> nat option" where
  "hex_val c =
     (let n = of_char c
      in if 48 \<le> n \<and> n \<le> 57 then Some (n - 48)
         else if 97 \<le> n \<and> n \<le> 102 then Some (n - 87)
         else if 65 \<le> n \<and> n \<le> 70 then Some (n - 55)
         else None)"

text \<open>
  The conversion \<open>%2x\<close> of \<open>sscanf\<close>: white space is skipped and not counted, then at most two characters
  form a number with an optional sign; \<open>0x\<close> alone is no number.
\<close>

definition scan_2x :: "string \<Rightarrow> int option" where
  "scan_2x s =
     (case dropWhile isspace s of
        [] \<Rightarrow> None
      | c # t \<Rightarrow>
          if c = CHR ''-'' \<or> c = CHR ''+'' then
            (case t of
               [] \<Rightarrow> None
             | d # _ \<Rightarrow> map_option (\<lambda>v. if c = CHR ''-'' then - int v else int v) (hex_val d))
          else case hex_val c of
            None \<Rightarrow> None
          | Some v \<Rightarrow>
              (case t of
                 [] \<Rightarrow> Some (int v)
               | d # _ \<Rightarrow>
                   if c = CHR ''0'' \<and> (d = CHR ''x'' \<or> d = CHR ''X'') then None
                   else case hex_val d of None \<Rightarrow> Some (int v) | Some w \<Rightarrow> Some (int (16 * v + w))))"

text \<open>One byte more in an array of \<open>size_of\<close> bytes.\<close>

definition put_byte :: "nat \<Rightarrow> 32 word \<Rightarrow> string \<Rightarrow> string outcome" where
  "put_byte size_of v out = (if size_of \<le> length out then Inl Over_write else Inr (out @ [b8 v]))"

fun hex_loop :: "nat \<Rightarrow> nat \<Rightarrow> string \<Rightarrow> string \<Rightarrow> string option outcome" where
  "hex_loop size_of 0 s out = Inr (Some out)"
| "hex_loop size_of (Suc k) s out =
     (case scan_2x s of
        None \<Rightarrow> Inr None
      | Some v \<Rightarrow> obind (put_byte size_of (word_of_int v) out) (hex_loop size_of k (drop 2 s)))"

definition hex_decode :: "nat \<Rightarrow> string \<Rightarrow> string option outcome" where
  "hex_decode size_of s = (if length s mod 2 \<noteq> 0 then Inr None else hex_loop size_of (length s div 2) s [])"

subsection \<open>Base64\<close>

definition b64_enc :: string where
  "b64_enc = ''ABCDEFGHIJKLMNOPQRSTUVWXYZabcdefghijklmnopqrstuvwxyz0123456789+/''"

definition b64_char :: "32 word \<Rightarrow> char" where
  "b64_char v = b64_enc ! unat v"

fun base64_text :: "string \<Rightarrow> string" where
  "base64_text (x # y # z # s) =
     (let a = w8 x; b = w8 y; c = w8 z
      in [b64_char (drop_bit 2 a AND 0x3F), b64_char (push_bit 4 (a AND 0x3) OR (drop_bit 4 b AND 0xF)),
          b64_char (push_bit 2 (b AND 0xF) OR (drop_bit 6 c AND 0x3)), b64_char (c AND 0x3F)] @ base64_text s)"
| "base64_text [x, y] =
     (let a = w8 x; b = w8 y
      in [b64_char (drop_bit 2 a AND 0x3F), b64_char (push_bit 4 (a AND 0x3) OR (drop_bit 4 b AND 0xF)),
          b64_char (push_bit 2 (b AND 0xF)), CHR ''=''])"
| "base64_text [x] =
     (let a = w8 x in [b64_char (drop_bit 2 a AND 0x3F), b64_char (push_bit 4 (a AND 0x3)), CHR ''='', CHR ''=''])"
| "base64_text [] = []"

definition base64_encode :: "nat \<Rightarrow> string \<Rightarrow> string outcome" where
  "base64_encode size_of s = (if size_of \<le> length (base64_text s) then Inl Over_write else Inr (base64_text s))"

definition b64_val :: "char \<Rightarrow> 32 word option" where
  "b64_val ch =
     (let c = of_char ch
      in if 65 \<le> c \<and> c \<le> 90 then Some (word_of_nat (c - 65))
         else if 97 \<le> c \<and> c \<le> 122 then Some (word_of_nat (c - 97 + 26))
         else if 48 \<le> c \<and> c \<le> 57 then Some (word_of_nat (c - 48 + 52))
         else if ch = CHR ''+'' then Some 62
         else if ch = CHR ''/'' then Some 63
         else None)"

fun base64_loop :: "nat \<Rightarrow> string \<Rightarrow> string \<Rightarrow> string option outcome" where
  "base64_loop size_of (p # q # r # s # rest) out =
     (case (b64_val p, b64_val q, if r = CHR ''='' then Some 0 else b64_val r, if s = CHR ''='' then Some 0 else b64_val s) of
        (Some a, Some b, Some c, Some d) \<Rightarrow>
          obind (put_byte size_of (push_bit 2 a OR drop_bit 4 b) out) (\<lambda>out.
          obind (if r \<noteq> CHR ''='' then put_byte size_of (push_bit 4 b OR drop_bit 2 c) out else Inr out) (\<lambda>out.
          obind (if s \<noteq> CHR ''='' then put_byte size_of (push_bit 6 c OR d) out else Inr out) (\<lambda>out.
            base64_loop size_of rest out)))
      | _ \<Rightarrow> Inr None)"
| "base64_loop size_of _ out = Inr (Some out)"

definition base64_decode :: "nat \<Rightarrow> string \<Rightarrow> string option outcome" where
  "base64_decode size_of s = (if length s mod 4 \<noteq> 0 then Inr None else base64_loop size_of s [])"

lemma b64_enc_ranges: "b64_enc = map char_of ([65..<91] @ [97..<123] @ [48..<58] @ [43, 47 :: nat])"
  by code_simp

lemma b64_enc_nth: "n < 64 \<Longrightarrow> b64_enc ! n =
    char_of (if n < 26 then 65 + n else if n < 52 then 71 + n else if n < 62 then n - 4 else if n = 62 then 43 else 47)"
  by (simp add: b64_enc_ranges nth_append del: upt_rec_numeral upt_Suc map_append) arith

lemma b64_val_enc:
  assumes "n < 64"
  shows "b64_val (b64_enc ! n) = Some (word_of_nat n)" "b64_enc ! n \<noteq> CHR ''=''"
proof -
  have plus: "char_of (43 :: nat) = CHR ''+''" and slash: "char_of (47 :: nat) = CHR ''/''" by code_simp+
  consider "n < 26" | "26 \<le> n" "n < 52" | k where "n = 52 + k" "k < 10" | "n = 62" | "n = 63"
    using assms that(3) [of "n - 52"] by fastforce
  then show "b64_val (b64_enc ! n) = Some (word_of_nat n)"
    using plus slash by cases (simp_all add: b64_enc_nth b64_val_def Let_def)
  have "(of_char (b64_enc ! n) :: nat) \<noteq> of_char (CHR ''='')" using assms by (simp add: b64_enc_nth) arith
  then show "b64_enc ! n \<noteq> CHR ''=''" by auto
qed

lemma b64_val_char: "v < 64 \<Longrightarrow> b64_val (b64_char v) = Some v" "v < 64 \<Longrightarrow> b64_char v \<noteq> CHR ''=''"
  using b64_val_enc [of "unat v"] by (simp_all add: b64_char_def word_less_nat_alt)

lemma hex_val_digit: "n < 16 \<Longrightarrow> hex_val (hex_digits ! n) = Some n \<and> \<not> isspace (hex_digits ! n) \<and>
    hex_digits ! n \<notin> {CHR ''-'', CHR ''+'', CHR ''x'', CHR ''X''}"
proof -
  have "list_all (\<lambda>n. hex_val (hex_digits ! n) = Some n \<and> \<not> isspace (hex_digits ! n) \<and>
    hex_digits ! n \<notin> {CHR ''-'', CHR ''+'', CHR ''x'', CHR ''X''}) [0..<16]" by code_simp
  then show "n < 16 \<Longrightarrow> ?thesis" by (simp add: list_all_iff)
qed

lemma scan_2x_byte: "scan_2x (hex_byte c @ s) = Some (int (of_char c))"
proof -
  let ?n = "of_char c :: nat"
  have lt: "?n div 16 < 16" "?n mod 16 < 16" by (simp_all add: less_mult_imp_div_less)
  show ?thesis using hex_val_digit [OF lt(1)] hex_val_digit [OF lt(2)]
    by (auto simp: scan_2x_def hex_byte_def Let_def)
qed

lemma b8_w8: "b8 (w8 c :: 32 word) = c"
proof -
  have "(of_char c :: nat) < 2 ^ 32" by (rule less_trans [of _ 256]) simp_all
  then have "(of_char c :: nat) mod 2 ^ 32 = of_char c" by (rule mod_less)
  then show ?thesis by (simp add: b8_def w8_def unat_of_nat take_bit_eq_mod)
qed

lemma b8_of_char: "b8 (word_of_nat (of_char c) :: 32 word) = c"
  using b8_w8 [of c] by (simp add: w8_def)

subsection \<open>Round trips\<close>

lemma hex_loop_encoded:
  "length out + length s \<le> n \<Longrightarrow> hex_loop n (length s) (concat (map hex_byte s)) out = Inr (Some (out @ s))"
proof (induction s arbitrary: out)
  case (Cons c s)
  have "drop 2 (hex_byte c @ t) = t" for t by (simp add: hex_byte_def Let_def)
  with Cons show ?case by (simp add: scan_2x_byte put_byte_def b8_of_char)
qed simp

lemma length_hex: "length (concat (map hex_byte s)) = 2 * length s"
  by (induction s) (simp_all add: hex_byte_def Let_def)

lemma hex_decode_encode: "length s \<le> n \<Longrightarrow> hex_decode n (concat (map hex_byte s)) = Inr (Some s)"
  using hex_loop_encoded [of "[]" s n] by (simp add: hex_decode_def length_hex)

lemma b8_eqI: "(\<And>n. n < 8 \<Longrightarrow> bit v n = bit (w8 c :: 32 word) n) \<Longrightarrow> b8 (v :: 32 word) = c"
proof -
  assume eq: "\<And>n. n < 8 \<Longrightarrow> bit v n = bit (w8 c :: 32 word) n"
  have "take_bit 8 v = take_bit 8 (w8 c)" by (rule bit_word_eqI) (auto simp: bit_take_bit_iff eq)
  then have "w8 (b8 v) = (w8 (b8 (w8 c :: 32 word)) :: 32 word)" by (simp only: w8_b8)
  then show "b8 v = c" by (metis b8_w8)
qed

lemma below_64: "(\<And>n. 6 \<le> n \<Longrightarrow> \<not> bit v n) \<Longrightarrow> (v :: 32 word) < 64"
proof -
  assume high: "\<And>n. 6 \<le> n \<Longrightarrow> \<not> bit v n"
  have "take_bit 6 v = v" by (rule bit_word_eqI) (use high not_less in \<open>auto simp: bit_take_bit_iff\<close>)
  then have "unat v = take_bit 6 (unat v)" by (metis unsigned_take_bit_eq)
  moreover have "take_bit 6 (unat v) < 2 ^ 6" by (rule take_bit_nat_less_exp)
  ultimately have "unat v < 64" by simp
  then show "v < 64" by (simp add: word_less_nat_alt)
qed

lemma masks: "(0x3F :: 32 word) = mask 6" "(0xF :: 32 word) = mask 4" "(0x3 :: 32 word) = mask 2"
  by (simp_all add: mask_eq_exp_minus_1)

lemma sextets:
  fixes a b c :: "32 word"
  shows "drop_bit 2 a AND 0x3F < 64" "push_bit 4 (a AND 0x3) OR (drop_bit 4 b AND 0xF) < 64"
    "push_bit 2 (b AND 0xF) OR (drop_bit 6 c AND 0x3) < 64" "c AND 0x3F < 64" "push_bit 2 (b AND 0xF) < 64" "push_bit 4 (a AND 0x3) < 64"
  by (rule below_64; simp add: masks bit_simps; arith)+

lemma below_8: "n < (8 :: nat) \<longleftrightarrow> n = 0 \<or> n = 1 \<or> n = 2 \<or> n = 3 \<or> n = 4 \<or> n = 5 \<or> n = 6 \<or> n = 7"
  by auto

lemma octets:
  fixes x y z :: char
  defines "a \<equiv> w8 x :: 32 word" and "b \<equiv> w8 y :: 32 word" and "c \<equiv> w8 z :: 32 word"
  shows "b8 (push_bit 2 (drop_bit 2 a AND 0x3F) OR drop_bit 4 (push_bit 4 (a AND 0x3) OR (drop_bit 4 b AND 0xF))) = x"
    "b8 (push_bit 2 (drop_bit 2 a AND 0x3F) OR drop_bit 4 (push_bit 4 (a AND 0x3))) = x"
    "b8 (push_bit 4 (push_bit 4 (a AND 0x3) OR (drop_bit 4 b AND 0xF)) OR drop_bit 2 (push_bit 2 (b AND 0xF) OR (drop_bit 6 c AND 0x3))) = y"
    "b8 (push_bit 4 (push_bit 4 (a AND 0x3) OR (drop_bit 4 b AND 0xF)) OR drop_bit 2 (push_bit 2 (b AND 0xF))) = y"
    "b8 (push_bit 6 (push_bit 2 (b AND 0xF) OR (drop_bit 6 c AND 0x3)) OR (c AND 0x3F)) = z"
  unfolding a_def b_def c_def
  by (rule b8_eqI; auto simp: below_8 bit_simps; simp add: numeral_2_eq_2 numeral_3_eq_3)+

lemma base64_loop_encoded:
  "length out + length s \<le> n \<Longrightarrow> base64_loop n (base64_text s) out = Inr (Some (out @ s))"
proof (induction s arbitrary: out rule: base64_text.induct)
  case (1 x y z s)
  show ?case using "1.IH" [of "w8 x" "w8 y" "w8 z" "out @ [x, y, z]"] "1.prems"
    by (simp add: Let_def b64_val_char sextets put_byte_def octets del: push_bit_and push_bit_or push_bit_push_bit drop_bit_or drop_bit_push_bit)
qed (simp_all add: Let_def b64_val_char sextets put_byte_def octets del: push_bit_and push_bit_or push_bit_push_bit drop_bit_or drop_bit_push_bit)

lemma hex_loop_long:
  "length out \<le> n \<Longrightarrow> n < length out + length s \<Longrightarrow> hex_loop n (length s) (concat (map hex_byte s)) out = Inl Over_write"
proof (induction s arbitrary: out)
  case (Cons c s)
  have "drop 2 (hex_byte c @ t) = t" for t by (simp add: hex_byte_def Let_def)
  with Cons show ?case by (simp add: scan_2x_byte put_byte_def)
qed simp

lemma base64_loop_long:
  "length out \<le> n \<Longrightarrow> n < length out + length s \<Longrightarrow> base64_loop n (base64_text s) out = Inl Over_write"
proof (induction s arbitrary: out rule: base64_text.induct)
  case (1 x y z s)
  show ?case using "1.IH" [of "w8 x" "w8 y" "w8 z" "out @ [x, y, z]"] "1.prems"
    by (simp add: Let_def b64_val_char sextets put_byte_def octets del: push_bit_and push_bit_or push_bit_push_bit drop_bit_or drop_bit_push_bit)
qed (simp_all add: Let_def b64_val_char sextets put_byte_def octets del: push_bit_and push_bit_or push_bit_push_bit drop_bit_or drop_bit_push_bit)

lemma length_base64: "length (base64_text s) = 4 * ((length s + 2) div 3)"
proof (induction s rule: base64_text.induct)
  case (1 x y z s)
  have "(5 + k) div 3 = Suc (Suc (Suc k) div 3)" for k :: nat by presburger
  with 1 show ?case by (simp add: Let_def)
qed (simp_all add: Let_def)

lemma base64_decode_encode: "length s \<le> n \<Longrightarrow> base64_decode n (base64_text s) = Inr (Some s)"
  using base64_loop_encoded [of "[]" s n] by (simp add: base64_decode_def length_base64)

subsection \<open>MD5\<close>

definition md5_F :: "32 word \<Rightarrow> 32 word \<Rightarrow> 32 word \<Rightarrow> 32 word" where
  "md5_F x y z = (x AND y) OR (NOT x AND z)"

definition md5_G :: "32 word \<Rightarrow> 32 word \<Rightarrow> 32 word \<Rightarrow> 32 word" where
  "md5_G x y z = (x AND z) OR (y AND NOT z)"

definition md5_H :: "32 word \<Rightarrow> 32 word \<Rightarrow> 32 word \<Rightarrow> 32 word" where
  "md5_H x y z = x XOR y XOR z"

definition md5_I :: "32 word \<Rightarrow> 32 word \<Rightarrow> 32 word \<Rightarrow> 32 word" where
  "md5_I x y z = y XOR (x OR NOT z)"

definition md5_ROT :: "32 word \<Rightarrow> nat \<Rightarrow> 32 word" where
  "md5_ROT x n = push_bit n x OR drop_bit (32 - n) x"

type_synonym md5_state = "32 word \<times> 32 word \<times> 32 word \<times> 32 word"

text \<open>
  The macro \<open>STEP\<close> changes its first variable. The calls name the variables in turn, \<open>a b c d\<close>, then
  \<open>d a b c\<close>; here the names stay and the values move on by one place.
\<close>

definition md5_step :: "32 word list \<Rightarrow> (32 word \<Rightarrow> 32 word \<Rightarrow> 32 word \<Rightarrow> 32 word) \<Rightarrow> nat \<times> 32 word \<times> nat \<Rightarrow> md5_state \<Rightarrow> md5_state" where
  "md5_step m f call st =
     (case (call, st) of ((i, t, s), (a, b, c, d)) \<Rightarrow> (d, md5_ROT (a + (f b c d + m ! i + t)) s + b, b, c))"

definition md5_round1 :: "(nat \<times> 32 word \<times> nat) list" where
  "md5_round1 =
     [(0, 0xd76aa478, 7), (1, 0xe8c7b756, 12), (2, 0x242070db, 17), (3, 0xc1bdceee, 22),
      (4, 0xf57c0faf, 7), (5, 0x4787c62a, 12), (6, 0xa8304613, 17), (7, 0xfd469501, 22),
      (8, 0x698098d8, 7), (9, 0x8b44f7af, 12), (10, 0xffff5bb1, 17), (11, 0x895cd7be, 22),
      (12, 0x6b901122, 7), (13, 0xfd987193, 12), (14, 0xa679438e, 17), (15, 0x49b40821, 22)]"

definition md5_round2 :: "(nat \<times> 32 word \<times> nat) list" where
  "md5_round2 =
     [(1, 0xf61e2562, 5), (6, 0xc040b340, 9), (11, 0x265e5a51, 14), (0, 0xe9b6c7aa, 20),
      (5, 0xd62f105d, 5), (10, 0x02441453, 9), (15, 0xd8a1e681, 14), (4, 0xe7d3fbc8, 20),
      (9, 0x21e1cde6, 5), (14, 0xc33707d6, 9), (3, 0xf4d50d87, 14), (8, 0x455a14ed, 20),
      (13, 0xa9e3e905, 5), (2, 0xfcefa3f8, 9), (7, 0x676f02d9, 14), (12, 0x8d2a4c8a, 20)]"

definition md5_round3 :: "(nat \<times> 32 word \<times> nat) list" where
  "md5_round3 =
     [(5, 0xfffa3942, 4), (8, 0x8771f681, 11), (11, 0x6d9d6122, 16), (14, 0xfde5380c, 23),
      (1, 0xa4beea44, 4), (4, 0x4bdecfa9, 11), (7, 0xf6bb4b60, 16), (10, 0xbebfbc70, 23),
      (13, 0x289b7ec6, 4), (0, 0xeaa127fa, 11), (3, 0xd4ef3085, 16), (6, 0x04881d05, 23),
      (9, 0xd9d4d039, 4), (12, 0xe6db99e5, 11), (15, 0x1fa27cf8, 16), (2, 0xc4ac5665, 23)]"

definition md5_round4 :: "(nat \<times> 32 word \<times> nat) list" where
  "md5_round4 =
     [(0, 0xf4292244, 6), (7, 0x432aff97, 10), (14, 0xab9423a7, 15), (5, 0xfc93a039, 21),
      (12, 0x655b59c3, 6), (3, 0x8f0ccc92, 10), (10, 0xffeff47d, 15), (1, 0x85845dd1, 21),
      (8, 0x6fa87e4f, 6), (15, 0xfe2ce6e0, 10), (6, 0xa3014314, 15), (13, 0x4e0811a1, 21),
      (4, 0xf7537e82, 6), (11, 0xbd3af235, 10), (2, 0x2ad7d2bb, 15), (9, 0xeb86d391, 21)]"

definition md5_words :: "string \<Rightarrow> 32 word list" where
  "md5_words block =
     map (\<lambda>i. w8 (block ! (i * 4)) OR push_bit 8 (w8 (block ! (i * 4 + 1))) OR
              push_bit 16 (w8 (block ! (i * 4 + 2))) OR push_bit 24 (w8 (block ! (i * 4 + 3)))) [0..<16]"

definition md5_transform :: "string \<Rightarrow> md5_state \<Rightarrow> md5_state" where
  "md5_transform block st =
     (let m = md5_words block
      in case (fold (md5_step m md5_I) md5_round4 (fold (md5_step m md5_H) md5_round3
                (fold (md5_step m md5_G) md5_round2 (fold (md5_step m md5_F) md5_round1 st)))) of
        (a, b, c, d) \<Rightarrow> (case st of (s0, s1, s2, s3) \<Rightarrow> (s0 + a, s1 + b, s2 + c, s3 + d)))"

text \<open>
  The loop over the full blocks, then the rest in a buffer of 128 bytes: a one bit, zeros up to 56 modulo
  64 and the length in bits, least significant byte first as the memory of the machine holds it.
\<close>

fun md5_full :: "nat \<Rightarrow> string \<Rightarrow> md5_state \<Rightarrow> md5_state" where
  "md5_full 0 p st = st"
| "md5_full (Suc k) p st = md5_full k (drop 64 p) (md5_transform (take 64 p) st)"

definition gap_56 :: "nat \<Rightarrow> nat" where
  "gap_56 r = (if r \<le> 56 then 56 - r else 120 - r)"

lemma gap_56_Suc: "gap_56 (n mod 64) = (if n mod 64 = 56 then 0 else Suc (gap_56 (Suc n mod 64)))"
proof -
  have "r < 64 \<Longrightarrow> gap_56 r = (if r = 56 then 0 else Suc (gap_56 (if Suc r = 64 then 0 else Suc r)))" for r
    by (auto simp: gap_56_def)
  from this [of "n mod 64"] show ?thesis by (simp add: mod_Suc)
qed

lemma gap_56_rest: "(119 - n mod 64) mod 64 = gap_56 (Suc n mod 64)"
proof -
  have "(119 - r) mod 64 = gap_56 (if Suc r = 64 then 0 else Suc r)" if "r < 64" for r :: nat
  proof (cases "r \<le> 55")
    case True
    then have eq: "119 - r = (55 - r) + 64" by simp
    show ?thesis using True by (simp only: eq mod_add_self2) (simp add: gap_56_def)
  qed (use that in \<open>auto simp: gap_56_def\<close>)
  from this [of "n mod 64"] show ?thesis by (simp add: mod_Suc)
qed

function pad_56 :: "string \<Rightarrow> string" where
  "pad_56 buf = (if length buf mod 64 = 56 then buf else pad_56 (buf @ [CHR 0x00]))"
  by auto
termination
proof (relation "measure (\<lambda>buf. gap_56 (length buf mod 64))")
  fix buf :: string
  assume "length buf mod 64 \<noteq> 56"
  then show "(buf @ [CHR 0x00], buf) \<in> measure (\<lambda>buf. gap_56 (length buf mod 64))" by (simp add: gap_56_Suc [of "length buf"])
qed simp

declare pad_56.simps [simp del]

definition le_bytes :: "nat \<Rightarrow> 'a::len word \<Rightarrow> string" where
  "le_bytes n v = map (\<lambda>i. b8 (drop_bit (8 * i) v)) [0..<n]"

definition md5_tail :: "string \<Rightarrow> string" where
  "md5_tail data =
     pad_56 (drop (length data div 64 * 64) data @ [CHR 0x80]) @ le_bytes 8 (word_of_nat (length data) * 8 :: 64 word)"

definition md5_start :: md5_state where
  "md5_start = (0x67452301, 0xEFCDAB89, 0x98BADCFE, 0x10325476)"

definition md5_hash :: "string \<Rightarrow> string" where
  "md5_hash data =
     (let st = md5_full (length data div 64) data md5_start;
          buf = md5_tail data
      in case md5_full (length buf div 64) buf st of
        (a, b, c, d) \<Rightarrow> le_bytes 4 a @ le_bytes 4 b @ le_bytes 4 c @ le_bytes 4 d)"

text \<open>The one-shot definition: pad the message, cut it into blocks, fold the compression over them.\<close>

definition md5_pad :: "string \<Rightarrow> string" where
  "md5_pad data =
     data @ CHR 0x80 # replicate ((119 - length data mod 64) mod 64) CHR 0x00 @ le_bytes 8 (word_of_nat (8 * length data) :: 64 word)"

definition md5_spec :: "string \<Rightarrow> string" where
  "md5_spec data =
     (case fold md5_transform (chunks64 (md5_pad data)) md5_start of
        (a, b, c, d) \<Rightarrow> le_bytes 4 a @ le_bytes 4 b @ le_bytes 4 c @ le_bytes 4 d)"

lemma pad_56_replicate: "pad_56 buf = buf @ replicate (gap_56 (length buf mod 64)) CHR 0x00"
proof (induction buf rule: pad_56.induct)
  case (1 buf)
  show ?case
  proof (cases "length buf mod 64 = 56")
    case True
    then show ?thesis by (subst pad_56.simps) (simp add: gap_56_def)
  next
    case False
    with 1 False gap_56_Suc [of "length buf"] show ?thesis by (subst pad_56.simps) simp
  qed
qed

lemma md5_full_chunks: "md5_full (length p div 64) p st = fold md5_transform (chunks64 p) st"
proof (induction p arbitrary: st rule: chunks64.induct)
  case (1 p)
  show ?case
  proof (cases "length p < 64")
    case True
    then show ?thesis by (simp add: chunks64_short)
  next
    case False
    then have "length p div 64 = Suc (length (drop 64 p) div 64)" by (simp add: le_div_geq)
    with 1 False show ?thesis by (simp add: chunks64.simps [of p])
  qed
qed

lemma chunks64_take: "chunks64 (take (length p div 64 * 64) p) = chunks64 p"
proof -
  let ?h = "take (length p div 64 * 64) p" and ?t = "drop (length p div 64 * 64) p"
  have "length ?t < 64" by (simp add: minus_div_mult_eq_mod)
  then have "chunks64 ?t = []" by (rule chunks64_short)
  moreover have "chunks64 (?h @ ?t) = chunks64 ?h @ chunks64 ?t" by (intro chunks64_append) simp
  ultimately show ?thesis by simp
qed

lemma md5_pad_split: "md5_pad data = take (length data div 64 * 64) data @ md5_tail data"
proof -
  let ?k = "length data div 64 * 64"
  have len: "length (drop ?k data @ [CHR 0x80]) mod 64 = Suc (length data) mod 64"
    by (simp add: minus_div_mult_eq_mod mod_Suc_eq)
  show ?thesis unfolding md5_pad_def md5_tail_def pad_56_replicate len gap_56_rest
    by (simp add: mult.commute flip: append_assoc)
qed

text \<open>The buffer is large enough, and the implementation computes the one-shot definition.\<close>

lemma length_md5_tail: "length (md5_tail data) = (if length data mod 64 < 56 then 64 else 128)"
proof -
  have "Suc r + gap_56 (if Suc r = 64 then 0 else Suc r) + 8 = (if r < 56 then 64 else 128)" if "r < 64" for r
    using that by (auto simp: gap_56_def)
  from this [of "length data mod 64"]
  show ?thesis by (simp add: md5_tail_def pad_56_replicate le_bytes_def minus_div_mult_eq_mod mod_Suc split: if_splits)
qed

lemma md5_hash_spec: "md5_hash data = md5_spec data"
proof -
  have "chunks64 (md5_pad data) = chunks64 data @ chunks64 (md5_tail data)"
    unfolding md5_pad_split by (subst chunks64_append) (simp_all add: chunks64_take)
  then show ?thesis by (simp add: md5_hash_def md5_spec_def md5_full_chunks)
qed

lemma length_md5_hash: "length (md5_hash data) = 16"
  by (simp add: md5_hash_def le_bytes_def Let_def split: prod.split)

subsection \<open>Requests\<close>

text \<open>The data of the module is the counter of operations.\<close>

definition crypto_paths :: "path_decl list" where
  "crypto_paths =
     [(''/crypto/resources/status'', PORTAL_ACCESS_READ, None),
      (''/crypto/functions/sha256'', PORTAL_ACCESS_RW, Some ''SHA-256 hash. Body: data to hash''),
      (''/crypto/functions/md5'', PORTAL_ACCESS_RW, Some ''MD5 hash. Body: data to hash''),
      (''/crypto/functions/base64enc'', PORTAL_ACCESS_RW, None),
      (''/crypto/functions/base64dec'', PORTAL_ACCESS_RW, None),
      (''/crypto/functions/hexenc'', PORTAL_ACCESS_RW, None),
      (''/crypto/functions/hexdec'', PORTAL_ACCESS_RW, None)]"

definition crypto_status :: "portal_resp \<Rightarrow> int \<Rightarrow> int mod_result" where
  "crypto_status resp operations =
     m_text 8192 PORTAL_OK
       (''Crypto Utilities'' @ NL @ ''Algorithms: SHA-256, MD5, Base64, Hex'' @ NL @ ''Operations: '' @ dec operations @ NL) 0 resp operations []"

text \<open>The text to work on: the header \<open>data\<close>, else the body up to its first NUL.\<close>

definition crypto_data :: "portal_msg \<Rightarrow> string option outcome" where
  "crypto_data msg =
     obind (get_header (msg_headers msg) ''data'') (\<lambda>data.
       case data of
         Some d \<Rightarrow> Inr (Some d)
       | None \<Rightarrow> if msg_body msg = [] then Inr None else obind (body_string (msg_body msg)) (\<lambda>d. Inr (Some d)))"

definition need_data :: "portal_resp \<Rightarrow> int \<Rightarrow> int mod_result" where
  "need_data resp operations = m_text 8192 PORTAL_BAD_REQUEST (''Need: data header or body'' @ NL) (-1) resp operations []"

definition hash_reply :: "(string \<Rightarrow> string outcome) \<Rightarrow> string option \<Rightarrow> portal_resp \<Rightarrow> int \<Rightarrow> int mod_result" where
  "hash_reply digest data resp operations =
     (case data of
        None \<Rightarrow> need_data resp operations
      | Some d \<Rightarrow> obind (digest d) (\<lambda>hex. m_text 8192 PORTAL_OK (hex @ NL) 0 resp (operations + 1) []))"

definition encode_reply :: "(string \<Rightarrow> string outcome) \<Rightarrow> string option \<Rightarrow> portal_resp \<Rightarrow> int \<Rightarrow> int mod_result" where
  "encode_reply encode data resp operations =
     (case data of
        None \<Rightarrow> m_status PORTAL_BAD_REQUEST (-1) resp operations
      | Some d \<Rightarrow> obind (encode d) (\<lambda>out. m_text 8192 PORTAL_OK (out @ NL) 0 resp (operations + 1) []))"

text \<open>A decoder also writes a terminator behind its output.\<close>

definition decode_reply ::
    "nat \<Rightarrow> string \<Rightarrow> (string \<Rightarrow> string option outcome) \<Rightarrow> string option \<Rightarrow> portal_resp \<Rightarrow> int \<Rightarrow> int mod_result" where
  "decode_reply size_of invalid decode data resp operations =
     (case data of
        None \<Rightarrow> m_status PORTAL_BAD_REQUEST (-1) resp operations
      | Some d \<Rightarrow>
          obind (decode d) (\<lambda>res.
            case res of
              None \<Rightarrow> m_text 8192 PORTAL_BAD_REQUEST (invalid @ NL) (-1) resp operations []
            | Some out \<Rightarrow>
                if size_of \<le> length out then Inl Over_write
                else m_body PORTAL_OK out 0 resp (operations + 1) []))"

definition crypto_handle :: "portal_msg \<Rightarrow> portal_resp \<Rightarrow> int \<Rightarrow> int mod_result" where
  "crypto_handle msg resp operations =
     (case msg_path msg of
        None \<Rightarrow> Inl Null_deref
      | Some path \<Rightarrow>
          if path = ''/crypto/resources/status'' then crypto_status resp operations
          else if path \<notin> set (map fst crypto_paths) then m_status PORTAL_NOT_FOUND (-1) resp operations
          else obind (crypto_data msg) (\<lambda>data.
            if path = ''/crypto/functions/sha256'' then hash_reply (\<lambda>d. Inr (sha256_hex d)) data resp operations
            else if path = ''/crypto/functions/md5'' then hash_reply (\<lambda>d. hex_encode 33 (md5_hash d)) data resp operations
            else if path = ''/crypto/functions/base64enc'' then encode_reply (base64_encode 8192) data resp operations
            else if path = ''/crypto/functions/base64dec''
              then decode_reply 8192 ''Invalid base64 input'' (base64_decode 8192) data resp operations
            else if path = ''/crypto/functions/hexenc'' then encode_reply (hex_encode 8192) data resp operations
            else decode_reply 4096 ''Invalid hex input'' (hex_decode 4096) data resp operations))"

lemmas crypto_defs = crypto_handle_def crypto_data_def crypto_paths_def encode_reply_def decode_reply_def hash_reply_def

definition ok_reply :: "portal_resp \<Rightarrow> string \<Rightarrow> int \<Rightarrow> int mod_result" where
  "ok_reply resp body operations =
     Inr (0, portal_resp_set_body (portal_resp_set_status resp PORTAL_OK) body, operations, [])"

lemma hashes_answer:
  "crypto_handle (call_msg ''/crypto/functions/sha256'' [(''data'', d)]) resp n = ok_reply resp (sha256_hex d @ NL) (n + 1)"
  "crypto_handle (call_msg ''/crypto/functions/md5'' [(''data'', d)]) resp n =
     ok_reply resp (concat (map hex_byte (md5_spec d)) @ NL) (n + 1)"
proof -
  have len: "length (sha256_hex d) = 64"
    by (simp add: sha256_hex_def Let_def sha256_final_def hex_byte_def length_concat comp_def sum_list_triv)
  show "crypto_handle (call_msg ''/crypto/functions/sha256'' [(''data'', d)]) resp n = ok_reply resp (sha256_hex d @ NL) (n + 1)"
    by (simp add: crypto_defs m_text_fits len ok_reply_def)
  have "length (md5_spec d) = 16" using length_md5_hash [of d] by (simp add: md5_hash_spec)
  then show "crypto_handle (call_msg ''/crypto/functions/md5'' [(''data'', d)]) resp n =
      ok_reply resp (concat (map hex_byte (md5_spec d)) @ NL) (n + 1)"
    by (simp add: crypto_defs m_text_fits ok_reply_def hex_encode_def md5_hash_spec length_hex)
qed

lemma encode_answers:
  assumes "length d < 4096"
  shows "crypto_handle (call_msg ''/crypto/functions/base64enc'' [(''data'', d)]) resp n = ok_reply resp (base64_text d @ NL) (n + 1)"
    "crypto_handle (call_msg ''/crypto/functions/base64dec'' [(''data'', base64_text d)]) resp n = ok_reply resp d (n + 1)"
    "crypto_handle (call_msg ''/crypto/functions/hexenc'' [(''data'', d)]) resp n = ok_reply resp (concat (map hex_byte d) @ NL) (n + 1)"
    "crypto_handle (call_msg ''/crypto/functions/hexdec'' [(''data'', concat (map hex_byte d))]) resp n = ok_reply resp d (n + 1)"
proof -
  have "4 * ((length d + 2) div 3) < 8000" using assms by linarith
  with assms show "crypto_handle (call_msg ''/crypto/functions/base64enc'' [(''data'', d)]) resp n = ok_reply resp (base64_text d @ NL) (n + 1)"
    "crypto_handle (call_msg ''/crypto/functions/base64dec'' [(''data'', base64_text d)]) resp n = ok_reply resp d (n + 1)"
    by (simp_all add: length_base64 crypto_defs base64_encode_def base64_decode_encode m_text_fits m_body_def ok_reply_def)
  show "crypto_handle (call_msg ''/crypto/functions/hexenc'' [(''data'', d)]) resp n = ok_reply resp (concat (map hex_byte d) @ NL) (n + 1)"
    "crypto_handle (call_msg ''/crypto/functions/hexdec'' [(''data'', concat (map hex_byte d))]) resp n = ok_reply resp d (n + 1)"
    using assms by (simp_all add: length_hex crypto_defs hex_encode_def hex_decode_encode m_text_fits m_body_def ok_reply_def)
qed

text \<open>
  Encoding and decoding are inverse through the requests of the module: what
  \<open>base64enc\<close> and \<open>hexenc\<close> answer for a text of less than 4096 bytes, without the newline behind it, is
  accepted by \<open>base64dec\<close> and \<open>hexdec\<close>, and these answer the text itself. The Base64 text has four characters
  for every three bytes begun and the hexadecimal text two for every byte.
\<close>

lemma encodings_round_trip:
  assumes "length d < 4096"
  shows "(\<exists>e. length e = 4 * ((length d + 2) div 3) \<and>
      crypto_handle (call_msg ''/crypto/functions/base64enc'' [(''data'', d)]) resp n = ok_reply resp (e @ NL) (n + 1) \<and>
      crypto_handle (call_msg ''/crypto/functions/base64dec'' [(''data'', e)]) resp n = ok_reply resp d (n + 1)) \<and>
    (\<exists>h. length h = 2 * length d \<and>
      crypto_handle (call_msg ''/crypto/functions/hexenc'' [(''data'', d)]) resp n = ok_reply resp (h @ NL) (n + 1) \<and>
      crypto_handle (call_msg ''/crypto/functions/hexdec'' [(''data'', h)]) resp n = ok_reply resp d (n + 1))"
  using encode_answers [OF assms] length_base64 length_hex by blast

lemma m_text_not_over_write: "m_text n status t rc resp s ev \<noteq> Inl Over_write"
  by (auto simp: m_defs buf_bytes_def Let_def)

lemma decode_long:
  "n < length s \<Longrightarrow> hex_decode n (concat (map hex_byte s)) = Inl Over_write"
  "n < length s \<Longrightarrow> base64_decode n (base64_text s) = Inl Over_write"
  using hex_loop_long [of "[]" n s] base64_loop_long [of "[]" n s]
  by (simp_all add: hex_decode_def base64_decode_def length_hex length_base64)

text \<open>
  Property C39. The arrays of the handler are not large enough for every request, and nothing checks it. A
  request writes behind an array exactly when the text to encode has at least 4096 bytes for
  \<open>hexenc\<close> or 6142 bytes for \<open>base64enc\<close>, and when the encoded text stands for at least 4096 bytes for \<open>hexdec\<close> or
  8192 bytes for \<open>base64dec\<close>.
\<close>

theorem long_data_overflows:
  "(crypto_handle (call_msg ''/crypto/functions/hexenc'' [(''data'', d)]) resp n = Inl Over_write \<longleftrightarrow> 4096 \<le> length d) \<and>
   (crypto_handle (call_msg ''/crypto/functions/base64enc'' [(''data'', d)]) resp n = Inl Over_write \<longleftrightarrow> 6142 \<le> length d) \<and>
   (crypto_handle (call_msg ''/crypto/functions/hexdec'' [(''data'', concat (map hex_byte d))]) resp n = Inl Over_write \<longleftrightarrow> 4096 \<le> length d) \<and>
   (crypto_handle (call_msg ''/crypto/functions/base64dec'' [(''data'', base64_text d)]) resp n = Inl Over_write \<longleftrightarrow> 8192 \<le> length d)"
proof (intro conjI)
  show "crypto_handle (call_msg ''/crypto/functions/hexenc'' [(''data'', d)]) resp n = Inl Over_write \<longleftrightarrow> 4096 \<le> length d"
    by (simp add: crypto_defs hex_encode_def length_hex m_text_not_over_write)
  show "crypto_handle (call_msg ''/crypto/functions/base64enc'' [(''data'', d)]) resp n = Inl Over_write \<longleftrightarrow> 6142 \<le> length d"
    by (simp add: crypto_defs base64_encode_def length_base64 m_text_not_over_write) linarith
  show "crypto_handle (call_msg ''/crypto/functions/hexdec'' [(''data'', concat (map hex_byte d))]) resp n = Inl Over_write \<longleftrightarrow> 4096 \<le> length d"
    using hex_decode_encode [of d 4096] decode_long(1) [of 4096 d] by (cases "4096 < length d") (auto simp: crypto_defs m_body_def)
  show "crypto_handle (call_msg ''/crypto/functions/base64dec'' [(''data'', base64_text d)]) resp n = Inl Over_write \<longleftrightarrow> 8192 \<le> length d"
    using base64_decode_encode [of d 8192] decode_long(2) [of 8192 d] by (cases "8192 < length d") (auto simp: crypto_defs m_body_def)
qed

end
