(* ===== verification/Audit_Trail.thy ===== *)
theory Audit_Trail
  imports Mod_Kit Events
begin

section \<open>The audit trail (mod_audit)\<close>

text \<open>
  \<^verbatim>\<open>modules/mod_audit/mod_audit.c\<close>: a circular array of entries with the position of the next write and the
  number of valid entries. Every request to the module is recorded before it is answered, and so is every
  event the core delivers to the subscription of the module, its own events included. The local time in
  the two formats of the module and the address of the event handler are parameters; memory for the
  array is available.
\<close>

abbreviation (input) PORTAL_METHOD_META :: "8 word" where "PORTAL_METHOD_META \<equiv> 0x07"
abbreviation (input) AUDIT_MAX_ENTRIES :: nat where "AUDIT_MAX_ENTRIES \<equiv> 10000"

record audit_entry =
  ae_timestamp :: int
  ae_user :: string
  ae_path :: string
  ae_method :: string
  ae_detail :: string

text \<open>\<open>am_lines\<close> is what has been written to the log file since it was opened.\<close>

record audit_module =
  am_entries :: "audit_entry list"
  am_max :: nat
  am_count :: nat
  am_head :: nat
  am_total :: int
  am_log_file :: string
  am_log_open :: bool
  am_lines :: "string list"

record audit_os =
  ao_now :: int
  ao_date :: "int \<Rightarrow> string"
  ao_time :: "int \<Rightarrow> string"
  ao_handler :: nat

definition entry_zero :: audit_entry where
  "entry_zero = \<lparr>ae_timestamp = 0, ae_user = [], ae_path = [], ae_method = [], ae_detail = []\<rparr>"

definition audit_zero :: audit_module where
  "audit_zero =
     \<lparr>am_entries = [], am_max = AUDIT_MAX_ENTRIES, am_count = 0, am_head = 0, am_total = 0, am_log_file = [], am_log_open = False, am_lines = []\<rparr>"

definition method_str :: "8 word \<Rightarrow> string" where
  "method_str m =
     (if m = PORTAL_METHOD_GET then ''GET'' else if m = PORTAL_METHOD_SET then ''SET''
      else if m = PORTAL_METHOD_CALL then ''CALL'' else if m = PORTAL_METHOD_EVENT then ''EVENT''
      else if m = PORTAL_METHOD_SUB then ''SUB'' else if m = PORTAL_METHOD_UNSUB then ''UNSUB''
      else if m = PORTAL_METHOD_META then ''META'' else ''?'')"

subsection \<open>Recording\<close>

definition audit_entry_new :: "int \<Rightarrow> string \<Rightarrow> string option \<Rightarrow> string \<Rightarrow> string \<Rightarrow> audit_entry" where
  "audit_entry_new now user path meth detail =
     \<lparr>ae_timestamp = now, ae_user = csnprintf 64 user,
      ae_path = csnprintf PORTAL_MAX_PATH_LEN (case path of None \<Rightarrow> [] | Some p \<Rightarrow> p),
      ae_method = csnprintf 16 meth, ae_detail = csnprintf 256 detail\<rparr>"

text \<open>The columns of an entry behind its time, in the log file and in the listings.\<close>

definition entry_columns :: "audit_entry \<Rightarrow> string" where
  "entry_columns e =
     ''  '' @ pad 12 (ae_user e) @ '' '' @ pad 6 (ae_method e) @ '' '' @ ae_path e @ ''  '' @ ae_detail e @ NL"

definition audit_put :: "audit_os \<Rightarrow> audit_entry \<Rightarrow> audit_module \<Rightarrow> audit_module outcome" where
  "audit_put os e m =
     (if length (am_entries m) \<le> am_head m then Inl Over_write
      else Inr (m\<lparr>am_entries := (am_entries m)[am_head m := e],
                  am_lines := (if am_log_open m then am_lines m @ [ao_date os (ae_timestamp e) @ entry_columns e] else am_lines m),
                  am_head := (am_head m + 1) mod am_max m,
                  am_count := (if am_count m < am_max m then am_count m + 1 else am_count m),
                  am_total := am_total m + 1\<rparr>))"

definition audit_record ::
    "audit_os \<Rightarrow> string \<Rightarrow> string option \<Rightarrow> string \<Rightarrow> string \<Rightarrow> audit_module \<Rightarrow> audit_module outcome" where
  "audit_record os user path meth detail m = audit_put os (audit_entry_new (ao_now os) user path meth detail) m"

definition msg_user :: "string \<Rightarrow> portal_msg \<Rightarrow> string" where
  "msg_user dflt msg = (case Option.bind (msg_ctx msg) (\<lambda>c. auth_user (ctx_auth c)) of None \<Rightarrow> dflt | Some u \<Rightarrow> u)"

definition audit_event_handler :: "audit_os \<Rightarrow> portal_msg \<Rightarrow> audit_module \<Rightarrow> audit_module outcome" where
  "audit_event_handler os msg m =
     audit_record os (msg_user ''system'' msg) (msg_path msg) (method_str (msg_method msg)) ''event'' m"

text \<open>The calls of the handler among the deliveries of the core.\<close>

fun audit_hear :: "audit_os \<Rightarrow> delivery list \<Rightarrow> audit_module \<Rightarrow> audit_module outcome" where
  "audit_hear os [] m = Inr m"
| "audit_hear os (DCall h userdata msg # ds) m =
     (if h = ao_handler os then obind (audit_event_handler os msg m) (audit_hear os ds) else audit_hear os ds m)"
| "audit_hear os (DWrite fd data n # ds) m = audit_hear os ds m"

text \<open>What \<open>event_emit\<close> does to the module while it delivers an event of the module itself.\<close>

definition audit_emitted :: "audit_os \<Rightarrow> event_registry \<Rightarrow> string \<Rightarrow> string \<Rightarrow> audit_module \<Rightarrow> audit_module outcome" where
  "audit_emitted os reg path data m = audit_hear os (fst (snd (portal_events_emit (\<lambda>fd. True) reg path data))) m"

subsection \<open>Loading and requests\<close>

definition audit_load :: "(string \<Rightarrow> bool) \<Rightarrow> string option \<Rightarrow> string option \<Rightarrow> audit_module \<Rightarrow> audit_module" where
  "audit_load can_write max_entries log_file m =
     (let mx = (case max_entries of None \<Rightarrow> int (am_max m) | Some v \<Rightarrow> atoi v);
          mx = (if mx < 100 then 100 else nat mx);
          file = (case log_file of None \<Rightarrow> am_log_file m | Some v \<Rightarrow> csnprintf 512 v)
      in \<lparr>am_entries = replicate mx entry_zero, am_max = mx, am_count = 0, am_head = 0, am_total = 0, am_log_file = file,
          am_log_open = (case log_file of None \<Rightarrow> am_log_open m | Some v \<Rightarrow> can_write file), am_lines = []\<rparr>)"

definition audit_unload :: "audit_module \<Rightarrow> audit_module" where
  "audit_unload m = m\<lparr>am_log_open := False, am_entries := []\<rparr>"

definition audit_paths :: "path_decl list" where
  "audit_paths =
     [(''/audit/resources/status'', PORTAL_ACCESS_READ, Some ''Audit trail: entry count, max entries, file path''),
      (''/audit/resources/log'', PORTAL_ACCESS_READ, None),
      (''/audit/functions/search'', PORTAL_ACCESS_RW, Some ''Search audit trail. Header: pattern, optional: limit''),
      (''/audit/functions/record'', PORTAL_ACCESS_RW, None),
      (''/audit/functions/clear'', PORTAL_ACCESS_RW, None)]"

definition audit_status :: "portal_resp \<Rightarrow> audit_module \<Rightarrow> audit_module mod_result" where
  "audit_status resp m =
     m_text 32768 PORTAL_OK
       (''Audit Trail'' @ NL @ ''Entries: '' @ dec (int (am_count m)) @ '' / '' @ dec (int (am_max m)) @ NL @
        ''Total recorded: '' @ dec (am_total m) @ NL @
        ''Log file: '' @ (if am_log_file m \<noteq> [] then am_log_file m else ''(none)'') @ NL) 0 resp m []"

text \<open>The entries from the newest to the oldest, by the index arithmetic of the listings.\<close>

definition audit_view :: "audit_module \<Rightarrow> audit_entry list" where
  "audit_view m = map (\<lambda>i. am_entries m ! nat ((int (am_head m) - 1 - int i + int (am_max m)) mod int (am_max m))) [0..<am_count m]"

definition entry_line :: "audit_os \<Rightarrow> audit_entry \<Rightarrow> string" where
  "entry_line os e = ''  '' @ ao_time os (ae_timestamp e) @ entry_columns e"

definition header_limit :: "portal_msg \<Rightarrow> int outcome" where
  "header_limit msg =
     obind (get_header (msg_headers msg) ''limit'') (\<lambda>v. Inr (case v of None \<Rightarrow> 50 | Some s \<Rightarrow> atoi s))"

definition audit_log :: "audit_os \<Rightarrow> portal_msg \<Rightarrow> portal_resp \<Rightarrow> audit_module \<Rightarrow> audit_module mod_result" where
  "audit_log os msg resp m =
     obind (header_limit msg) (\<lambda>limit.
       let limit = (if int (am_count m) < limit then int (am_count m) else limit);
           limit = (if 200 < limit then 200 else limit);
           shown = takeWhile (\<lambda>e. ae_path e \<noteq> []) (take (nat limit) (audit_view m))
       in obind (fold (\<lambda>e. off_append_below (32768 - 256) 32768 (entry_line os e)) shown
                  (Inr (''Audit Log (last '' @ dec limit @ '' of '' @ dec (int (am_count m)) @ ''):'' @ NL))) (\<lambda>t.
            m_text 32768 PORTAL_OK t 0 resp m []))"

definition entry_matches :: "string option \<Rightarrow> string option \<Rightarrow> audit_entry \<Rightarrow> bool" where
  "entry_matches by_user by_path e \<longleftrightarrow>
     (case by_user of None \<Rightarrow> True | Some u \<Rightarrow> ae_user e = u) \<and> (case by_path of None \<Rightarrow> True | Some p \<Rightarrow> sublist p (ae_path e))"

text \<open>The loop of the search: the text and the number of matches.\<close>

fun search_loop ::
    "audit_os \<Rightarrow> string option \<Rightarrow> string option \<Rightarrow> int \<Rightarrow> audit_entry list \<Rightarrow> int \<Rightarrow> string \<Rightarrow> (int \<times> string) outcome" where
  "search_loop os by_user by_path limit [] found t = Inr (found, t)"
| "search_loop os by_user by_path limit (e # es) found t =
     (if \<not> (found < limit \<and> length t < 32768 - 256) then Inr (found, t)
      else if \<not> entry_matches by_user by_path e then search_loop os by_user by_path limit es found t
      else obind (off_append 32768 (entry_line os e) (Inr t)) (search_loop os by_user by_path limit es (found + 1)))"

definition audit_search :: "audit_os \<Rightarrow> portal_msg \<Rightarrow> portal_resp \<Rightarrow> audit_module \<Rightarrow> audit_module mod_result" where
  "audit_search os msg resp m =
     obind (get_header (msg_headers msg) ''user'') (\<lambda>by_user.
     obind (get_header (msg_headers msg) ''path'') (\<lambda>by_path.
     obind (header_limit msg) (\<lambda>limit.
       let limit = (if 500 < limit then 500 else limit);
           show_opt = (\<lambda>v. case v of None \<Rightarrow> ''*'' | Some s \<Rightarrow> s)
       in obind (search_loop os by_user by_path limit (audit_view m) 0
                  (''Audit Search (user='' @ show_opt by_user @ '', path='' @ show_opt by_path @ ''):'' @ NL)) (\<lambda>(found, t).
          obind (if found = 0 then off_append 32768 (''  (no matches)'' @ NL) (Inr t) else Inr t) (\<lambda>t.
            m_text 32768 PORTAL_OK t 0 resp m [])))))"

definition audit_manual :: "audit_os \<Rightarrow> event_registry \<Rightarrow> string \<Rightarrow> portal_msg \<Rightarrow> portal_resp \<Rightarrow> audit_module \<Rightarrow> audit_module mod_result" where
  "audit_manual os reg user msg resp m =
     obind (get_header (msg_headers msg) ''user'') (\<lambda>a_user.
     obind (get_header (msg_headers msg) ''path'') (\<lambda>a_path.
     obind (get_header (msg_headers msg) ''method'') (\<lambda>a_method.
     obind (get_header (msg_headers msg) ''detail'') (\<lambda>a_detail.
       let or_else = (\<lambda>v d. case v of None \<Rightarrow> d | Some s \<Rightarrow> s);
           a_user = or_else a_user user
       in obind (audit_record os a_user (Some (or_else a_path ''(manual)'')) (or_else a_method ''CALL'') (or_else a_detail ''manual entry'') m) (\<lambda>m.
          obind (audit_emitted os reg ''/events/audit/record'' a_user m) (\<lambda>m.
            m_text 32768 PORTAL_OK (''Recorded'' @ NL) 0 resp m [(''/events/audit/record'', a_user)]))))))"

definition audit_clear :: "audit_os \<Rightarrow> event_registry \<Rightarrow> portal_resp \<Rightarrow> audit_module \<Rightarrow> audit_module mod_result" where
  "audit_clear os reg resp m =
     obind (audit_emitted os reg ''/events/audit/clear'' ''all''
              (m\<lparr>am_entries := replicate (am_max m) entry_zero, am_count := 0, am_head := 0\<rparr>)) (\<lambda>m.
       m_text 32768 PORTAL_OK (''Audit log cleared ('' @ dec (am_total m) @ '' total entries were recorded)'' @ NL)
         0 resp m [(''/events/audit/clear'', ''all'')])"

definition audit_handle :: "audit_os \<Rightarrow> event_registry \<Rightarrow> portal_msg \<Rightarrow> portal_resp \<Rightarrow> audit_module \<Rightarrow> audit_module mod_result" where
  "audit_handle os reg msg resp m =
     (let user = msg_user ''unknown'' msg
      in obind (audit_record os user (msg_path msg) (method_str (msg_method msg)) ''request'' m) (\<lambda>m.
         case msg_path msg of
           None \<Rightarrow> Inl Null_deref
         | Some path \<Rightarrow>
             if path = ''/audit/resources/status'' then audit_status resp m
             else if path = ''/audit/resources/log'' then audit_log os msg resp m
             else if path = ''/audit/functions/search'' then audit_search os msg resp m
             else if path = ''/audit/functions/record'' then audit_manual os reg user msg resp m
             else if path = ''/audit/functions/clear'' then audit_clear os reg resp m
             else m_status PORTAL_NOT_FOUND (-1) resp m))"

subsection \<open>The array implements a bounded list\<close>

text \<open>The array has its full size, and until it is full it has been written from the start.\<close>

definition audit_ok :: "audit_module \<Rightarrow> bool" where
  "audit_ok m \<longleftrightarrow> 0 < am_max m \<and> length (am_entries m) = am_max m \<and> am_head m < am_max m \<and> am_count m \<le> am_max m"

definition ring_pos :: "audit_module \<Rightarrow> nat \<Rightarrow> nat" where
  "ring_pos m i = nat ((int (am_head m) - int i) mod int (am_max m))"

lemma audit_view_pos: "audit_view m = map (\<lambda>i. am_entries m ! ring_pos m (Suc i)) [0..<am_count m]"
proof -
  have "(int (am_head m) - 1 - int i + int (am_max m)) mod int (am_max m) = (int (am_head m) - int (Suc i)) mod int (am_max m)" for i
    by (simp only: mod_add_self2) (simp add: algebra_simps)
  then show ?thesis by (simp add: audit_view_def ring_pos_def)
qed

lemma ring_pos_head:
  assumes "am_head m < am_max m"
  shows "ring_pos m 0 = am_head m" "0 < i \<Longrightarrow> i < am_max m \<Longrightarrow> ring_pos m i \<noteq> am_head m"
proof -
  let ?h = "int (am_head m)" and ?n = "int (am_max m)"
  show "ring_pos m 0 = am_head m" using assms by (simp add: ring_pos_def)
  assume i: "0 < i" "i < am_max m"
  show "ring_pos m i \<noteq> am_head m"
  proof
    assume eq: "ring_pos m i = am_head m"
    have "0 \<le> (?h - int i) mod ?n" using assms by simp
    with eq have "(?h - int i) mod ?n = ?h" unfolding ring_pos_def by (metis nat_0_le)
    with assms have "(?h - int i) mod ?n = ?h mod ?n" by simp
    then have "?n dvd (?h - int i) - ?h" by (simp only: mod_eq_dvd_iff)
    then have "?n dvd int i" by simp
    with i show False by (simp add: int_dvd_int_iff nat_dvd_not_less)
  qed
qed

lemma audit_put_view:
  assumes "audit_ok m"
  obtains m' where "audit_put os e m = Inr m'" "audit_ok m'" "am_max m' = am_max m" "audit_view m' = take (am_max m) (e # audit_view m)"
proof -
  let ?m = "m\<lparr>am_entries := (am_entries m)[am_head m := e],
                  am_lines := (if am_log_open m then am_lines m @ [ao_date os (ae_timestamp e) @ entry_columns e] else am_lines m),
                  am_head := (am_head m + 1) mod am_max m,
                  am_count := (if am_count m < am_max m then am_count m + 1 else am_count m),
                  am_total := am_total m + 1\<rparr>"
  have ok: "0 < am_max m" "length (am_entries m) = am_max m" "am_head m < am_max m" "am_count m \<le> am_max m"
    using assms by (simp_all add: audit_ok_def)
  have pos: "ring_pos ?m (Suc i) = ring_pos m i" for i
    by (simp add: ring_pos_def zmod_int mod_diff_left_eq algebra_simps)
  let ?k = "if am_count m < am_max m then am_count m else am_count m - 1"
  have k: "am_count ?m = Suc ?k" "?k < am_max m" "take (am_max m - 1) [0..<am_count m] = [0..<?k]"
    using ok(1,4) by (auto simp: min_def)
  have "audit_view ?m = map (\<lambda>i. (am_entries m)[am_head m := e] ! ring_pos m i) (0 # map Suc [0..<?k])"
    unfolding audit_view_pos pos k(1) by (simp add: upt_conv_Cons map_Suc_upt del: upt_Suc)
  also have "\<dots> = e # map (\<lambda>i. am_entries m ! ring_pos m (Suc i)) [0..<?k]"
  proof -
    have "(am_entries m)[am_head m := e] ! ring_pos m (Suc i) = am_entries m ! ring_pos m (Suc i)" if "i < ?k" for i
      using that k(2) ring_pos_head(2) [OF ok(3), of "Suc i"] by (intro nth_list_update_neq) linarith
    then show ?thesis using ok ring_pos_head(1) [OF ok(3)] by simp
  qed
  also have "\<dots> = take (am_max m) (e # audit_view m)"
    using ok(1,4) by (auto simp: audit_view_pos take_Cons' take_map k(3))
  finally show thesis using ok assms by (intro that [of ?m]) (auto simp: audit_put_def audit_ok_def)
qed

subsection \<open>What a request adds to the trail\<close>

text \<open>
  The specification of the module: the trail is a list, newest entry first, and a request puts its entries in
  front of it. \<open>heard\<close> are the entries of the events that reach the module, \<open>trail_after\<close> is the trail after a
  request, without a bound on its length.
\<close>

fun heard :: "audit_os \<Rightarrow> delivery list \<Rightarrow> audit_entry list" where
  "heard os [] = []"
| "heard os (DCall h userdata msg # ds) =
     (if h = ao_handler os
      then heard os ds @ [audit_entry_new (ao_now os) (msg_user ''system'' msg) (msg_path msg) (method_str (msg_method msg)) ''event'']
      else heard os ds)"
| "heard os (DWrite fd data n # ds) = heard os ds"

definition heard_event :: "audit_os \<Rightarrow> event_registry \<Rightarrow> string \<Rightarrow> string \<Rightarrow> audit_entry list" where
  "heard_event os reg path data = heard os (fst (snd (portal_events_emit (\<lambda>fd. True) reg path data)))"

definition request_entry :: "audit_os \<Rightarrow> portal_msg \<Rightarrow> audit_entry" where
  "request_entry os msg =
     audit_entry_new (ao_now os) (msg_user ''unknown'' msg) (msg_path msg) (method_str (msg_method msg)) ''request''"

definition header_or :: "portal_msg \<Rightarrow> string \<Rightarrow> string \<Rightarrow> string" where
  "header_or msg key dflt = (case get_header (msg_headers msg) key of Inr (Some v) \<Rightarrow> v | _ \<Rightarrow> dflt)"

definition manual_entry :: "audit_os \<Rightarrow> portal_msg \<Rightarrow> audit_entry" where
  "manual_entry os msg =
     audit_entry_new (ao_now os) (header_or msg ''user'' (msg_user ''unknown'' msg)) (Some (header_or msg ''path'' ''(manual)''))
       (header_or msg ''method'' ''CALL'') (header_or msg ''detail'' ''manual entry'')"

definition trail_after :: "audit_os \<Rightarrow> event_registry \<Rightarrow> portal_msg \<Rightarrow> audit_entry list \<Rightarrow> audit_entry list" where
  "trail_after os reg msg trail =
     (if msg_path msg = Some ''/audit/functions/clear'' then heard_event os reg ''/events/audit/clear'' ''all''
      else if msg_path msg = Some ''/audit/functions/record''
      then heard_event os reg ''/events/audit/record'' (header_or msg ''user'' (msg_user ''unknown'' msg)) @
           manual_entry os msg # request_entry os msg # trail
      else request_entry os msg # trail)"

text \<open>\<open>shows_trail n t m\<close>: the array of \<open>m\<close> has room for \<open>n\<close> entries and holds the newest of \<open>t\<close>.\<close>

definition shows_trail :: "nat \<Rightarrow> audit_entry list \<Rightarrow> audit_module \<Rightarrow> bool" where
  "shows_trail n t m \<longleftrightarrow> audit_ok m \<and> am_max m = n \<and> audit_view m = take n t"

lemma take_take_append: "take n (xs @ take n ys) = take n (xs @ ys)"
  by (simp add: min_def)

lemma shows_put:
  assumes "shows_trail n t m"
  shows "\<exists>m'. audit_put os e m = Inr m' \<and> shows_trail n (e # t) m'"
proof -
  have "audit_ok m" using assms by (simp add: shows_trail_def)
  then obtain m' where "audit_put os e m = Inr m'" "audit_ok m'" "am_max m' = am_max m" "audit_view m' = take (am_max m) (e # audit_view m)"
    by (rule audit_put_view)
  with assms take_take_append [of n "[e]" t] show ?thesis by (auto simp: shows_trail_def)
qed

lemma shows_hear: "shows_trail n t m \<Longrightarrow> \<exists>m'. audit_hear os ds m = Inr m' \<and> shows_trail n (heard os ds @ t) m'"
proof (induction os ds m arbitrary: t rule: audit_hear.induct)
  case (2 os h userdata msg ds m)
  show ?case
  proof (cases "h = ao_handler os")
    case True
    let ?e = "audit_entry_new (ao_now os) (msg_user ''system'' msg) (msg_path msg) (method_str (msg_method msg)) ''event''"
    obtain m1 where m1: "audit_put os ?e m = Inr m1" "shows_trail n (?e # t) m1" using shows_put [OF "2.prems"] by blast
    then obtain m2 where "audit_hear os ds m1 = Inr m2" "shows_trail n (heard os ds @ ?e # t) m2" using "2.IH"(1) [OF True] by blast
    with True m1 show ?thesis by (simp add: audit_event_handler_def audit_record_def)
  next
    case False
    with "2.IH"(2) "2.prems" show ?thesis by simp
  qed
qed auto

lemma shows_fresh: "0 < am_max m \<Longrightarrow> shows_trail (am_max m) []
    (m\<lparr>am_entries := replicate (am_max m) entry_zero, am_count := 0, am_head := 0\<rparr>)"
  by (simp add: shows_trail_def audit_ok_def audit_view_def)

lemma shows_loaded: "shows_trail (am_max (audit_load w a b m)) [] (audit_load w a b m)"
  by (auto simp: shows_trail_def audit_ok_def audit_view_def audit_load_def Let_def)

lemma keeps_shows_log: "P m \<Longrightarrow> keeps P (audit_log os msg resp m)"
  unfolding audit_log_def Let_def by (intro keeps_obind keeps_text)

lemma keeps_shows_search: "P m \<Longrightarrow> keeps P (audit_search os msg resp m)"
  unfolding audit_search_def Let_def by (intro keeps_obind) (auto intro!: keeps_obind keeps_text)

lemma keeps_shows_manual:
  assumes "shows_trail n (request_entry os msg # t) m"
  shows "keeps (shows_trail n (heard_event os reg ''/events/audit/record'' (header_or msg ''user'' (msg_user ''unknown'' msg)) @
    manual_entry os msg # request_entry os msg # t)) (audit_manual os reg (msg_user ''unknown'' msg) msg resp m)"
proof -
  obtain m1 where m1: "audit_put os (manual_entry os msg) m = Inr m1" "shows_trail n (manual_entry os msg # request_entry os msg # t) m1"
    using shows_put [OF assms] by blast
  let ?ds = "fst (snd (portal_events_emit (\<lambda>fd. True) reg ''/events/audit/record'' (header_or msg ''user'' (msg_user ''unknown'' msg))))"
  obtain m2 where m2: "audit_hear os ?ds m1 = Inr m2"
    "shows_trail n (heard os ?ds @ manual_entry os msg # request_entry os msg # t) m2" using shows_hear [OF m1(2)] by blast
  show ?thesis unfolding audit_manual_def
  proof (intro keeps_obind)
    fix u p me d
    assume h: "get_header (msg_headers msg) ''user'' = Inr u" "get_header (msg_headers msg) ''path'' = Inr p"
      "get_header (msg_headers msg) ''method'' = Inr me" "get_header (msg_headers msg) ''detail'' = Inr d"
    have eq: "(case u of None \<Rightarrow> msg_user ''unknown'' msg | Some s \<Rightarrow> s) = header_or msg ''user'' (msg_user ''unknown'' msg)"
      "(case p of None \<Rightarrow> ''(manual)'' | Some s \<Rightarrow> s) = header_or msg ''path'' ''(manual)''"
      "(case me of None \<Rightarrow> ''CALL'' | Some s \<Rightarrow> s) = header_or msg ''method'' ''CALL''"
      "(case d of None \<Rightarrow> ''manual entry'' | Some s \<Rightarrow> s) = header_or msg ''detail'' ''manual entry''"
      by (simp_all add: header_or_def h split: option.split)
    show "keeps (shows_trail n (heard_event os reg ''/events/audit/record'' (header_or msg ''user'' (msg_user ''unknown'' msg)) @
        manual_entry os msg # request_entry os msg # t))
      (let or_else = (\<lambda>v d. case v of None \<Rightarrow> d | Some s \<Rightarrow> s);
           a_user = or_else u (msg_user ''unknown'' msg)
       in obind (audit_record os a_user (Some (or_else p ''(manual)'')) (or_else me ''CALL'') (or_else d ''manual entry'') m) (\<lambda>m.
          obind (audit_emitted os reg ''/events/audit/record'' a_user m) (\<lambda>m.
            m_text 32768 PORTAL_OK (''Recorded'' @ NL) 0 resp m [(''/events/audit/record'', a_user)])))"
      unfolding Let_def eq audit_record_def manual_entry_def [symmetric] m1(1) audit_emitted_def
      using m2 by (simp add: heard_event_def keeps_text)
  qed
qed

lemma keeps_shows_clear:
  assumes "0 < am_max m"
  shows "keeps (shows_trail (am_max m) (heard_event os reg ''/events/audit/clear'' ''all'')) (audit_clear os reg resp m)"
proof -
  let ?ds = "fst (snd (portal_events_emit (\<lambda>fd. True) reg ''/events/audit/clear'' ''all''))"
  obtain m1 where "audit_hear os ?ds (m\<lparr>am_entries := replicate (am_max m) entry_zero, am_count := 0, am_head := 0\<rparr>) = Inr m1"
    "shows_trail (am_max m) (heard os ?ds @ []) m1" using shows_hear [OF shows_fresh [OF assms]] by blast
  then show ?thesis by (simp add: audit_clear_def audit_emitted_def heard_event_def keeps_text)
qed

lemma audit_handle_trail:
  assumes "shows_trail n t m"
  shows "keeps (shows_trail n (trail_after os reg msg t)) (audit_handle os reg msg resp m)"
proof -
  obtain m1 where m1: "audit_put os (request_entry os msg) m = Inr m1" "shows_trail n (request_entry os msg # t) m1"
    using shows_put [OF assms] by blast
  then have max: "am_max m1 = n" "0 < am_max m1" by (simp_all add: shows_trail_def audit_ok_def)
  show ?thesis unfolding audit_handle_def Let_def audit_record_def request_entry_def [symmetric] m1(1) obind_simps trail_after_def
    using m1(2) keeps_shows_clear [OF max(2), of os reg resp, unfolded max(1)]
    by (intro keeps_option keeps_if keeps_fault) (auto simp: audit_status_def intro: keeps_text keeps_shows_log keeps_shows_search keeps_shows_manual)
qed

text \<open>A sequence of requests, each at its own time.\<close>

fun audit_run :: "event_registry \<Rightarrow> (audit_os \<times> portal_msg) list \<Rightarrow> audit_module \<Rightarrow> audit_module outcome" where
  "audit_run reg [] m = Inr m"
| "audit_run reg ((os, msg) # rest) m =
     obind (audit_handle os reg msg portal_resp_alloc m) (\<lambda>(rc, r, m, evs). audit_run reg rest m)"

text \<open>
  Property C18. The circular array implements the audit trail. From the loading of the module on, after any
  sequence of requests, the entries that the listings read, newest first, are the newest ones of the whole history:
  one entry for every request, one more for every \<open>record\<close> request, one for every event of the module that reaches
  its own subscription, and nothing from before the last \<open>clear\<close>. Only the oldest entries are lost, and only
  when there are more than the configured maximum.
\<close>

theorem audit_trail_refines_history:
  assumes "audit_run reg reqs (audit_load can_write max_entries log_file m0) = Inr m"
  shows "am_max m = am_max (audit_load can_write max_entries log_file m0) \<and>
    audit_view m = take (am_max m) (fold (\<lambda>(os, msg). trail_after os reg msg) reqs [])"
proof -
  have "shows_trail n t m1 \<Longrightarrow> audit_run reg reqs m1 = Inr m2 \<Longrightarrow> shows_trail n (fold (\<lambda>(os, msg). trail_after os reg msg) reqs t) m2"
    for n t m1 m2
  proof (induction reqs arbitrary: t m1)
    case (Cons req reqs)
    obtain os msg where req: "req = (os, msg)" by fastforce
    with Cons.prems(2) obtain rc r m3 evs where "audit_handle os reg msg portal_resp_alloc m1 = Inr (rc, r, m3, evs)" "audit_run reg reqs m3 = Inr m2"
      by (auto simp: obind_Inr)
    with Cons.IH [OF keepsD [OF audit_handle_trail [OF Cons.prems(1)]]] show ?case by (simp add: req)
  qed simp
  from this [OF shows_loaded assms] show ?thesis by (simp add: shows_trail_def)
qed

text \<open>
  A \<open>record\<close> request with readable headers is always answered, and the listing of the log ends at the first
  entry whose path is empty, whatever is behind it.
\<close>

lemma audit_record_answered:
  assumes "shows_trail n t m" "keys_present (msg_headers msg)" "msg_path msg = Some ''/audit/functions/record''"
  shows "\<exists>m' evs. audit_handle os reg msg resp m =
    Inr (0, portal_resp_set_body (portal_resp_set_status resp PORTAL_OK) (''Recorded'' @ NL), m', evs)"
proof -
  obtain m1 where m1: "audit_put os (request_entry os msg) m = Inr m1" "shows_trail n (request_entry os msg # t) m1"
    using shows_put [OF assms(1)] by blast
  obtain u p me d where h: "get_header (msg_headers msg) ''user'' = Inr u" "get_header (msg_headers msg) ''path'' = Inr p"
    "get_header (msg_headers msg) ''method'' = Inr me" "get_header (msg_headers msg) ''detail'' = Inr d"
    using get_header_present [OF assms(2)] by meson
  have put: "\<exists>m'. audit_put os e m1 = Inr m' \<and> shows_trail n (e # request_entry os msg # t) m'" for e
    by (rule shows_put [OF m1(2)])
  let ?or = "\<lambda>v d. case v of None \<Rightarrow> d | Some s \<Rightarrow> s"
  let ?u = "?or u (msg_user ''unknown'' msg)"
  let ?e = "audit_entry_new (ao_now os) ?u (Some (?or p ''(manual)'')) (?or me ''CALL'') (?or d ''manual entry'')"
  obtain m2 m3 where "audit_put os ?e m1 = Inr m2" "audit_emitted os reg ''/events/audit/record'' ?u m2 = Inr m3"
    using put [of ?e] shows_hear unfolding audit_emitted_def by meson
  then show ?thesis using m1(1) by (simp add: audit_handle_def audit_record_def request_entry_def audit_manual_def h Let_def assms(3) m_text_fits)
qed

lemma empty_path_ends_log:
  "ae_path e = [] \<Longrightarrow> takeWhile (\<lambda>e. ae_path e \<noteq> []) (take k (new @ e # old)) = takeWhile (\<lambda>e. ae_path e \<noteq> []) (take k new)"
  by (cases "k \<le> length new") (auto simp: takeWhile_append take_Cons' not_le intro!: sym [OF takeWhile_eq_all_conv [THEN iffD2]])

definition utc_os :: "int \<Rightarrow> audit_os" where
  "utc_os now = \<lparr>ao_now = now, ao_date = (\<lambda>t. ''2026-01-01 00:00:00''), ao_time = (\<lambda>t. ''00:00:00''), ao_handler = 7\<rparr>"

theorem audit_trail_refines_history_witness:
  "\<exists>m. audit_run portal_events_init
      [(utc_os 5, call_msg ''/audit/functions/record'' [(''user'', ''ann'')]), (utc_os 9, call_msg ''/audit/functions/record'' [])]
      (audit_load (\<lambda>f. False) (Some ''100'') None audit_zero) = Inr m \<and>
    map (\<lambda>e. (ae_timestamp e, ae_user e, ae_path e)) (audit_view m) =
      [(9, ''unknown'', ''(manual)''), (9, ''unknown'', ''/audit/functions/record''), (5, ''ann'', ''(manual)''),
       (5, ''unknown'', ''/audit/functions/record'')]"
proof -
  let ?reg = portal_events_init and ?a = "call_msg ''/audit/functions/record'' [(''user'', ''ann'')]"
    and ?b = "call_msg ''/audit/functions/record'' []" and ?m = "audit_load (\<lambda>f. False) (Some ''100'') None audit_zero"
  have keys: "keys_present (msg_headers ?a)" "keys_present (msg_headers ?b)" by (simp_all add: keys_present_def call_msg_def)
  have 0: "shows_trail (am_max ?m) [] ?m" by (rule shows_loaded)
  obtain m1 e1 r1 where 1: "audit_handle (utc_os 5) ?reg ?a portal_resp_alloc ?m = Inr (0, r1, m1, e1)"
    using audit_record_answered [OF 0 keys(1) call_msg_simps(1)] by blast
  have s1: "shows_trail (am_max ?m) (trail_after (utc_os 5) ?reg ?a []) m1" using keepsD [OF audit_handle_trail [OF 0] 1] .
  obtain m2 e2 r2 where 2: "audit_handle (utc_os 9) ?reg ?b portal_resp_alloc m1 = Inr (0, r2, m2, e2)"
    using audit_record_answered [OF s1 keys(2) call_msg_simps(1)] by blast
  have run: "audit_run ?reg [(utc_os 5, ?a), (utc_os 9, ?b)] ?m = Inr m2" by (simp add: 1 2)
  have "atoi ''100'' = 100" by code_simp
  then have "am_max ?m = 100" by (simp add: audit_load_def)
  moreover have "heard_event os ?reg p d = []" for os p d
    by (simp add: heard_event_def portal_events_emit_def portal_events_init_def)
  ultimately show ?thesis using audit_trail_refines_history [OF run] run
    by (auto simp: trail_after_def manual_entry_def request_entry_def audit_entry_new_def header_or_def msg_user_def utc_os_def csnprintf_def)
qed

end
