(* ===== verification/Validator.thy ===== *)
theory Validator
  imports Mod_Kit
begin

section \<open>Input validation (mod_validator)\<close>

text \<open>
  \<^verbatim>\<open>modules/mod_validator/mod_validator.c\<close>: predicates on strings and a request for each. Addresses, numbers and
  regular expressions are judged by the C library: \<open>vo_ipv4\<close> and \<open>vo_ipv6\<close> say what \<open>inet_pton\<close> accepts, \<open>vo_rest\<close> is
  what \<open>strtod\<close> leaves unread, \<open>vo_less\<close> compares the numbers that two strings start with, and \<open>vo_regex pattern data\<close>
  is the match, or nothing when the pattern does not compile.
\<close>

record validator_os =
  vo_ipv4 :: "string \<Rightarrow> bool"
  vo_ipv6 :: "string \<Rightarrow> bool"
  vo_rest :: "string \<Rightarrow> string"
  vo_less :: "string \<Rightarrow> string \<Rightarrow> bool"
  vo_regex :: "string \<Rightarrow> string \<Rightarrow> bool option"

record validator_module =
  vm_validations :: int
  vm_passed :: int
  vm_failed :: int

definition validator_zero :: validator_module where
  "validator_zero = \<lparr>vm_validations = 0, vm_passed = 0, vm_failed = 0\<rparr>"

subsection \<open>The predicates\<close>

definition validate_email :: "string \<Rightarrow> bool" where
  "validate_email email =
     (case strchr_split CHR ''@'' email of
        (user, None) \<Rightarrow> False
      | (user, Some host) \<Rightarrow>
          user \<noteq> [] \<and>
          (case strchr_split CHR ''.'' host of
             (name, None) \<Rightarrow> False
           | (name, Some tld) \<Rightarrow> name \<noteq> [] \<and> tld \<noteq> [] \<and> CHR '' '' \<notin> set email))"

text \<open>The search for a slash starts at the ninth character, behind the terminator of \<open>http://\<close> alone.\<close>

definition validate_url :: "string \<Rightarrow> bool outcome" where
  "validate_url url =
     (if \<not> prefix ''http://'' url \<and> \<not> prefix ''https://'' url then Inr False
      else if length url < 8 then Inl Over_read
      else Inr (if url ! 7 = CHR ''/'' \<and> length url = 8 then False else 10 < length url))"

definition json_space :: "char \<Rightarrow> bool" where
  "json_space c \<longleftrightarrow> c = CHR '' '' \<or> c = CHR 0x09 \<or> c = CHR 0x0A"

abbreviation (input) QUOTE :: char where "QUOTE \<equiv> CHR 0x22"
abbreviation (input) BACKSLASH :: char where "BACKSLASH \<equiv> CHR 0x5C"

fun json_scan :: "char option \<Rightarrow> bool \<Rightarrow> int \<Rightarrow> int \<Rightarrow> string \<Rightarrow> bool" where
  "json_scan prev in_string brace bracket [] \<longleftrightarrow> brace = 0 \<and> bracket = 0"
| "json_scan prev in_string brace bracket (c # s) =
     (let in_string = (if c = QUOTE \<and> prev \<noteq> Some BACKSLASH then \<not> in_string else in_string)
      in if in_string then json_scan (Some c) in_string brace bracket s
         else let brace = (if c = CHR ''{'' then brace + 1 else if c = CHR ''}'' then brace - 1 else brace);
                  bracket = (if c = CHR ''['' then bracket + 1 else if c = CHR '']'' then bracket - 1 else bracket)
              in if brace < 0 \<or> bracket < 0 then False else json_scan (Some c) in_string brace bracket s)"

definition validate_json :: "string \<Rightarrow> bool" where
  "validate_json json =
     (if json = [] then False
      else let j = dropWhile json_space json
           in if j = [] \<or> hd j \<noteq> CHR ''{'' \<and> hd j \<noteq> CHR ''['' then False
              else let e = hd (dropWhile json_space (rev j))
                   in if hd j = CHR ''{'' \<and> e \<noteq> CHR ''}'' \<or> hd j = CHR ''['' \<and> e \<noteq> CHR '']'' then False
                      else json_scan None False 0 0 j)"

definition validate_number :: "validator_os \<Rightarrow> string \<Rightarrow> string option \<Rightarrow> string option \<Rightarrow> bool" where
  "validate_number os val min_s max_s \<longleftrightarrow>
     vo_rest os val = [] \<and> (case min_s of None \<Rightarrow> True | Some mn \<Rightarrow> \<not> vo_less os val mn) \<and>
     (case max_s of None \<Rightarrow> True | Some mx \<Rightarrow> \<not> vo_less os mx val)"

definition isalnum :: "char \<Rightarrow> bool" where
  "isalnum c \<longleftrightarrow>
     (let n = of_char c :: nat in 48 \<le> n \<and> n \<le> 57 \<or> 65 \<le> n \<and> n \<le> 90 \<or> 97 \<le> n \<and> n \<le> 122)"

definition validate_hostname :: "string \<Rightarrow> bool" where
  "validate_hostname host \<longleftrightarrow>
     host \<noteq> [] \<and> length host \<le> 253 \<and> list_all (\<lambda>c. isalnum c \<or> c = CHR ''-'' \<or> c = CHR ''.'') host \<and>
     hd host \<noteq> CHR ''-'' \<and> last host \<noteq> CHR ''-''"

subsection \<open>Requests\<close>

definition validator_paths :: "path_decl list" where
  "validator_paths =
     [(''/validator/resources/status'', PORTAL_ACCESS_READ, Some ''Validator status''),
      (''/validator/functions/email'', PORTAL_ACCESS_RW, Some ''Validate email address. Header: value''),
      (''/validator/functions/ip'', PORTAL_ACCESS_RW, Some ''Validate IP address. Header: value''),
      (''/validator/functions/url'', PORTAL_ACCESS_RW, Some ''Validate URL. Header: value''),
      (''/validator/functions/json'', PORTAL_ACCESS_RW, Some ''Validate JSON. Body: JSON string''),
      (''/validator/functions/number'', PORTAL_ACCESS_RW, Some ''Validate number in range. Headers: value, min, max''),
      (''/validator/functions/regex'', PORTAL_ACCESS_RW, Some ''Match regex. Headers: value, pattern''),
      (''/validator/functions/hostname'', PORTAL_ACCESS_RW, Some ''Validate hostname. Header: value'')]"

definition validator_status :: "portal_resp \<Rightarrow> validator_module \<Rightarrow> validator_module mod_result" where
  "validator_status resp m =
     m_text 4096 PORTAL_OK
       (''Input Validator'' @ NL @ ''Types: email, ip, url, json, number, regex, hostname'' @ NL @
        ''Validations: '' @ dec (vm_validations m) @ '' (passed: '' @ dec (vm_passed m) @ '', failed: '' @ dec (vm_failed m) @ '')'' @ NL)
       0 resp m []"

text \<open>The macro \<open>RESULT\<close>: count, and answer with success for both verdicts.\<close>

definition result_reply :: "bool \<Rightarrow> string \<Rightarrow> portal_resp \<Rightarrow> validator_module \<Rightarrow> validator_module mod_result" where
  "result_reply ok line resp m =
     m_text 4096 (if ok then PORTAL_OK else PORTAL_BAD_REQUEST) (line @ NL) 0 resp
       (if ok then m\<lparr>vm_validations := vm_validations m + 1, vm_passed := vm_passed m + 1\<rparr>
        else m\<lparr>vm_validations := vm_validations m + 1, vm_failed := vm_failed m + 1\<rparr>) []"

definition check_ip :: "validator_os \<Rightarrow> string \<Rightarrow> portal_resp \<Rightarrow> validator_module \<Rightarrow> validator_module mod_result" where
  "check_ip os val resp m =
     (if vo_ipv4 os val then result_reply True (''valid IPv4: '' @ val) resp m
      else if vo_ipv6 os val then result_reply True (''valid IPv6: '' @ val) resp m
      else result_reply False (''invalid IP: '' @ val) resp m)"

definition check_json :: "portal_msg \<Rightarrow> portal_resp \<Rightarrow> validator_module \<Rightarrow> validator_module mod_result" where
  "check_json msg resp m =
     obind (if msg_body msg \<noteq> [] then obind (body_string (msg_body msg)) (\<lambda>s. Inr (Some s)) else get_header (msg_headers msg) ''value'') (\<lambda>val.
       case val of
         None \<Rightarrow> m_status PORTAL_BAD_REQUEST (-1) resp m
       | Some v \<Rightarrow> let ok = validate_json v in result_reply ok ((if ok then ''valid'' else ''invalid'') @ '' JSON'') resp m)"

definition check_number :: "validator_os \<Rightarrow> portal_msg \<Rightarrow> portal_resp \<Rightarrow> validator_module \<Rightarrow> validator_module mod_result" where
  "check_number os msg resp m =
     obind (get_header (msg_headers msg) ''value'') (\<lambda>val.
     obind (get_header (msg_headers msg) ''min'') (\<lambda>mn.
     obind (get_header (msg_headers msg) ''max'') (\<lambda>mx.
       case val of
         None \<Rightarrow> m_status PORTAL_BAD_REQUEST (-1) resp m
       | Some v \<Rightarrow>
           let ok = validate_number os v mn mx
           in result_reply ok ((if ok then ''valid'' else ''invalid'') @ '': '' @ v @
                (case mn of None \<Rightarrow> [] | Some s \<Rightarrow> '' (min='' @ s) @ (case mx of None \<Rightarrow> [] | Some s \<Rightarrow> '' max='' @ s)) resp m)))"

definition check_regex :: "validator_os \<Rightarrow> portal_msg \<Rightarrow> portal_resp \<Rightarrow> validator_module \<Rightarrow> validator_module mod_result" where
  "check_regex os msg resp m =
     obind (get_header (msg_headers msg) ''value'') (\<lambda>val.
     obind (get_header (msg_headers msg) ''pattern'') (\<lambda>pattern.
       case (val, pattern) of
         (Some v, Some p) \<Rightarrow>
           (case vo_regex os p v of
              None \<Rightarrow> result_reply False (''invalid regex pattern: '' @ p) resp m
            | Some ok \<Rightarrow>
                result_reply ok ((if ok then ''match'' else ''no match'') @ '': '' @ [CHR 0x27] @ v @ [CHR 0x27] @ '' vs /'' @ p @ ''/'') resp m)
       | _ \<Rightarrow> m_text 4096 PORTAL_BAD_REQUEST (''Need: value, pattern headers'' @ NL) (-1) resp m []))"

definition validator_handle :: "validator_os \<Rightarrow> portal_msg \<Rightarrow> portal_resp \<Rightarrow> validator_module \<Rightarrow> validator_module mod_result" where
  "validator_handle os msg resp m =
     (case msg_path msg of
        None \<Rightarrow> Inl Null_deref
      | Some path \<Rightarrow>
          if path = ''/validator/resources/status'' then validator_status resp m
          else if path = ''/validator/functions/email'' then
            with_header ''value'' msg resp m (\<lambda>v.
              let ok = validate_email v in result_reply ok ((if ok then ''valid'' else ''invalid'') @ '': '' @ v) resp m)
          else if path = ''/validator/functions/ip'' then with_header ''value'' msg resp m (\<lambda>v. check_ip os v resp m)
          else if path = ''/validator/functions/url'' then
            with_header ''value'' msg resp m (\<lambda>v.
              obind (validate_url v) (\<lambda>ok. result_reply ok ((if ok then ''valid URL'' else ''invalid URL'') @ '': '' @ v) resp m))
          else if path = ''/validator/functions/json'' then check_json msg resp m
          else if path = ''/validator/functions/number'' then check_number os msg resp m
          else if path = ''/validator/functions/regex'' then check_regex os msg resp m
          else if path = ''/validator/functions/hostname'' then
            with_header ''value'' msg resp m (\<lambda>v.
              let ok = validate_hostname v in result_reply ok ((if ok then ''valid'' else ''invalid'') @ '' hostname: '' @ v) resp m)
          else m_status PORTAL_NOT_FOUND (-1) resp m)"

subsection \<open>What the predicates accept\<close>

lemma validate_email_iff:
  "validate_email email \<longleftrightarrow>
     (\<exists>user name tld. email = user @ ''@'' @ name @ ''.'' @ tld \<and> user \<noteq> [] \<and> name \<noteq> [] \<and> tld \<noteq> [] \<and>
        CHR ''@'' \<notin> set user \<and> CHR ''.'' \<notin> set name \<and> CHR '' '' \<notin> set email)"
proof
  assume ok: "validate_email email"
  then obtain user host where uh: "strchr_split CHR ''@'' email = (user, Some host)" "user \<noteq> []"
    by (cases "strchr_split CHR ''@'' email") (auto simp: validate_email_def split: option.splits prod.splits)
  with ok obtain name tld where nt: "strchr_split CHR ''.'' host = (name, Some tld)" "name \<noteq> []" "tld \<noteq> []" "CHR '' '' \<notin> set email"
    by (cases "strchr_split CHR ''.'' host") (auto simp: validate_email_def split: option.splits)
  have "email = user @ ''@'' @ name @ ''.'' @ tld" "CHR ''@'' \<notin> set user" "CHR ''.'' \<notin> set name"
    using strchr_split_Some [OF uh(1)] strchr_split_Some [OF nt(1)] by simp_all
  with uh nt show "\<exists>user name tld. email = user @ ''@'' @ name @ ''.'' @ tld \<and> user \<noteq> [] \<and> name \<noteq> [] \<and> tld \<noteq> [] \<and>
      CHR ''@'' \<notin> set user \<and> CHR ''.'' \<notin> set name \<and> CHR '' '' \<notin> set email" by blast
qed (auto simp: validate_email_def strchr_split_append)

text \<open>A request for \<open>http://\<close> alone reads behind the header; no other text does.\<close>

lemma validate_url_fault: "validate_url url = Inl e \<longleftrightarrow> url = ''http://'' \<and> e = Over_read"
proof -
  have "url = ''http://''" if "prefix ''http://'' url" "length url < 8" using that by (auto simp: prefix_def)
  moreover have "\<not> length url < 8" if "prefix ''https://'' url" using prefix_length_le [OF that] by simp
  ultimately show ?thesis by (auto simp: validate_url_def)
qed

text \<open>
  JSON values and their text. In a string each quote follows a backslash and the last character is not a
  backslash; an atom is a number, \<open>true\<close>, \<open>false\<close> or \<open>null\<close>, seen as a text without quotes, brackets and backslashes.
\<close>

datatype json_value =
    J_String string
  | J_Atom string
  | J_Array "json_value list"
  | J_Object "(string \<times> json_value) list"

fun json_join :: "string list \<Rightarrow> string" where
  "json_join [] = []"
| "json_join [x] = x"
| "json_join (x # xs) = x @ '','' @ json_join xs"

definition json_string :: "string \<Rightarrow> string" where
  "json_string s = QUOTE # s @ [QUOTE]"

fun json_print :: "json_value \<Rightarrow> string" where
  "json_print (J_String s) = json_string s"
| "json_print (J_Atom s) = s"
| "json_print (J_Array vs) = ''['' @ json_join (map json_print vs) @ '']''"
| "json_print (J_Object kvs) = ''{'' @ json_join (map (\<lambda>(k, v). json_string k @ '':'' @ json_print v) kvs) @ ''}''"

fun quoted_ok :: "char \<Rightarrow> string \<Rightarrow> bool" where
  "quoted_ok prev [] \<longleftrightarrow> prev \<noteq> BACKSLASH"
| "quoted_ok prev (c # s) \<longleftrightarrow> (c = QUOTE \<longrightarrow> prev = BACKSLASH) \<and> quoted_ok c s"

fun json_clean :: "json_value \<Rightarrow> bool" where
  "json_clean (J_String s) = quoted_ok QUOTE s"
| "json_clean (J_Atom s) = list_all (\<lambda>c. c \<notin> {QUOTE, BACKSLASH, CHR ''{'', CHR ''}'', CHR ''['', CHR '']''}) s"
| "json_clean (J_Array vs) = list_all json_clean vs"
| "json_clean (J_Object kvs) = list_all (\<lambda>(k, v). quoted_ok QUOTE k \<and> json_clean v) kvs"

text \<open>\<open>passes t\<close>: outside of strings the scan runs over \<open>t\<close> and is outside of strings again, at the same depth.\<close>

definition passes :: "string \<Rightarrow> bool" where
  "passes t \<longleftrightarrow> (\<forall>prev brace bracket s. prev \<noteq> Some BACKSLASH \<longrightarrow> 0 \<le> brace \<longrightarrow> 0 \<le> bracket \<longrightarrow>
     (\<exists>p. p \<noteq> Some BACKSLASH \<and> json_scan prev False brace bracket (t @ s) = json_scan p False brace bracket s))"

lemma passesD:
  assumes "passes t" "prev \<noteq> Some BACKSLASH" "0 \<le> brace" "0 \<le> bracket"
  obtains p where "p \<noteq> Some BACKSLASH" "json_scan prev False brace bracket (t @ s) = json_scan p False brace bracket s"
  using passes_def [THEN iffD1, rule_format, OF assms, of s] by (elim exE conjE)

lemma passes_Nil: "passes []"
  by (auto simp: passes_def)

lemma passes_append:
  assumes "passes t" "passes u"
  shows "passes (t @ u)"
  unfolding passes_def
proof (intro allI impI)
  fix prev :: "char option" and brace bracket :: int and s
  assume a: "prev \<noteq> Some BACKSLASH" "0 \<le> brace" "0 \<le> bracket"
  obtain p where p: "p \<noteq> Some BACKSLASH" "json_scan prev False brace bracket (t @ u @ s) = json_scan p False brace bracket (u @ s)"
    by (rule passesD [OF assms(1) a])
  obtain q where "q \<noteq> Some BACKSLASH" "json_scan p False brace bracket (u @ s) = json_scan q False brace bracket s"
    by (rule passesD [OF assms(2) p(1) a(2,3)])
  with p show "\<exists>p. p \<noteq> Some BACKSLASH \<and> json_scan prev False brace bracket ((t @ u) @ s) = json_scan p False brace bracket s" by auto
qed

lemma passes_plain: "c \<notin> {QUOTE, BACKSLASH, CHR ''{'', CHR ''}'', CHR ''['', CHR '']''} \<Longrightarrow> passes [c]"
  by (auto simp: passes_def)

lemma passes_atom: "list_all (\<lambda>c. c \<notin> {QUOTE, BACKSLASH, CHR ''{'', CHR ''}'', CHR ''['', CHR '']''}) t \<Longrightarrow> passes t"
proof (induction t)
  case (Cons c t)
  then have "passes [c]" "passes t" using passes_plain [of c] by simp_all
  then have "passes ([c] @ t)" by (rule passes_append)
  then show ?case by simp
qed (rule passes_Nil)

lemma scan_quoted:
  "quoted_ok prev t \<Longrightarrow> 0 \<le> brace \<Longrightarrow> 0 \<le> bracket \<Longrightarrow>
     json_scan (Some prev) True brace bracket (t @ QUOTE # s) = json_scan (Some QUOTE) False brace bracket s"
  by (induction t arbitrary: prev) auto

lemma passes_string:
  assumes "quoted_ok QUOTE t"
  shows "passes (json_string t)"
  unfolding passes_def
proof (intro allI impI)
  fix prev :: "char option" and brace bracket :: int and s
  assume "prev \<noteq> Some BACKSLASH" "0 \<le> brace" "0 \<le> bracket"
  with scan_quoted [OF assms] show "\<exists>p. p \<noteq> Some BACKSLASH \<and> json_scan prev False brace bracket (json_string t @ s) = json_scan p False brace bracket s"
    by (intro exI [of _ "Some QUOTE"]) (simp add: json_string_def)
qed

lemma passes_brackets: "passes t \<Longrightarrow> passes (''['' @ t @ '']'')" "passes t \<Longrightarrow> passes (''{'' @ t @ ''}'')"
proof -
  assume t: "passes t"
  show "passes (''['' @ t @ '']'')"
    unfolding passes_def
  proof (intro allI impI)
    fix prev :: "char option" and brace bracket :: int and s
    assume a: "prev \<noteq> Some BACKSLASH" "0 \<le> brace" "0 \<le> bracket"
    obtain p where "p \<noteq> Some BACKSLASH"
      "json_scan (Some CHR ''['') False brace (bracket + 1) (t @ '']'' @ s) = json_scan p False brace (bracket + 1) ('']'' @ s)"
      using t a by (elim passesD [of t "Some CHR ''[''" brace "bracket + 1" "'']'' @ s"]) simp_all
    with a show "\<exists>p. p \<noteq> Some BACKSLASH \<and> json_scan prev False brace bracket ((''['' @ t @ '']'') @ s) = json_scan p False brace bracket s"
      by (intro exI [of _ "Some CHR '']''"]) simp
  qed
  show "passes (''{'' @ t @ ''}'')"
    unfolding passes_def
  proof (intro allI impI)
    fix prev :: "char option" and brace bracket :: int and s
    assume a: "prev \<noteq> Some BACKSLASH" "0 \<le> brace" "0 \<le> bracket"
    obtain p where "p \<noteq> Some BACKSLASH"
      "json_scan (Some CHR ''{'') False (brace + 1) bracket (t @ ''}'' @ s) = json_scan p False (brace + 1) bracket (''}'' @ s)"
      using t a by (elim passesD [of t "Some CHR ''{''" "brace + 1" bracket "''}'' @ s"]) simp_all
    with a show "\<exists>p. p \<noteq> Some BACKSLASH \<and> json_scan prev False brace bracket ((''{'' @ t @ ''}'') @ s) = json_scan p False brace bracket s"
      by (intro exI [of _ "Some CHR ''}''"]) simp
  qed
qed

lemma passes_join: "list_all passes ts \<Longrightarrow> passes (json_join ts)"
proof (induction ts rule: json_join.induct)
  case (3 x y ys)
  then have "passes (x @ '','' @ json_join (y # ys))" by (intro passes_append passes_plain) simp_all
  then show ?case by simp
qed (simp_all add: passes_Nil)

lemma passes_print: "json_clean v \<Longrightarrow> passes (json_print v)"
proof (induction v)
  case (J_Array vs)
  then have "list_all passes (map json_print vs)" by (simp add: list_all_iff)
  then show ?case by (simp add: passes_brackets passes_join del: append.simps)
next
  case (J_Object kvs)
  have "passes (json_string k @ '':'' @ json_print v)" if "(k, v) \<in> set kvs" for k v
    using that J_Object by (intro passes_append passes_string passes_plain) (auto simp: list_all_iff)
  then have "list_all passes (map (\<lambda>(k, v). json_string k @ '':'' @ json_print v) kvs)" by (auto simp: list_all_iff)
  then show ?case by (simp add: passes_brackets passes_join del: append.simps)
qed (simp_all add: passes_string passes_atom)

definition is_container :: "json_value \<Rightarrow> bool" where
  "is_container v = (case v of J_Array vs \<Rightarrow> True | J_Object kvs \<Rightarrow> True | _ \<Rightarrow> False)"

lemma scan_start: "json_scan None False 0 0 t = json_scan (Some CHR '' '') False 0 0 t"
  by (cases t) simp_all

text \<open>
  Property C26. The JSON check has no false alarms on ordinary values: the text of every array and every
  object, nested to any depth and with blanks around it, is accepted, provided no string in it ends in a
  backslash.
\<close>

theorem validate_json_accepts:
  assumes "json_clean v" "is_container v" "list_all json_space before" "list_all json_space behind"
  shows "validate_json (before @ json_print v @ behind)"
proof -
  let ?t = "json_print v"
  obtain o1 c1 body where shape: "?t = o1 # body @ [c1]" "o1 = CHR ''{'' \<and> c1 = CHR ''}'' \<or> o1 = CHR ''['' \<and> c1 = CHR '']''"
    using assms(2) by (cases v) (auto simp: is_container_def)
  have dropw: "dropWhile json_space (w @ x # xs) = x # xs" if "list_all json_space w" "\<not> json_space x" for w x xs
    using that by (simp add: dropWhile_append3 list_all_iff)
  have front: "dropWhile json_space (before @ ?t @ behind) = ?t @ behind"
    using dropw [OF assms(3), of o1 "body @ [c1] @ behind"] shape by (auto simp: json_space_def)
  have "list_all json_space (rev behind)" using assms(4) by simp
  from dropw [OF this, of c1 "rev body @ [o1]"] have rear: "hd (dropWhile json_space (rev (?t @ behind))) = c1"
    using shape by (auto simp: json_space_def)
  have "\<exists>p. p \<noteq> Some BACKSLASH \<and> json_scan (Some CHR '' '') False 0 0 (?t @ behind) = json_scan p False 0 0 behind"
    by (rule passes_def [THEN iffD1, rule_format, OF passes_print [OF assms(1)]]) simp_all
  then obtain p where p: "p \<noteq> Some BACKSLASH" "json_scan (Some CHR '' '') False 0 0 (?t @ behind) = json_scan p False 0 0 behind"
    by (elim exE conjE)
  have "list_all (\<lambda>c. c \<notin> {QUOTE, BACKSLASH, CHR ''{'', CHR ''}'', CHR ''['', CHR '']''}) behind"
    using assms(4) by (rule list.pred_mono_strong) (auto simp: json_space_def)
  then have "\<exists>q. q \<noteq> Some BACKSLASH \<and> json_scan p False 0 0 (behind @ []) = json_scan q False 0 0 []"
    by (intro passes_def [THEN iffD1, rule_format, OF passes_atom] p(1)) simp_all
  then have "json_scan p False 0 0 behind" by auto
  with p(2) have scan: "json_scan None False 0 0 (?t @ behind)" by (simp only: scan_start)
  have "?t @ behind \<noteq> []" "hd (?t @ behind) = o1" "before @ ?t @ behind \<noteq> []" by (simp_all add: shape(1))
  with shape(2) show ?thesis unfolding validate_json_def Let_def front rear using scan by (auto simp del: json_scan.simps)
qed

theorem validate_json_accepts_witness:
  "validate_json ('' '' @ json_print (J_Object [(''a'', J_Array [J_Atom ''1'', J_String ''x]''])]) @ [CHR 0x0A])"
  by (rule validate_json_accepts) (simp_all add: is_container_def json_space_def)

text \<open>
  The check counts braces and brackets apart, and takes every quote behind a backslash for an escaped one: it
  accepts crossed brackets and rejects an object whose string ends in an escaped backslash.
\<close>

lemma validate_json_crossed: "validate_json ''{[{]}}''"
  by code_simp

lemma validate_json_backslash: "\<not> validate_json (''{'' @ json_string ''a'' @ '':'' @ json_string [BACKSLASH, BACKSLASH] @ ''}'')"
  by code_simp

text \<open>Every verdict is counted once.\<close>

definition counted :: "validator_module \<Rightarrow> bool" where
  "counted m \<longleftrightarrow> vm_validations m = vm_passed m + vm_failed m"

lemma keeps_result: "counted m \<Longrightarrow> keeps counted (result_reply ok line resp m)"
  unfolding result_reply_def by (rule keeps_text) (simp add: counted_def)

lemma validator_keeps_counted: "counted m \<Longrightarrow> keeps counted (validator_handle os msg resp m)"
  unfolding validator_handle_def validator_status_def check_ip_def check_json_def check_number_def check_regex_def Let_def
  by (intro keeps_option keeps_if keeps_fault keeps_text keeps_header keeps_obind)
     (auto intro: keeps_result keeps_text split: option.split)

end
