(* ===== verification/Json.thy ===== *)
theory Json
  imports Mod_Kit
begin

section \<open>JSON responses (mod_json)\<close>

text \<open>
  \<^verbatim>\<open>modules/mod_json/mod_json.c\<close>: the text of a response as a string inside a JSON object. The escaped data goes
  through a buffer of 16384 bytes, which is never overrun; the path is copied into the object as it is.
\<close>

fun json_escape_loop :: "nat \<Rightarrow> string \<Rightarrow> string \<Rightarrow> string" where
  "json_escape_loop out_len [] out = out"
| "json_escape_loop out_len (c # s) out =
     (if \<not> length out < out_len - 2 then out
      else if c = CHR 0x22 then json_escape_loop out_len s (out @ [CHR 0x5C, CHR 0x22])
      else if c = CHR 0x5C then json_escape_loop out_len s (out @ [CHR 0x5C, CHR 0x5C])
      else if c = CHR 0x0A then json_escape_loop out_len s (out @ [CHR 0x5C, CHR ''n''])
      else if c = CHR 0x0D then json_escape_loop out_len s (out @ [CHR 0x5C, CHR ''r''])
      else if c = CHR 0x09 then json_escape_loop out_len s (out @ [CHR 0x5C, CHR ''t''])
      else if c = NUL then out
      else if 32 \<le> (of_char c :: nat) then json_escape_loop out_len s (out @ [c])
      else json_escape_loop out_len s out)"

definition json_escape :: "string \<Rightarrow> nat \<Rightarrow> string" where
  "json_escape s out_len = json_escape_loop out_len s []"

definition quoted :: "string \<Rightarrow> string" where
  "quoted s = CHR 0x22 # s @ [CHR 0x22]"

text \<open>The whole text; the caller sends as many bytes as it has, from a buffer that holds what fits.\<close>

definition json_wrap :: "bool \<Rightarrow> int \<Rightarrow> string \<Rightarrow> int \<Rightarrow> string \<Rightarrow> string" where
  "json_wrap pretty ts path status data =
     (let data = (if data \<noteq> [] \<and> last data = NUL then butlast data else data);
          escaped = json_escape data 16384
      in if pretty
         then ''{'' @ NL @ ''  '' @ quoted ''status'' @ '': '' @ dec status @ '','' @ NL @
              ''  '' @ quoted ''path'' @ '': '' @ quoted path @ '','' @ NL @
              ''  '' @ quoted ''timestamp'' @ '': '' @ dec ts @ '','' @ NL @
              ''  '' @ quoted ''data'' @ '': '' @ quoted escaped @ NL @ ''}'' @ NL
         else ''{'' @ quoted ''status'' @ '':'' @ dec status @ '','' @ quoted ''path'' @ '':'' @ quoted path @ '','' @
              quoted ''timestamp'' @ '':'' @ dec ts @ '','' @ quoted ''data'' @ '':'' @ quoted escaped @ ''}'' @ NL)"

definition json_load :: "string option \<Rightarrow> bool \<Rightarrow> bool" where
  "json_load setting pretty = (if setting = Some ''true'' \<or> setting = Some ''1'' then True else pretty)"

definition json_paths :: "path_decl list" where
  "json_paths =
     [(''/json/resources/status'', PORTAL_ACCESS_READ, Some ''JSON formatter status''),
      (''/json/functions/format'', PORTAL_ACCESS_RW, Some ''Format path response as JSON. Header: path''),
      (''/json/functions/wrap'', PORTAL_ACCESS_RW, None)]"

definition json_status :: "portal_resp \<Rightarrow> bool \<Rightarrow> bool mod_result" where
  "json_status resp pretty =
     m_text 32768 PORTAL_OK (''JSON Formatter'' @ NL @ ''Pretty: '' @ (if pretty then ''on'' else ''off'') @ NL) 0 resp pretty []"

definition json_format :: "int \<Rightarrow> portal_msg \<Rightarrow> portal_resp \<Rightarrow> bool \<Rightarrow> bool mod_result" where
  "json_format now msg resp pretty =
     m_text 32768 PORTAL_OK (json_wrap pretty now ''/json/functions/format'' 200 (msg_body msg)) 0 resp pretty []"

text \<open>A request without a target, and the answer once the target has answered.\<close>

definition json_no_path :: "portal_resp \<Rightarrow> bool \<Rightarrow> bool mod_result" where
  "json_no_path resp pretty =
     m_text 32768 PORTAL_BAD_REQUEST (''{'' @ quoted ''error'' @ '':'' @ quoted ''need path header'' @ ''}'' @ NL) (-1) resp pretty []"

definition json_answer :: "int \<Rightarrow> string \<Rightarrow> portal_resp \<Rightarrow> portal_resp \<Rightarrow> bool \<Rightarrow> bool mod_result" where
  "json_answer now path answer resp pretty =
     m_text 32768 PORTAL_OK (json_wrap pretty now path (uint (resp_status answer)) (resp_body answer)) 0 resp pretty []"

subsection \<open>The escaped text is a JSON string\<close>

text \<open>A strict reader of what stands between the quotes of a JSON string: no bare quote, no unknown escape.\<close>

definition unescape_char :: "char \<Rightarrow> char option" where
  "unescape_char d =
     (if d = CHR 0x22 \<or> d = CHR 0x5C then Some d
      else if d = CHR ''n'' then Some (CHR 0x0A)
      else if d = CHR ''r'' then Some (CHR 0x0D)
      else if d = CHR ''t'' then Some (CHR 0x09)
      else None)"

fun json_unescape :: "string \<Rightarrow> string option" where
  "json_unescape [] = Some []"
| "json_unescape (c # s) =
     (if c = CHR 0x22 then None
      else if c = CHR 0x5C then
        (case s of
           [] \<Rightarrow> None
         | d # t \<Rightarrow> (case unescape_char d of None \<Rightarrow> None | Some e \<Rightarrow> map_option (Cons e) (json_unescape t)))
      else map_option (Cons c) (json_unescape s))"

definition is_visible :: "char \<Rightarrow> bool" where
  "is_visible c \<longleftrightarrow> 32 \<le> (of_char c :: nat) \<or> c \<in> {CHR 0x0A, CHR 0x0D, CHR 0x09}"

definition visible :: "string \<Rightarrow> string" where
  "visible s = filter is_visible (takeWhile (\<lambda>c. c \<noteq> NUL) s)"

text \<open>\<open>escapes n s out\<close>: the loop from \<open>out\<close> appends a JSON string that stands for the visible characters that fit.\<close>

definition escapes :: "nat \<Rightarrow> string \<Rightarrow> string \<Rightarrow> bool" where
  "escapes n s out \<longleftrightarrow>
     (\<exists>r k. json_escape_loop n s out = out @ r \<and> json_unescape r = Some (take k (visible s)) \<and>
        (length out + 2 * length s + 2 < n \<longrightarrow> take k (visible s) = visible s))"

lemma escapes_step:
  assumes "escapes n s (out @ piece)" "json_escape_loop n (c # s) out = json_escape_loop n s (out @ piece)"
    "\<And>r. json_unescape (piece @ r) = map_option ((@) v) (json_unescape r)" "visible (c # s) = v @ visible s" "length piece \<le> 2"
  shows "escapes n (c # s) out"
proof -
  obtain r k where rk: "json_escape_loop n s (out @ piece) = (out @ piece) @ r" "json_unescape r = Some (take k (visible s))"
    "length (out @ piece) + 2 * length s + 2 < n \<longrightarrow> take k (visible s) = visible s" using assms(1) by (auto simp: escapes_def)
  have "json_escape_loop n (c # s) out = out @ (piece @ r)" using rk(1) assms(2) by simp
  moreover have t: "take (length v + k) (visible (c # s)) = v @ take k (visible s)" by (simp add: assms(4))
  moreover have "json_unescape (piece @ r) = Some (take (length v + k) (visible (c # s)))" unfolding assms(3) rk(2) t by simp
  ultimately show ?thesis using rk(3) assms(4,5) unfolding escapes_def by (intro exI [of _ "piece @ r"] exI [of _ "length v + k"]) auto
qed

lemma visible_Cons: "c \<noteq> NUL \<Longrightarrow> visible (c # s) = (if is_visible c then [c] else []) @ visible s" "visible (NUL # s) = []"
  by (simp_all add: visible_def)

lemma escapes_loop: "escapes n s out"
proof (induction s arbitrary: out)
  case Nil
  show ?case by (simp add: escapes_def visible_def)
next
  case (Cons c s)
  have stop: "escapes n (c # s) out" if "json_escape_loop n (c # s) out = out" "length out < n - 2 \<longrightarrow> visible (c # s) = []"
    using that unfolding escapes_def by (intro exI [of _ "[]"] exI [of _ 0]) auto
  have single: "(@) [x] = (#) x" for x :: char by (simp add: fun_eq_iff)
  have plain: "json_unescape ([c] @ r) = map_option ((@) [c]) (json_unescape r)" if "c \<noteq> CHR 0x22" "c \<noteq> CHR 0x5C" for r using that by (simp add: single)
  have id: "map_option ((@) []) x = x" for x :: "string option" by (cases x) simp_all
  note step = escapes_step [OF Cons.IH]
  have esc: "escapes n (c # s) out"
    if "json_escape_loop n (c # s) out = json_escape_loop n s (out @ [CHR 0x5C, d])" "unescape_char d = Some c" "is_visible c" "c \<noteq> NUL" for d
    using that by (intro step [where out = out and piece = "[CHR 0x5C, d]" and c = c and v = "[c]"]) (simp_all add: visible_Cons single)
  consider "\<not> length out < n - 2" | "c = NUL" "length out < n - 2" | "c = CHR 0x22" "length out < n - 2" | "c = CHR 0x5C" "length out < n - 2"
    | "c = CHR 0x0A" "length out < n - 2" | "c = CHR 0x0D" "length out < n - 2" | "c = CHR 0x09" "length out < n - 2"
    | "c \<notin> {NUL, CHR 0x22, CHR 0x5C, CHR 0x0A, CHR 0x0D, CHR 0x09}" "length out < n - 2" by blast
  then show ?case
  proof cases
    case 1
    then show ?thesis by (intro stop) simp_all
  next
    case 2
    then show ?thesis by (intro stop) (simp_all add: visible_Cons)
  next
    case 8
    show ?thesis
    proof (cases "32 \<le> (of_char c :: nat)")
      case True
      with 8 show ?thesis by (intro step [where out = out and piece = "[c]" and c = c and v = "[c]"] plain) (simp_all add: visible_Cons is_visible_def)
    next
      case False
      with 8 show ?thesis by (intro step [where out = out and piece = "[]" and c = c and v = "[]"]) (simp_all add: visible_Cons is_visible_def id)
    qed
  next
    case 3
    then show ?thesis by (intro esc [of "CHR 0x22"]) (simp_all add: unescape_char_def is_visible_def)
  next
    case 4
    then show ?thesis by (intro esc [of "CHR 0x5C"]) (simp_all add: unescape_char_def is_visible_def)
  next
    case 5
    then show ?thesis by (intro esc [of "CHR ''n''"]) (simp_all add: unescape_char_def is_visible_def)
  next
    case 6
    then show ?thesis by (intro esc [of "CHR ''r''"]) (simp_all add: unescape_char_def is_visible_def)
  next
    case 7
    then show ?thesis by (intro esc [of "CHR ''t''"]) (simp_all add: unescape_char_def is_visible_def)
  qed
qed

lemma json_escape_length: "length out < n \<Longrightarrow> length (json_escape_loop n s out) < n"
proof (induction s arbitrary: out)
  case (Cons c s)
  have "length (json_escape_loop n s (out @ x)) < n" if "length out < n - 2" "length x \<le> 2" for x
    using that Cons.IH [of "out @ x"] by simp
  with Cons show ?case by simp
qed simp



text \<open>The path is not escaped: a quote in it ends its string, and what follows is read as members of the object.\<close>

lemma json_wrap_path_unescaped:
  "json_wrap False ts (''/x'' @ [CHR 0x22] @ '','' @ quoted ''data'' @ '':'' @ [CHR 0x22] @ ''forged'') 404 [] =
     ''{'' @ quoted ''status'' @ '':404,'' @ quoted ''path'' @ '':'' @ quoted ''/x'' @ '','' @ quoted ''data'' @ '':'' @ quoted ''forged'' @ '','' @
     quoted ''timestamp'' @ '':'' @ dec ts @ '','' @ quoted ''data'' @ '':'' @ quoted [] @ ''}'' @ NL"
proof -
  have "dec 404 = ''404''" by code_simp
  then show ?thesis by (simp add: json_wrap_def quoted_def json_escape_def)
qed

end
