(* ===== verification/Cron.thy ===== *)
theory Cron
  imports Mod_Kit
begin

section \<open>Periodic jobs and one-shot tasks (mod_cron, mod_scheduler)\<close>

text \<open>
  The tables of \<^verbatim>\<open>modules/mod_cron/mod_cron.c\<close> and \<^verbatim>\<open>modules/mod_scheduler/mod_scheduler.c\<close>, and the requests that
  only touch them. Both modules look for due entries at the start of every request, and run them by sending
  messages, which needs the router; the theory \<open>Jobs\<close> has these parts. An entry is never removed from its table: a
  removed job is disabled and a finished task keeps its place.
\<close>

abbreviation (input) CRON_MAX_JOBS :: nat where "CRON_MAX_JOBS \<equiv> 100"
abbreviation (input) SCHED_MAX_TASKS :: nat where "SCHED_MAX_TASKS \<equiv> 256"
abbreviation (input) ARROW :: string where "ARROW \<equiv> [CHR 0xE2, CHR 0x86, CHR 0x92]"
abbreviation (input) APOS :: string where "APOS \<equiv> [CHR 0x27]"

subsection \<open>Jobs\<close>

record cron_job =
  cj_name :: string
  cj_path :: string
  cj_interval :: int
  cj_last_run :: int
  cj_enabled :: bool
  cj_run_count :: int

record cron_module =
  cr_jobs :: "cron_job list"
  cr_max :: int

definition cron_zero :: cron_module where
  "cron_zero = \<lparr>cr_jobs = [], cr_max = int CRON_MAX_JOBS\<rparr>"

definition cron_load :: "string option \<Rightarrow> cron_module \<Rightarrow> cron_module" where
  "cron_load max_jobs m = \<lparr>cr_jobs = [], cr_max = (case max_jobs of None \<Rightarrow> cr_max m | Some v \<Rightarrow> atoi v)\<rparr>"

definition cron_paths :: "path_decl list" where
  "cron_paths =
     [(''/cron/resources/status'', PORTAL_ACCESS_READ, Some ''Scheduler status: active job count''),
      (''/cron/resources/jobs'', PORTAL_ACCESS_READ, Some ''List jobs: name, interval, path, run count, next run''),
      (''/cron/functions/add'', PORTAL_ACCESS_RW, Some ''Add periodic job. Headers: name, path, interval (seconds)''),
      (''/cron/functions/remove'', PORTAL_ACCESS_RW, Some ''Remove job. Header: name''),
      (''/cron/functions/trigger'', PORTAL_ACCESS_RW, Some ''Force immediate run. Header: name'')]"

definition job_due :: "int \<Rightarrow> cron_job \<Rightarrow> bool" where
  "job_due now j \<longleftrightarrow> cj_enabled j \<and> cj_interval j \<le> now - cj_last_run j"

definition job_started :: "int \<Rightarrow> cron_job \<Rightarrow> cron_job" where
  "job_started now j = j\<lparr>cj_last_run := now, cj_run_count := cj_run_count j + 1\<rparr>"

definition find_job :: "cron_module \<Rightarrow> string \<Rightarrow> nat option" where
  "find_job m name = find_index (\<lambda>j. cj_enabled j \<and> cj_name j = name) (cr_jobs m)"

definition cron_status :: "portal_resp \<Rightarrow> cron_module \<Rightarrow> cron_module mod_result" where
  "cron_status resp m =
     m_text 8192 PORTAL_OK
       (''Cron Scheduler'' @ NL @ ''Jobs: '' @ dec (int (length (filter cj_enabled (cr_jobs m)))) @ '' active / '' @
        dec (int (length (cr_jobs m))) @ '' total (max '' @ dec (cr_max m) @ '')'' @ NL) 0 resp m []"

definition job_line :: "int \<Rightarrow> cron_job \<Rightarrow> string" where
  "job_line now j =
     ''  '' @ pad 20 (cj_name j) @ '' every '' @ dec (cj_interval j) @ ''s '' @ ARROW @ '' '' @ cj_path j @ '' (runs: '' @
     dec (cj_run_count j) @ '', next: '' @ dec (max 0 (cj_last_run j + cj_interval j - now)) @ ''s)'' @ NL"

definition cron_list :: "int \<Rightarrow> portal_resp \<Rightarrow> cron_module \<Rightarrow> cron_module mod_result" where
  "cron_list now resp m =
     obind (fold (\<lambda>j. off_append 8192 (job_line now j)) (filter cj_enabled (cr_jobs m)) (Inr (''Scheduled Jobs:'' @ NL))) (\<lambda>t.
     obind (if cr_jobs m = [] then off_append 8192 (''  (none)'' @ NL) (Inr t) else Inr t) (\<lambda>t.
       m_text 8192 PORTAL_OK t 0 resp m []))"

definition cron_add :: "int \<Rightarrow> portal_msg \<Rightarrow> portal_resp \<Rightarrow> cron_module \<Rightarrow> cron_module mod_result" where
  "cron_add now msg resp m =
     obind (get_header (msg_headers msg) ''name'') (\<lambda>name.
     obind (get_header (msg_headers msg) ''path'') (\<lambda>path.
     obind (get_header (msg_headers msg) ''interval'') (\<lambda>interval.
       case (name, path, interval) of
         (Some n, Some p, Some i) \<Rightarrow>
           if cr_max m \<le> int (length (cr_jobs m))
           then m_text 8192 PORTAL_INTERNAL_ERROR (''Max jobs reached'' @ NL) (-1) resp m []
           else if CRON_MAX_JOBS \<le> length (cr_jobs m) then Inl Over_write
           else m_text 8192 PORTAL_CREATED
                  (''Job '' @ APOS @ n @ APOS @ '' added: every '' @ dec (atoi i) @ ''s '' @ ARROW @ '' '' @ p @ NL) 0 resp
                  (m\<lparr>cr_jobs := cr_jobs m @ [\<lparr>cj_name = csnprintf 64 n, cj_path = csnprintf PORTAL_MAX_PATH_LEN p, cj_interval = atoi i,
                      cj_last_run = now, cj_enabled = True, cj_run_count = 0\<rparr>]\<rparr>) [(''/events/cron/add'', n)]
       | _ \<Rightarrow> m_text 8192 PORTAL_BAD_REQUEST (''Need: name, path, interval headers'' @ NL) (-1) resp m [])))"

definition cron_remove :: "portal_msg \<Rightarrow> portal_resp \<Rightarrow> cron_module \<Rightarrow> cron_module mod_result" where
  "cron_remove msg resp m =
     with_header ''name'' msg resp m (\<lambda>name.
       case find_job m name of
         None \<Rightarrow> m_status PORTAL_NOT_FOUND (-1) resp m
       | Some i \<Rightarrow>
           m_text 8192 PORTAL_OK (''Job '' @ APOS @ name @ APOS @ '' removed'' @ NL) 0 resp
             (m\<lparr>cr_jobs := (cr_jobs m)[i := (cr_jobs m ! i)\<lparr>cj_enabled := False\<rparr>]\<rparr>) [(''/events/cron/remove'', name)])"

text \<open>The requests that follow the check for due jobs and send nothing.\<close>

definition cron_request :: "int \<Rightarrow> string \<Rightarrow> portal_msg \<Rightarrow> portal_resp \<Rightarrow> cron_module \<Rightarrow> cron_module mod_result" where
  "cron_request now path msg resp m =
     (if path = ''/cron/resources/status'' then cron_status resp m
      else if path = ''/cron/resources/jobs'' then cron_list now resp m
      else if path = ''/cron/functions/add'' then cron_add now msg resp m
      else if path = ''/cron/functions/remove'' then cron_remove msg resp m
      else m_status PORTAL_NOT_FOUND (-1) resp m)"

subsection \<open>Tasks\<close>

datatype sched_status = SCHED_PENDING | SCHED_RUNNING | SCHED_DONE | SCHED_FAILED | SCHED_CANCELLED

record sched_task =
  tk_id :: int
  tk_name :: string
  tk_path :: string
  tk_run_at :: int
  tk_status :: sched_status

text \<open>A slot below the count is always active, so the flag \<open>active\<close> has no field of its own.\<close>

record sched_module =
  sm_tasks :: "sched_task list"
  sm_max :: int
  sm_next_id :: int
  sm_executed :: int

definition sched_zero :: sched_module where
  "sched_zero = \<lparr>sm_tasks = [], sm_max = int SCHED_MAX_TASKS, sm_next_id = 0, sm_executed = 0\<rparr>"

definition sched_load :: "string option \<Rightarrow> sched_module \<Rightarrow> sched_module" where
  "sched_load max_tasks m =
     \<lparr>sm_tasks = [], sm_max = (case max_tasks of None \<Rightarrow> sm_max m | Some v \<Rightarrow> atoi v), sm_next_id = 0, sm_executed = 0\<rparr>"

definition sched_paths :: "path_decl list" where
  "sched_paths =
     [(''/scheduler/resources/status'', PORTAL_ACCESS_READ, Some ''One-shot scheduler: task count''),
      (''/scheduler/resources/tasks'', PORTAL_ACCESS_READ, Some ''List pending one-shot tasks''),
      (''/scheduler/functions/schedule'', PORTAL_ACCESS_RW, None),
      (''/scheduler/functions/cancel'', PORTAL_ACCESS_RW, Some ''Cancel task. Header: name''),
      (''/scheduler/functions/check'', PORTAL_ACCESS_RW, None)]"

definition sched_pending :: "sched_module \<Rightarrow> nat" where
  "sched_pending m = length (filter (\<lambda>t. tk_status t = SCHED_PENDING) (sm_tasks m))"

definition sched_status_reply :: "portal_resp \<Rightarrow> sched_module \<Rightarrow> sched_module mod_result" where
  "sched_status_reply resp m =
     m_text 8192 PORTAL_OK
       (''One-Shot Scheduler'' @ NL @ ''Tasks: '' @ dec (int (sched_pending m)) @ '' pending, '' @
        dec (int (length (sm_tasks m)) - int (sched_pending m)) @ '' completed (max '' @ dec (sm_max m) @ '')'' @ NL @
        ''Total executed: '' @ dec (sm_executed m) @ NL) 0 resp m []"

definition status_name :: "sched_status \<Rightarrow> string" where
  "status_name s =
     (case s of SCHED_PENDING \<Rightarrow> ''PENDING'' | SCHED_RUNNING \<Rightarrow> ''RUNNING'' | SCHED_DONE \<Rightarrow> ''DONE''
      | SCHED_FAILED \<Rightarrow> ''FAILED'' | SCHED_CANCELLED \<Rightarrow> ''CANCELLED'')"

definition task_line :: "int \<Rightarrow> sched_task \<Rightarrow> string" where
  "task_line now t =
     ''  #'' @ pad 4 (dec (tk_id t)) @ '' '' @ pad 16 (tk_name t) @ '' '' @ pad 10 (status_name (tk_status t)) @ '' '' @ ARROW @ '' '' @ tk_path t @
     (if tk_status t = SCHED_PENDING \<and> 0 < tk_run_at t - now then '' (in '' @ dec (tk_run_at t - now) @ ''s)'' else []) @ NL"

definition sched_list :: "int \<Rightarrow> portal_resp \<Rightarrow> sched_module \<Rightarrow> sched_module mod_result" where
  "sched_list now resp m =
     obind (fold (\<lambda>t. off_append_below (8192 - 256) 8192 (task_line now t)) (sm_tasks m) (Inr (''Scheduled Tasks:'' @ NL))) (\<lambda>t.
     obind (if sm_tasks m = [] then off_append 8192 (''  (none)'' @ NL) (Inr t) else Inr t) (\<lambda>t.
       m_text 8192 PORTAL_OK t 0 resp m []))"

definition sched_add :: "int \<Rightarrow> portal_msg \<Rightarrow> portal_resp \<Rightarrow> sched_module \<Rightarrow> sched_module mod_result" where
  "sched_add now msg resp m =
     obind (get_header (msg_headers msg) ''name'') (\<lambda>name.
     obind (get_header (msg_headers msg) ''path'') (\<lambda>path.
     obind (get_header (msg_headers msg) ''delay'') (\<lambda>delay.
     obind (get_header (msg_headers msg) ''at'') (\<lambda>at_s.
       case (name, path, at_s, delay) of
         (Some n, Some p, at_s, delay) \<Rightarrow>
           if at_s = None \<and> delay = None
           then m_text 8192 PORTAL_BAD_REQUEST (''Need: name, path, delay (seconds) or at (unix timestamp)'' @ NL) (-1) resp m []
           else if sm_max m \<le> int (length (sm_tasks m))
           then m_text 8192 PORTAL_INTERNAL_ERROR (''Max tasks reached'' @ NL) (-1) resp m []
           else if SCHED_MAX_TASKS \<le> length (sm_tasks m) then Inl Over_write
           else let run_at = (case at_s of Some a \<Rightarrow> atoi a | None \<Rightarrow> now + (case delay of Some d \<Rightarrow> atoi d | None \<Rightarrow> 0));
                    t = \<lparr>tk_id = sm_next_id m + 1, tk_name = csnprintf 64 n, tk_path = csnprintf PORTAL_MAX_PATH_LEN p,
                         tk_run_at = run_at, tk_status = SCHED_PENDING\<rparr>
                in m_text 8192 PORTAL_CREATED
                     (''Task #'' @ dec (tk_id t) @ '' '' @ APOS @ n @ APOS @ '' scheduled '' @ ARROW @ '' '' @ p @ '' (in '' @ dec (max 0 (run_at - now)) @ ''s)'' @ NL)
                     0 resp (m\<lparr>sm_tasks := sm_tasks m @ [t], sm_next_id := sm_next_id m + 1\<rparr>) [(''/events/scheduler/schedule'', n)]
       | _ \<Rightarrow> m_text 8192 PORTAL_BAD_REQUEST (''Need: name, path, delay (seconds) or at (unix timestamp)'' @ NL) (-1) resp m []))))"

definition find_pending :: "sched_module \<Rightarrow> string \<Rightarrow> nat option" where
  "find_pending m name = find_index (\<lambda>t. tk_status t = SCHED_PENDING \<and> tk_name t = name) (sm_tasks m)"

definition set_task_status :: "nat \<Rightarrow> sched_status \<Rightarrow> sched_module \<Rightarrow> sched_module" where
  "set_task_status i s m = m\<lparr>sm_tasks := (sm_tasks m)[i := (sm_tasks m ! i)\<lparr>tk_status := s\<rparr>]\<rparr>"

definition sched_cancel :: "portal_msg \<Rightarrow> portal_resp \<Rightarrow> sched_module \<Rightarrow> sched_module mod_result" where
  "sched_cancel msg resp m =
     with_header ''name'' msg resp m (\<lambda>name.
       case find_pending m name of
         None \<Rightarrow> m_status PORTAL_NOT_FOUND (-1) resp m
       | Some i \<Rightarrow>
           m_text 8192 PORTAL_OK (''Cancelled: '' @ name @ NL) 0 resp (set_task_status i SCHED_CANCELLED m) [(''/events/scheduler/cancel'', name)])"

definition sched_checked :: "portal_resp \<Rightarrow> sched_module \<Rightarrow> sched_module mod_result" where
  "sched_checked resp m =
     m_text 8192 PORTAL_OK (''Checked. Pending: '' @ dec (int (sched_pending m)) @ NL) 0 resp m []"

definition sched_request :: "int \<Rightarrow> string \<Rightarrow> portal_msg \<Rightarrow> portal_resp \<Rightarrow> sched_module \<Rightarrow> sched_module mod_result" where
  "sched_request now path msg resp m =
     (if path = ''/scheduler/resources/status'' then sched_status_reply resp m
      else if path = ''/scheduler/resources/tasks'' then sched_list now resp m
      else if path = ''/scheduler/functions/schedule'' then sched_add now msg resp m
      else if path = ''/scheduler/functions/cancel'' then sched_cancel msg resp m
      else m_status PORTAL_NOT_FOUND (-1) resp m)"

subsection \<open>The tables stay in their arrays\<close>

definition cron_ok :: "cron_module \<Rightarrow> bool" where
  "cron_ok m \<longleftrightarrow> length (cr_jobs m) \<le> CRON_MAX_JOBS"

lemma cron_keeps_ok: "cron_ok m \<Longrightarrow> keeps cron_ok (cron_add now msg resp m)" "cron_ok m \<Longrightarrow> keeps cron_ok (cron_remove msg resp m)"
proof -
  assume ok: "cron_ok m"
  show "keeps cron_ok (cron_add now msg resp m)" using ok unfolding cron_add_def
    by (intro keeps_obind) (auto split: option.split prod.split intro!: keeps_text simp: cron_ok_def)
  show "keeps cron_ok (cron_remove msg resp m)" using ok unfolding cron_remove_def
    by (intro keeps_header keeps_option keeps_text) (simp_all add: cron_ok_def)
qed

definition sched_ok :: "sched_module \<Rightarrow> bool" where
  "sched_ok m \<longleftrightarrow> length (sm_tasks m) \<le> SCHED_MAX_TASKS"

lemma sched_keeps_ok: "sched_ok m \<Longrightarrow> keeps sched_ok (sched_add now msg resp m)" "sched_ok m \<Longrightarrow> keeps sched_ok (sched_cancel msg resp m)"
proof -
  assume ok: "sched_ok m"
  show "keeps sched_ok (sched_add now msg resp m)" using ok unfolding sched_add_def Let_def
    by (intro keeps_obind) (auto split: option.split prod.split intro!: keeps_text simp: sched_ok_def)
  show "keeps sched_ok (sched_cancel msg resp m)" using ok unfolding sched_cancel_def
    by (intro keeps_header keeps_option keeps_text) (simp_all add: sched_ok_def set_task_status_def)
qed

end
