(* ===== verification/Gateway.thy ===== *)
theory Gateway
  imports Mod_Kit
begin

section \<open>Routes to external services (mod_api_gateway)\<close>

text \<open>
  The table of routes of \<^verbatim>\<open>modules/mod_api_gateway/mod_api_gateway.c\<close>, its URLs and its HTTP text. A call asks the
  firewall and the cache through the core, so it needs the router; the theory \<open>Gateway_Calls\<close> has that part. What the
  upstream server sends is a parameter: a function of host, port and request, with no result when the connection
  cannot be made or the request cannot be written.

  A route is never removed from its slot, so the routes below the count are a list, and a new slot is filled with zeros.
\<close>

abbreviation (input) GW_MAX_ROUTES :: nat where "GW_MAX_ROUTES \<equiv> 128"
abbreviation (input) GW_BUF_SIZE :: nat where "GW_BUF_SIZE \<equiv> 131072"
abbreviation (input) CRLF :: string where "CRLF \<equiv> [CHR 0x0D, CHR 0x0A]"
abbreviation (input) TO_ARROW :: string where "TO_ARROW \<equiv> [CHR 0xE2, CHR 0x86, CHR 0x92]"
abbreviation (input) QUOTE1 :: string where "QUOTE1 \<equiv> [CHR 0x27]"

type_synonym upstream_fn = "string \<Rightarrow> int \<Rightarrow> string \<Rightarrow> string option"

record gw_route =
  gr_name :: string
  gr_upstream :: string
  gr_host :: string
  gr_port :: int
  gr_path :: string
  gr_use_tls :: bool
  gr_auth_header :: string
  gr_cache_ttl :: int
  gr_timeout :: int
  gr_active :: bool
  gr_calls :: int
  gr_cache_hits :: int
  gr_errors :: int

record gw_module =
  gm_routes :: "gw_route list"
  gm_max :: int
  gm_default_ttl :: int
  gm_default_tmo :: int

definition gw_zero :: gw_module where
  "gw_zero = \<lparr>gm_routes = [], gm_max = int GW_MAX_ROUTES, gm_default_ttl = 60, gm_default_tmo = 10\<rparr>"

definition gw_load :: "string option \<Rightarrow> string option \<Rightarrow> string option \<Rightarrow> gw_module \<Rightarrow> gw_module" where
  "gw_load max_routes ttl tmo m =
     \<lparr>gm_routes = [], gm_max = (case max_routes of None \<Rightarrow> gm_max m | Some v \<Rightarrow> atoi v),
      gm_default_ttl = (case ttl of None \<Rightarrow> gm_default_ttl m | Some v \<Rightarrow> atoi v),
      gm_default_tmo = (case tmo of None \<Rightarrow> gm_default_tmo m | Some v \<Rightarrow> atoi v)\<rparr>"

definition gw_paths :: "path_decl list" where
  "gw_paths =
     [(''/gateway/resources/status'', PORTAL_ACCESS_READ, Some ''API gateway: route count, cache TTL, timeout''),
      (''/gateway/resources/routes'', PORTAL_ACCESS_READ, Some ''List gateway routes with cache hit stats''),
      (''/gateway/functions/add'', PORTAL_ACCESS_RW, Some ''Add route. Headers: path, target, optional: ttl''),
      (''/gateway/functions/remove'', PORTAL_ACCESS_RW, Some ''Remove route. Header: path''),
      (''/gateway/functions/call'', PORTAL_ACCESS_RW, None)]"

definition gw_find_route :: "gw_module \<Rightarrow> string \<Rightarrow> nat option" where
  "gw_find_route m name = find_index (\<lambda>r. gr_active r \<and> gr_name r = name) (gm_routes m)"

subsection \<open>URLs\<close>

text \<open>The scheme, the host, the port and the path of a URL; host and path are cut to the sizes of their arrays.\<close>

definition url_scheme :: "string \<Rightarrow> bool \<times> int \<times> string" where
  "url_scheme url =
     (if prefix ''https://'' url then (True, 443, drop 8 url)
      else if prefix ''http://'' url then (False, 80, drop 7 url)
      else (False, 80, url))"

definition parse_url :: "nat \<Rightarrow> nat \<Rightarrow> string \<Rightarrow> string \<times> int \<times> string \<times> bool" where
  "parse_url hlen plen url =
     (case url_scheme url of
        (tls, port, p) \<Rightarrow>
          let colon = find_index (\<lambda>c. c = CHR '':'') p;
              slash = find_index (\<lambda>c. c = CHR ''/'') p;
              path = (case slash of Some j \<Rightarrow> csnprintf plen (drop j p) | None \<Rightarrow> csnprintf plen ''/'')
          in case (colon, slash) of
               (Some i, None) \<Rightarrow> (take (min i (hlen - 1)) p, atoi (drop (i + 1) p), path, tls)
             | (Some i, Some j) \<Rightarrow>
                 if i < j then (take (min i (hlen - 1)) p, atoi (drop (i + 1) p), path, tls)
                 else (take (min j (hlen - 1)) p, port, path, tls)
             | (None, Some j) \<Rightarrow> (take (min j (hlen - 1)) p, port, path, tls)
             | (None, None) \<Rightarrow> (csnprintf hlen p, port, path, tls))"

subsection \<open>HTTP\<close>

definition gw_extra :: "gw_route \<Rightarrow> string" where
  "gw_extra r = (if gr_auth_header r \<noteq> [] then csnprintf 512 (''Authorization: '' @ gr_auth_header r @ CRLF) else [])"

definition gw_request :: "gw_route \<Rightarrow> string option \<Rightarrow> string" where
  "gw_request r uri =
     (let full_path = csnprintf 1024 (gr_path r @ (case uri of None \<Rightarrow> [] | Some u \<Rightarrow> u))
      in ''GET '' @ full_path @ '' HTTP/1.0'' @ CRLF @ ''Host: '' @ gr_host r @ CRLF @ ''User-Agent: Portal-Gateway/1.0'' @ CRLF @
         ''Connection: close'' @ CRLF @ gw_extra r @ CRLF)"

text \<open>The first occurrence of a piece of text.\<close>

fun text_index :: "string \<Rightarrow> string \<Rightarrow> nat option" where
  "text_index piece [] = (if piece = [] then Some 0 else None)"
| "text_index piece (c # s) = (if prefix piece (c # s) then Some 0 else map_option Suc (text_index piece s))"

text \<open>What follows the head of the answer. The search for the empty line stops at the first NUL.\<close>

definition http_body :: "string \<Rightarrow> string" where
  "http_body bytes =
     (case text_index (CRLF @ CRLF) (takeWhile (\<lambda>c. c \<noteq> NUL) bytes) of
        Some i \<Rightarrow> drop (i + 4) bytes
      | None \<Rightarrow> bytes)"

definition gw_http_get :: "upstream_fn \<Rightarrow> gw_route \<Rightarrow> string option \<Rightarrow> nat \<Rightarrow> string option" where
  "gw_http_get up r uri outlen =
     map_option (\<lambda>bytes. http_body (take (outlen - 1) bytes)) (up (gr_host r) (gr_port r) (gw_request r uri))"

definition gw_cache_key :: "gw_route \<Rightarrow> string option \<Rightarrow> string" where
  "gw_cache_key r uri = csnprintf 512 (''gw:'' @ gr_name r @ '':'' @ (case uri of None \<Rightarrow> ''/'' | Some u \<Rightarrow> u))"

subsection \<open>Requests that send nothing\<close>

definition gw_status :: "portal_resp \<Rightarrow> gw_module \<Rightarrow> gw_module mod_result" where
  "gw_status resp m =
     (let rs = filter gr_active (gm_routes m)
      in m_text 8192 PORTAL_OK
           (''API Gateway'' @ NL @ ''Routes: '' @ dec (int (length rs)) @ '' (max '' @ dec (gm_max m) @ '')'' @ NL @
            ''Default cache TTL: '' @ dec (gm_default_ttl m) @ ''s'' @ NL @ ''Default timeout: '' @ dec (gm_default_tmo m) @ ''s'' @ NL @
            ''Total calls: '' @ dec (sum_list (map gr_calls rs)) @ NL @ ''Cache hits: '' @ dec (sum_list (map gr_cache_hits rs)) @ NL @
            ''Errors: '' @ dec (sum_list (map gr_errors rs)) @ NL) 0 resp m [])"

definition route_line :: "gw_route \<Rightarrow> string" where
  "route_line r =
     ''  '' @ pad 16 (gr_name r) @ '' '' @ TO_ARROW @ '' '' @ gr_host r @ '':'' @ dec (gr_port r) @ gr_path r @ ''  cache:'' @ dec (gr_cache_ttl r) @
     ''s  calls:'' @ dec (gr_calls r) @ ''  hits:'' @ dec (gr_cache_hits r) @ ''  err:'' @ dec (gr_errors r) @ NL"

definition gw_list :: "portal_resp \<Rightarrow> gw_module \<Rightarrow> gw_module mod_result" where
  "gw_list resp m =
     obind (fold (\<lambda>r. off_append 8192 (route_line r)) (filter gr_active (gm_routes m)) (Inr (''API Routes:'' @ NL))) (\<lambda>t.
     obind (if gm_routes m = [] then off_append 8192 (''  (none)'' @ NL) (Inr t) else Inr t) (\<lambda>t.
       m_text 8192 PORTAL_OK t 0 resp m []))"

definition new_route :: "string \<Rightarrow> string \<Rightarrow> string option \<Rightarrow> string option \<Rightarrow> string option \<Rightarrow> gw_module \<Rightarrow> gw_route" where
  "new_route name upstream auth ttl_s tmo_s m =
     (case parse_url 256 256 upstream of
        (host, port, path, tls) \<Rightarrow>
          \<lparr>gr_name = csnprintf 64 name, gr_upstream = csnprintf 512 upstream, gr_host = host, gr_port = port, gr_path = path, gr_use_tls = tls,
           gr_auth_header = (case auth of None \<Rightarrow> [] | Some a \<Rightarrow> csnprintf 256 a),
           gr_cache_ttl = (case ttl_s of None \<Rightarrow> gm_default_ttl m | Some v \<Rightarrow> atoi v),
           gr_timeout = (case tmo_s of None \<Rightarrow> gm_default_tmo m | Some v \<Rightarrow> atoi v),
           gr_active = True, gr_calls = 0, gr_cache_hits = 0, gr_errors = 0\<rparr>)"

definition gw_add :: "portal_msg \<Rightarrow> portal_resp \<Rightarrow> gw_module \<Rightarrow> gw_module mod_result" where
  "gw_add msg resp m =
     obind (get_header (msg_headers msg) ''name'') (\<lambda>name.
     obind (get_header (msg_headers msg) ''upstream'') (\<lambda>upstream.
     obind (get_header (msg_headers msg) ''auth'') (\<lambda>auth.
     obind (get_header (msg_headers msg) ''cache_ttl'') (\<lambda>ttl_s.
     obind (get_header (msg_headers msg) ''timeout'') (\<lambda>tmo_s.
       case (name, upstream) of
         (Some n, Some u) \<Rightarrow>
           if gw_find_route m n \<noteq> None then m_status PORTAL_CONFLICT (-1) resp m
           else if gm_max m \<le> int (length (gm_routes m)) then m_status PORTAL_INTERNAL_ERROR (-1) resp m
           else if GW_MAX_ROUTES \<le> length (gm_routes m) then Inl Over_write
           else let r = new_route n u auth ttl_s tmo_s m
                in m_text 8192 PORTAL_CREATED
                     (''Route '' @ QUOTE1 @ n @ QUOTE1 @ '' '' @ TO_ARROW @ '' '' @ gr_host r @ '':'' @ dec (gr_port r) @ gr_path r @ '' (cache: '' @
                      dec (gr_cache_ttl r) @ ''s, timeout: '' @ dec (gr_timeout r) @ ''s)'' @ NL) 0 resp
                     (m\<lparr>gm_routes := gm_routes m @ [r]\<rparr>) [(''/events/gateway/add'', n)]
       | _ \<Rightarrow> m_text 8192 PORTAL_BAD_REQUEST (''Need: name, upstream headers. Optional: auth, cache_ttl, timeout'' @ NL) (-1) resp m [])))))"

definition gw_remove :: "portal_msg \<Rightarrow> portal_resp \<Rightarrow> gw_module \<Rightarrow> gw_module mod_result" where
  "gw_remove msg resp m =
     with_header ''name'' msg resp m (\<lambda>name.
       case gw_find_route m name of
         None \<Rightarrow> m_status PORTAL_NOT_FOUND (-1) resp m
       | Some i \<Rightarrow>
           m_text 8192 PORTAL_OK (''Route '' @ QUOTE1 @ name @ QUOTE1 @ '' removed'' @ NL) 0 resp
             (m\<lparr>gm_routes := (gm_routes m)[i := (gm_routes m ! i)\<lparr>gr_active := False\<rparr>]\<rparr>) [(''/events/gateway/remove'', name)])"

definition gw_table_request :: "string \<Rightarrow> portal_msg \<Rightarrow> portal_resp \<Rightarrow> gw_module \<Rightarrow> gw_module mod_result" where
  "gw_table_request path msg resp m =
     (if path = ''/gateway/resources/status'' then gw_status resp m
      else if path = ''/gateway/resources/routes'' then gw_list resp m
      else if path = ''/gateway/functions/add'' then gw_add msg resp m
      else if path = ''/gateway/functions/remove'' then gw_remove msg resp m
      else m_status PORTAL_NOT_FOUND (-1) resp m)"

subsection \<open>The text that is sent fits\<close>

text \<open>The sizes of the arrays of a route; every route that the module adds has them.\<close>

definition route_ok :: "gw_route \<Rightarrow> bool" where
  "route_ok r \<longleftrightarrow> length (gr_name r) < 64 \<and> length (gr_host r) < 256 \<and> length (gr_path r) < 256 \<and> length (gr_auth_header r) < 256"

definition gw_ok :: "gw_module \<Rightarrow> bool" where
  "gw_ok m \<longleftrightarrow> length (gm_routes m) \<le> GW_MAX_ROUTES \<and> list_all route_ok (gm_routes m)"

lemma parse_url_sizes:
  assumes "parse_url 256 256 url = (host, port, path, tls)"
  shows "length host < 256" "length path < 256"
  using assms by (auto simp: parse_url_def csnprintf_def Let_def split: prod.splits option.splits if_splits)

lemma new_route_ok: "route_ok (new_route n u a t s m)"
  using parse_url_sizes [of u] by (auto simp: new_route_def route_ok_def csnprintf_def split: prod.split option.split)

lemma gw_ok_put: "gw_ok m \<Longrightarrow> route_ok r \<Longrightarrow> gw_ok (m\<lparr>gm_routes := (gm_routes m)[i := r]\<rparr>)"
  by (simp add: gw_ok_def list_all_put)

lemma gw_ok_nth: "gw_ok m \<Longrightarrow> i < length (gm_routes m) \<Longrightarrow> route_ok (gm_routes m ! i)"
  by (simp add: gw_ok_def list_all_length)

lemma gw_find_route_Some:
  "gw_find_route m n = Some i \<Longrightarrow> i < length (gm_routes m) \<and> gr_active (gm_routes m ! i) \<and> gr_name (gm_routes m ! i) = n"
  by (auto simp: gw_find_route_def dest: find_index_SomeD)

lemma gw_table_ok:
  assumes ok: "gw_ok m"
  shows "keeps gw_ok (gw_table_request path msg resp m)"
proof -
  have add: "keeps gw_ok (gw_add msg resp m)" using ok unfolding gw_add_def Let_def
    by (intro keeps_obind) (auto split: option.split prod.split intro!: keeps_text simp: gw_ok_def new_route_ok)
  have "route_ok ((gm_routes m ! i)\<lparr>gr_active := False\<rparr>)" if "gw_find_route m n = Some i" for n i
    using gw_ok_nth [OF ok, of i] gw_find_route_Some [OF that] by (auto simp: route_ok_def)
  then have remove: "keeps gw_ok (gw_remove msg resp m)" using ok unfolding gw_remove_def
    by (intro keeps_header keeps_option keeps_text gw_ok_put) simp_all
  show ?thesis unfolding gw_table_request_def gw_status_def gw_list_def Let_def
    using ok by (intro keeps_if keeps_obind keeps_text add remove) simp_all
qed

text \<open>The request to the upstream fits into its array of 4096 bytes, so that all that is written has been set.\<close>

lemma gw_request_fits: "route_ok r \<Longrightarrow> length (gw_request r uri) < 4096"
  by (auto simp: route_ok_def gw_request_def gw_extra_def csnprintf_def Let_def)

subsection \<open>URLs are read as they are written\<close>

text \<open>A URL with a port is split into its parts, as long as they fit into their arrays.\<close>

lemma parse_url_parts:
  assumes "CHR '':'' \<notin> set host" "CHR ''/'' \<notin> set host" "length host < 256" "0 \<le> port" "length path < 255"
  shows "parse_url 256 256 (''http://'' @ host @ '':'' @ dec port @ ''/'' @ path) = (host, port, CHR ''/'' # path, False)"
proof -
  let ?p = "host @ CHR '':'' # dec port @ CHR ''/'' # path"
  have colon: "find_index (\<lambda>c. c = CHR '':'') ?p = Some (length host)" using assms(1) by (intro find_index_skip) auto
  have "find_index (\<lambda>c. c = CHR ''/'') ((host @ CHR '':'' # dec port) @ CHR ''/'' # path) = Some (length (host @ CHR '':'' # dec port))"
    using assms(2) dec_no_slash [of port] by (intro find_index_skip) auto
  then have slash: "find_index (\<lambda>c. c = CHR ''/'') ?p = Some (length host + 1 + length (dec port))" by simp
  have scheme: "url_scheme (''http://'' @ ?p) = (False, 80, ?p)" by (simp add: url_scheme_def)
  have "atoi (dec port @ CHR ''/'' # path) = port" using assms(4) by (intro atoi_dec) (simp_all add: isdigit_def)
  then show ?thesis using scheme colon slash assms(3,5) by (simp add: parse_url_def Let_def csnprintf_def)
qed

end
