(* ===== verification/Files.thy ===== *)
theory Files
  imports Mod_Kit
begin

section \<open>Files below one directory (mod_file)\<close>

text \<open>
  \<^verbatim>\<open>modules/mod_file/mod_file.c\<close>: reading, writing, listing and deleting files below a base directory. The data of the module
  is paired with the file system, as for the key-value store. What the operating system decides is a record: which paths
  are directories, which can be opened or removed, the names in a directory and the result of \<open>stat\<close>. The directories
  that the module makes are a list in its data. A directory can be opened for reading; its length is then the largest
  number that \<open>ftell\<close> returns.
\<close>

abbreviation (input) FILE_MAX_SIZE :: nat where "FILE_MAX_SIZE \<equiv> 10485760"
abbreviation (input) FILE_BUF_SIZE :: nat where "FILE_BUF_SIZE \<equiv> 8192"

record file_module =
  fl_base_dir :: string
  fl_max_size :: nat
  fl_reads :: int
  fl_writes :: int
  fl_deletes :: int
  fl_made :: "string list"

record file_stat =
  fs_size :: int
  fs_isdir :: bool
  fs_ctime :: string
  fs_mode :: string

record file_os =
  fo_isdir :: "string \<Rightarrow> bool"
  fo_can_read :: "string \<Rightarrow> bool"
  fo_can_write :: "string \<Rightarrow> bool"
  fo_can_unlink :: "string \<Rightarrow> bool"
  fo_can_mkdir :: "string \<Rightarrow> bool"
  fo_exists :: "string \<Rightarrow> bool"
  fo_strerror :: string
  fo_names :: "string \<Rightarrow> string list option"
  fo_stat :: "string \<Rightarrow> file_stat option"

type_synonym file_state = "file_module \<times> file_system"

definition file_zero :: file_module where
  "file_zero = \<lparr>fl_base_dir = ''/var/lib/portal/files'', fl_max_size = FILE_MAX_SIZE, fl_reads = 0, fl_writes = 0, fl_deletes = 0, fl_made = []\<rparr>"

definition safe_path :: "string \<Rightarrow> string \<Rightarrow> string option" where
  "safe_path base name =
     (if name = [] then None else if sublist ''..'' name then None else if hd name = CHR ''/'' then None
      else Some (csnprintf 1024 (base @ ''/'' @ name)))"

definition file_load :: "file_os \<Rightarrow> string option \<Rightarrow> string option \<Rightarrow> file_module \<Rightarrow> file_module" where
  "file_load os base_dir max_size m =
     (let base = (case base_dir of None \<Rightarrow> fl_base_dir m | Some v \<Rightarrow> csnprintf 512 v)
      in \<lparr>fl_base_dir = base, fl_max_size = (case max_size of None \<Rightarrow> fl_max_size m | Some v \<Rightarrow> nat (atoi v mod 2 ^ 64)),
          fl_reads = 0, fl_writes = 0, fl_deletes = 0,
          fl_made = (if fo_can_mkdir os base then fl_made m @ [base] else fl_made m)\<rparr>)"

definition file_paths :: "path_decl list" where
  "file_paths =
     [(''/file/resources/status'', PORTAL_ACCESS_READ, Some ''File module: base path, max file size''),
      (''/file/functions/read'', PORTAL_ACCESS_RW, Some ''Read file. Header: path (relative to base)''),
      (''/file/functions/write'', PORTAL_ACCESS_RW, Some ''Write file. Header: path. Body: content''),
      (''/file/functions/list'', PORTAL_ACCESS_RW, Some ''List files. Header: path (directory)''),
      (''/file/functions/delete'', PORTAL_ACCESS_RW, Some ''Delete file. Header: path''),
      (''/file/functions/info'', PORTAL_ACCESS_RW, Some ''File info: size, modified time. Header: path''),
      (''/file/functions/mkdir'', PORTAL_ACCESS_RW, None)]"

subsection \<open>Requests\<close>

definition file_status :: "portal_resp \<Rightarrow> file_state \<Rightarrow> file_state mod_result" where
  "file_status resp s =
     (let m = fst s
      in m_text FILE_BUF_SIZE PORTAL_OK
           (''File Module'' @ NL @ ''Base dir: '' @ fl_base_dir m @ NL @ ''Max file size: '' @ dec (int (fl_max_size m)) @ '' bytes'' @ NL @
            ''Reads: '' @ dec (fl_reads m) @ NL @ ''Writes: '' @ dec (fl_writes m) @ NL @ ''Deletes: '' @ dec (fl_deletes m) @ NL) 0 resp s [])"

text \<open>The header \<open>name\<close> as a path below the base directory.\<close>

definition with_name ::
    "portal_msg \<Rightarrow> file_state \<Rightarrow> file_state mod_result \<Rightarrow> (string \<Rightarrow> string \<Rightarrow> file_state mod_result) \<Rightarrow> file_state mod_result" where
  "with_name msg s bad body =
     obind (get_header (msg_headers msg) ''name'') (\<lambda>name.
       case name of
         None \<Rightarrow> bad
       | Some n \<Rightarrow> (case safe_path (fl_base_dir (fst s)) n of None \<Rightarrow> bad | Some path \<Rightarrow> body n path))"

definition need_name :: "portal_resp \<Rightarrow> file_state \<Rightarrow> file_state mod_result" where
  "need_name resp s = m_text FILE_BUF_SIZE PORTAL_BAD_REQUEST (''Need: name header (no .. allowed)'' @ NL) (-1) resp s []"

definition open_rb :: "file_os \<Rightarrow> file_system \<Rightarrow> string \<Rightarrow> (nat \<times> string) option" where
  "open_rb os fs path =
     (if \<not> fo_can_read os path then None
      else if fo_isdir os path then Some (2 ^ 63 - 1, [])
      else map_option (\<lambda>c. (length c, c)) (fs path))"

definition file_read :: "file_os \<Rightarrow> portal_msg \<Rightarrow> portal_resp \<Rightarrow> file_state \<Rightarrow> file_state mod_result" where
  "file_read os msg resp s =
     with_name msg s (need_name resp s) (\<lambda>name path.
       case open_rb os (snd s) path of
         None \<Rightarrow> m_text FILE_BUF_SIZE PORTAL_NOT_FOUND (''File not found: '' @ name @ NL) (-1) resp s []
       | Some (sz, data) \<Rightarrow>
           if fl_max_size (fst s) < sz then m_text FILE_BUF_SIZE PORTAL_BAD_REQUEST (''File too large'' @ NL) (-1) resp s []
           else m_body PORTAL_OK data 0 resp ((fst s)\<lparr>fl_reads := fl_reads (fst s) + 1\<rparr>, snd s) [])"

definition file_write :: "file_os \<Rightarrow> portal_msg \<Rightarrow> portal_resp \<Rightarrow> file_state \<Rightarrow> file_state mod_result" where
  "file_write os msg resp s =
     obind (if msg_body msg \<noteq> [] then Inr (Some (msg_body msg)) else get_header (msg_headers msg) ''data'') (\<lambda>data.
       with_name msg s (need_name resp s) (\<lambda>name path.
         case data of
           None \<Rightarrow> m_text FILE_BUF_SIZE PORTAL_BAD_REQUEST (''Need: body or data header'' @ NL) (-1) resp s []
         | Some d \<Rightarrow>
             if fl_max_size (fst s) < length d
             then m_text FILE_BUF_SIZE PORTAL_BAD_REQUEST
                    (''Data too large ('' @ dec (int (length d)) @ '' > '' @ dec (int (fl_max_size (fst s))) @ '')'' @ NL) (-1) resp s []
             else if \<not> fo_can_write os path
             then m_text FILE_BUF_SIZE PORTAL_INTERNAL_ERROR (''Cannot write: '' @ fo_strerror os @ NL) (-1) resp s []
             else m_text FILE_BUF_SIZE PORTAL_OK (''Written '' @ dec (int (length d)) @ '' bytes to '' @ name @ NL) 0 resp
                    ((fst s)\<lparr>fl_writes := fl_writes (fst s) + 1\<rparr>, (snd s)(path \<mapsto> d)) [(''/events/file/write'', name)]))"

definition name_line :: "file_os \<Rightarrow> string \<Rightarrow> string \<Rightarrow> string option" where
  "name_line os dpath name =
     map_option (\<lambda>st. pad 4 (if fs_isdir st then ''dir'' else ''file'') @ '' '' @
         replicate (8 - length (dec (fs_size st))) CHR '' '' @ dec (fs_size st) @ ''  '' @ name @ NL)
       (fo_stat os (csnprintf 1280 (dpath @ ''/'' @ name)))"

definition list_dir :: "file_os \<Rightarrow> string \<Rightarrow> portal_resp \<Rightarrow> file_state \<Rightarrow> file_state mod_result" where
  "list_dir os dpath resp s =
     (case fo_names os dpath of
        None \<Rightarrow> m_text FILE_BUF_SIZE PORTAL_NOT_FOUND (''Cannot open directory'' @ NL) (-1) resp s []
      | Some names \<Rightarrow>
          obind (fold (off_append_below (FILE_BUF_SIZE - 256) FILE_BUF_SIZE)
                   (List.map_filter (name_line os dpath) (filter (\<lambda>n. n = [] \<or> hd n \<noteq> CHR ''.'') names)) (Inr [])) (\<lambda>t.
            m_text FILE_BUF_SIZE PORTAL_OK (if t = [] then ''(empty)'' @ NL else t) 0 resp s []))"

definition file_list :: "file_os \<Rightarrow> portal_msg \<Rightarrow> portal_resp \<Rightarrow> file_state \<Rightarrow> file_state mod_result" where
  "file_list os msg resp s =
     obind (get_header (msg_headers msg) ''dir'') (\<lambda>dir.
       case dir of
         None \<Rightarrow> list_dir os (csnprintf 1024 (fl_base_dir (fst s))) resp s
       | Some d \<Rightarrow>
           (case safe_path (fl_base_dir (fst s)) d of
              None \<Rightarrow> m_status PORTAL_BAD_REQUEST (-1) resp s
            | Some dpath \<Rightarrow> list_dir os dpath resp s))"

definition file_delete :: "file_os \<Rightarrow> portal_msg \<Rightarrow> portal_resp \<Rightarrow> file_state \<Rightarrow> file_state mod_result" where
  "file_delete os msg resp s =
     with_name msg s (m_status PORTAL_BAD_REQUEST (-1) resp s) (\<lambda>name path.
       if snd s path = None \<or> \<not> fo_can_unlink os path
       then m_text FILE_BUF_SIZE PORTAL_NOT_FOUND (''Cannot delete: '' @ fo_strerror os @ NL) (-1) resp s []
       else m_text FILE_BUF_SIZE PORTAL_OK (''Deleted '' @ name @ NL) 0 resp
              ((fst s)\<lparr>fl_deletes := fl_deletes (fst s) + 1\<rparr>, (snd s)(path := None)) [(''/events/file/delete'', name)])"

definition file_info :: "file_os \<Rightarrow> portal_msg \<Rightarrow> portal_resp \<Rightarrow> file_state \<Rightarrow> file_state mod_result" where
  "file_info os msg resp s =
     with_name msg s (m_status PORTAL_BAD_REQUEST (-1) resp s) (\<lambda>name path.
       case fo_stat os path of
         None \<Rightarrow> m_status PORTAL_NOT_FOUND (-1) resp s
       | Some st \<Rightarrow>
           m_text FILE_BUF_SIZE PORTAL_OK
             (''Name: '' @ name @ NL @ ''Size: '' @ dec (fs_size st) @ '' bytes'' @ NL @
              ''Type: '' @ (if fs_isdir st then ''directory'' else ''file'') @ NL @ ''Modified: '' @ fs_ctime st @
              ''Permissions: '' @ fs_mode st @ NL) 0 resp s [])"

definition file_mkdir :: "file_os \<Rightarrow> portal_msg \<Rightarrow> portal_resp \<Rightarrow> file_state \<Rightarrow> file_state mod_result" where
  "file_mkdir os msg resp s =
     with_name msg s (m_status PORTAL_BAD_REQUEST (-1) resp s) (\<lambda>name path.
       if \<not> fo_can_mkdir os path \<and> \<not> fo_exists os path
       then m_text FILE_BUF_SIZE PORTAL_INTERNAL_ERROR (''Cannot create: '' @ fo_strerror os @ NL) (-1) resp s []
       else m_text FILE_BUF_SIZE PORTAL_CREATED (''Directory created: '' @ name @ NL) 0 resp
              (if fo_can_mkdir os path then (fst s)\<lparr>fl_made := fl_made (fst s) @ [path]\<rparr> else fst s, snd s) [(''/events/file/mkdir'', name)])"

definition file_handle :: "file_os \<Rightarrow> portal_msg \<Rightarrow> portal_resp \<Rightarrow> file_state \<Rightarrow> file_state mod_result" where
  "file_handle os msg resp s =
     (case msg_path msg of
        None \<Rightarrow> Inl Null_deref
      | Some path \<Rightarrow>
          if path = ''/file/resources/status'' then file_status resp s
          else if path = ''/file/functions/read'' then file_read os msg resp s
          else if path = ''/file/functions/write'' then file_write os msg resp s
          else if path = ''/file/functions/list'' then file_list os msg resp s
          else if path = ''/file/functions/delete'' then file_delete os msg resp s
          else if path = ''/file/functions/info'' then file_info os msg resp s
          else if path = ''/file/functions/mkdir'' then file_mkdir os msg resp s
          else m_status PORTAL_NOT_FOUND (-1) resp s)"

subsection \<open>The base directory is a sandbox\<close>

text \<open>A path below the base directory, with no way up in what follows it.\<close>

definition inside :: "string \<Rightarrow> string \<Rightarrow> bool" where
  "inside base p \<longleftrightarrow> (\<exists>rel. p = base @ ''/'' @ rel \<and> rel \<noteq> [] \<and> hd rel \<noteq> CHR ''/'' \<and> \<not> sublist ''..'' rel)"

lemma safe_path_inside:
  assumes "safe_path base name = Some p" "length base < 512"
  shows "inside base p"
proof -
  have n: "name \<noteq> []" "\<not> sublist ''..'' name" "hd name \<noteq> CHR ''/''" "p = csnprintf 1024 (base @ ''/'' @ name)"
    using assms(1) by (auto simp: safe_path_def split: if_splits)
  let ?rel = "take (1022 - length base) name"
  have "1023 - length base = Suc (1022 - length base)" using assms(2) by simp
  then have "p = base @ ''/'' @ ?rel" using assms(2) by (simp add: n(4) csnprintf_def)
  moreover have "?rel \<noteq> []" "hd ?rel = hd name" using n(1) assms(2) by (auto simp: hd_take)
  moreover have "\<not> sublist ''..'' ?rel" using n(2) by (metis append.assoc append_take_drop_id sublist_def)
  ultimately show ?thesis using n(3) unfolding inside_def by metis
qed

text \<open>
  Two runs of one request, on file systems that agree inside: they return alike and agree again, and each of them leaves
  the files outside as they are and makes directories inside only.
\<close>

definition agree :: "string \<Rightarrow> file_state \<Rightarrow> file_state \<Rightarrow> bool" where
  "agree base s t \<longleftrightarrow> fst s = fst t \<and> (\<forall>p. inside base p \<longrightarrow> snd s p = snd t p)"

definition stays :: "string \<Rightarrow> file_state \<Rightarrow> file_state \<Rightarrow> bool" where
  "stays base s s' \<longleftrightarrow>
     (\<forall>p. \<not> inside base p \<longrightarrow> snd s' p = snd s p) \<and> (\<forall>p\<in>set (fl_made (fst s')). p \<in> set (fl_made (fst s)) \<or> inside base p)"

definition confined :: "string \<Rightarrow> file_state \<Rightarrow> file_state \<Rightarrow> file_state mod_result \<Rightarrow> file_state mod_result \<Rightarrow> bool" where
  "confined base s t a b \<longleftrightarrow>
     (case a of
        Inl e \<Rightarrow> b = Inl e
      | Inr (rc, r, s', ev) \<Rightarrow> (\<exists>t'. b = Inr (rc, r, t', ev) \<and> agree base s' t' \<and> stays base s s' \<and> stays base t t'))"

lemma stays_refl [simp]: "stays base s s"
  by (simp add: stays_def)

lemma confined_text:
  "agree base s' t' \<Longrightarrow> stays base s s' \<Longrightarrow> stays base t t' \<Longrightarrow>
     confined base s t (m_text n status x rc resp s' ev) (m_text n status x rc resp t' ev)"
  by (cases "buf_bytes n x (length x)") (simp_all add: confined_def m_defs)

lemma confined_reply:
  "agree base s' t' \<Longrightarrow> stays base s s' \<Longrightarrow> stays base t t' \<Longrightarrow> confined base s t (m_body status x rc resp s' ev) (m_body status x rc resp t' ev)"
  "agree base s t \<Longrightarrow> confined base s t (m_status status rc resp s) (m_status status rc resp t)"
  by (simp_all add: confined_def m_defs)

lemma confined_obind: "(\<And>x. m = Inr x \<Longrightarrow> confined base s t (f x) (g x)) \<Longrightarrow> confined base s t (obind m f) (obind m g)"
  by (cases m) (simp_all add: confined_def)

lemma confined_if:
  "(c \<Longrightarrow> confined base s t a b) \<Longrightarrow> (\<not> c \<Longrightarrow> confined base s t a' b') \<Longrightarrow> confined base s t (if c then a else a') (if c then b else b')"
  by simp

lemma confined_option:
  "confined base s t a b \<Longrightarrow> (\<And>x. v = Some x \<Longrightarrow> confined base s t (f x) (g x)) \<Longrightarrow>
     confined base s t (case v of None \<Rightarrow> a | Some x \<Rightarrow> f x) (case v of None \<Rightarrow> b | Some x \<Rightarrow> g x)"
  by (cases v) simp_all

lemma confined_prod: "(\<And>a b. confined base s t (f a b) (g a b)) \<Longrightarrow> confined base s t (case x of (a, b) \<Rightarrow> f a b) (case x of (a, b) \<Rightarrow> g a b)"
  by (cases x) simp

lemma confined_name:
  assumes "agree (fl_base_dir (fst s)) s t" "length (fl_base_dir (fst s)) < 512" "confined (fl_base_dir (fst s)) s t bad bad'"
    "\<And>n p. inside (fl_base_dir (fst s)) p \<Longrightarrow> confined (fl_base_dir (fst s)) s t (body n p) (body' n p)"
  shows "confined (fl_base_dir (fst s)) s t (with_name msg s bad body) (with_name msg t bad' body')"
proof -
  have same: "fst t = fst s" using assms(1) by (simp add: agree_def)
  show ?thesis unfolding with_name_def same
    by (intro confined_obind confined_option assms(3,4) safe_path_inside [OF _ assms(2)]) simp_all
qed

lemma file_views_confined:
  assumes "agree (fl_base_dir (fst s)) s t" "length (fl_base_dir (fst s)) < 512"
  shows "confined (fl_base_dir (fst s)) s t (file_status resp s) (file_status resp t)"
    "confined (fl_base_dir (fst s)) s t (file_list os msg resp s) (file_list os msg resp t)"
    "confined (fl_base_dir (fst s)) s t (file_info os msg resp s) (file_info os msg resp t)"
    "confined (fl_base_dir (fst s)) s t (need_name resp s) (need_name resp t)"
proof -
  have same: "fst t = fst s" using assms(1) by (simp add: agree_def)
  show "confined (fl_base_dir (fst s)) s t (file_status resp s) (file_status resp t)"
    unfolding file_status_def Let_def same using assms(1) by (intro confined_text) simp_all
  have dir: "confined (fl_base_dir (fst s)) s t (list_dir os d resp s) (list_dir os d resp t)" for d
    unfolding list_dir_def using assms(1) by (intro confined_option confined_obind confined_text) simp_all
  show "confined (fl_base_dir (fst s)) s t (file_list os msg resp s) (file_list os msg resp t)"
    unfolding file_list_def same using assms(1) by (intro confined_obind confined_option dir confined_reply)
  show "confined (fl_base_dir (fst s)) s t (file_info os msg resp s) (file_info os msg resp t)"
    unfolding file_info_def using assms by (intro confined_name confined_option confined_text confined_reply) simp_all
  show "confined (fl_base_dir (fst s)) s t (need_name resp s) (need_name resp t)"
    unfolding need_name_def using assms(1) by (intro confined_text) simp_all
qed

lemma file_changes_confined:
  assumes "agree (fl_base_dir (fst s)) s t" "length (fl_base_dir (fst s)) < 512"
  shows "confined (fl_base_dir (fst s)) s t (file_read os msg resp s) (file_read os msg resp t)"
    "confined (fl_base_dir (fst s)) s t (file_write os msg resp s) (file_write os msg resp t)"
    "confined (fl_base_dir (fst s)) s t (file_delete os msg resp s) (file_delete os msg resp t)"
    "confined (fl_base_dir (fst s)) s t (file_mkdir os msg resp s) (file_mkdir os msg resp t)"
proof -
  have same: "fst t = fst s" using assms(1) by (simp add: agree_def)
  note view = file_views_confined [OF assms]
  have at: "snd t p = snd s p" if "inside (fl_base_dir (fst s)) p" for p using assms(1) that by (simp add: agree_def)
  have rb: "open_rb os (snd t) p = open_rb os (snd s) p" if "inside (fl_base_dir (fst s)) p" for p using at [OF that] by (simp add: open_rb_def)
  let ?c = "confined (fl_base_dir (fst s)) s t"
  show "?c (file_read os msg resp s) (file_read os msg resp t)" unfolding file_read_def same
  proof (intro confined_name assms view)
    fix n p assume "inside (fl_base_dir (fst s)) p"
    from assms(1) show "?c
       (case open_rb os (snd s) p of None \<Rightarrow> m_text 8192 PORTAL_NOT_FOUND (''File not found: '' @ n @ NL) (-1) resp s []
        | Some (sz, data) \<Rightarrow>
            if fl_max_size (fst s) < sz then m_text 8192 PORTAL_BAD_REQUEST (''File too large'' @ NL) (-1) resp s []
            else m_body PORTAL_OK data 0 resp ((fst s)\<lparr>fl_reads := fl_reads (fst s) + 1\<rparr>, snd s) [])
       (case open_rb os (snd t) p of None \<Rightarrow> m_text 8192 PORTAL_NOT_FOUND (''File not found: '' @ n @ NL) (-1) resp t []
        | Some (sz, data) \<Rightarrow>
            if fl_max_size (fst s) < sz then m_text 8192 PORTAL_BAD_REQUEST (''File too large'' @ NL) (-1) resp t []
            else m_body PORTAL_OK data 0 resp ((fst s)\<lparr>fl_reads := fl_reads (fst s) + 1\<rparr>, snd t) [])"
      unfolding rb [OF \<open>inside (fl_base_dir (fst s)) p\<close>]
      by (intro confined_option confined_prod confined_if confined_text confined_reply) (simp_all add: agree_def stays_def)
  qed
  show "?c (file_write os msg resp s) (file_write os msg resp t)" unfolding file_write_def same
    by (intro confined_obind confined_name confined_option confined_if confined_text view assms) (use assms(1) in \<open>auto simp: agree_def stays_def\<close>)
  show "?c (file_delete os msg resp s) (file_delete os msg resp t)" unfolding file_delete_def same
  proof (intro confined_name confined_reply assms)
    fix n p assume p: "inside (fl_base_dir (fst s)) p"
    from assms(1) p show "?c
       (if snd s p = None \<or> \<not> fo_can_unlink os p
        then m_text 8192 PORTAL_NOT_FOUND (''Cannot delete: '' @ fo_strerror os @ NL) (-1) resp s []
        else m_text 8192 PORTAL_OK (''Deleted '' @ n @ NL) 0 resp
               ((fst s)\<lparr>fl_deletes := fl_deletes (fst s) + 1\<rparr>, (snd s)(p := None)) [(''/events/file/delete'', n)])
       (if snd t p = None \<or> \<not> fo_can_unlink os p
        then m_text 8192 PORTAL_NOT_FOUND (''Cannot delete: '' @ fo_strerror os @ NL) (-1) resp t []
        else m_text 8192 PORTAL_OK (''Deleted '' @ n @ NL) 0 resp
               ((fst s)\<lparr>fl_deletes := fl_deletes (fst s) + 1\<rparr>, (snd t)(p := None)) [(''/events/file/delete'', n)])"
      unfolding at [OF p] by (intro confined_if confined_text) (auto simp: agree_def stays_def)
  qed
  show "?c (file_mkdir os msg resp s) (file_mkdir os msg resp t)" unfolding file_mkdir_def same
    by (intro confined_name confined_if confined_text confined_reply assms) (use assms(1) in \<open>auto simp: agree_def stays_def\<close>)
qed

lemma file_handle_confined:
  assumes "agree (fl_base_dir (fst s)) s t" "length (fl_base_dir (fst s)) < 512"
  shows "confined (fl_base_dir (fst s)) s t (file_handle os msg resp s) (file_handle os msg resp t)"
  unfolding file_handle_def
  by (intro confined_option confined_if file_views_confined file_changes_confined assms confined_reply) (simp add: confined_def)

text \<open>
  Property C0. The base directory of the file module is a sandbox. Whatever a request asks, a file outside the directory, or on
  a path that leads up from it, is neither changed nor removed, and every directory that is made lies inside. Nor
  does the answer depend on such a file: on any other file system with the same contents inside, the request
  returns the same code, the same response and the same events.
\<close>

theorem file_sandbox:
  assumes "length (fl_base_dir m) < 512" "file_handle os msg resp (m, fs) = Inr (rc, r, (m', fs'), ev)"
  shows "(\<forall>p. \<not> inside (fl_base_dir m) p \<longrightarrow> fs' p = fs p) \<and>
    (\<forall>p\<in>set (fl_made m'). p \<in> set (fl_made m) \<or> inside (fl_base_dir m) p) \<and>
    (\<forall>other. (\<forall>p. inside (fl_base_dir m) p \<longrightarrow> other p = fs p) \<longrightarrow>
      (\<exists>other'. file_handle os msg resp (m, other) = Inr (rc, r, (m', other'), ev) \<and> (\<forall>p. inside (fl_base_dir m) p \<longrightarrow> other' p = fs' p)))"
proof -
  let ?b = "fl_base_dir m"
  have run: "confined ?b (m, fs) (m, other) (file_handle os msg resp (m, fs)) (file_handle os msg resp (m, other))"
    if "\<forall>p. inside ?b p \<longrightarrow> other p = fs p" for other
    using file_handle_confined [of "(m, fs)" "(m, other)"] assms(1) that by (simp add: agree_def)
  have "stays ?b (m, fs) (m', fs')" using run [of fs] assms(2) by (auto simp: confined_def)
  moreover have "\<exists>other'. file_handle os msg resp (m, other) = Inr (rc, r, (m', other'), ev) \<and> (\<forall>p. inside ?b p \<longrightarrow> other' p = fs' p)"
    if "\<forall>p. inside ?b p \<longrightarrow> other p = fs p" for other
    using run [OF that] assms(2) by (auto simp: confined_def agree_def)
  ultimately show ?thesis by (auto simp: stays_def)
qed

definition file_demo_os :: file_os where
  "file_demo_os = \<lparr>fo_isdir = (\<lambda>_. False), fo_can_read = (\<lambda>_. True), fo_can_write = (\<lambda>_. True), fo_can_unlink = (\<lambda>_. True),
     fo_can_mkdir = (\<lambda>_. True), fo_exists = (\<lambda>_. False), fo_strerror = ''Permission denied'', fo_names = (\<lambda>_. None), fo_stat = (\<lambda>_. None)\<rparr>"

theorem file_sandbox_witness:
  "\<exists>rc r m' fs' ev. file_handle file_demo_os (call_msg ''/file/functions/read'' [(''name'', ''a'')]) portal_resp_alloc
       (file_zero, [''/var/lib/portal/files/a'' \<mapsto> ''x'', ''/etc/passwd'' \<mapsto> ''secret'']) = Inr (rc, r, (m', fs'), ev) \<and>
     resp_body r = ''x'' \<and> fs' ''/etc/passwd'' = Some ''secret''"
proof -
  let ?fs = "[''/var/lib/portal/files/a'' \<mapsto> ''x'', ''/etc/passwd'' \<mapsto> ''secret'']"
  have "file_handle file_demo_os (call_msg ''/file/functions/read'' [(''name'', ''a'')]) portal_resp_alloc (file_zero, ?fs) =
      Inr (0, portal_resp_set_body (portal_resp_set_status portal_resp_alloc PORTAL_OK) ''x'', (file_zero\<lparr>fl_reads := 1\<rparr>, ?fs), [])"
    by (simp add: file_handle_def file_read_def with_name_def safe_path_def file_zero_def csnprintf_fits open_rb_def file_demo_os_def m_body_def
        sublist_Cons_right)
  moreover have "length (fl_base_dir file_zero) < 512" by (simp add: file_zero_def)
  moreover have "\<not> inside (fl_base_dir file_zero) ''/etc/passwd''" by (simp add: inside_def file_zero_def)
  ultimately show ?thesis using file_sandbox [of file_zero file_demo_os _ portal_resp_alloc ?fs] by (fastforce simp: portal_resp_set_body_def)
qed

end
