(* ===== verification/Statics.thy ===== *)
theory Statics
  imports Queues Cache Firewall Kv Template Crypto Audit_Trail Validator Json Cron Gateway Files
begin

section \<open>The static data of the modules\<close>

text \<open>
  A module keeps its data in static variables of its shared object. The instance carries the data
  of the modelled modules in one record, so that a handler finds what the previous request left. The
  files of the key-value store, of the templates and of the file module are those of the instance.
\<close>

record statics =
  st_queue :: queue_module
  st_cache :: cache_module
  st_firewall :: fw_module
  st_kv :: kv_module
  st_template :: tpl_module
  st_crypto :: int
  st_audit :: audit_module
  st_validator :: validator_module
  st_json :: bool
  st_cron :: cron_module
  st_sched :: sched_module
  st_gateway :: gw_module
  st_file :: file_module

definition statics_zero :: statics where
  "statics_zero = \<lparr>st_queue = queue_zero, st_cache = cache_zero, st_firewall = fw_zero, st_kv = kv_zero, st_template = tpl_zero,
     st_crypto = 0, st_audit = audit_zero, st_validator = validator_zero, st_json = False, st_cron = cron_zero, st_sched = sched_zero,
     st_gateway = gw_zero, st_file = file_zero\<rparr>"

end
