(* ===== verification/Instance.thy ===== *)
theory Instance
  imports Events Auth Locks Storage Config Evloop Modules Trace Statics
begin

section \<open>The instance and the functions that modules call (portal_instance.c)\<close>

text \<open>
  \<open>portal_instance_t\<close> of \<^verbatim>\<open>src/core/portal_instance.h\<close> with the functions of the API structure
  and the life cycle of modules in \<^verbatim>\<open>src/core/core_module.c\<close>. Behind the fields of the structure
  the record carries what the process shares: the files, the counter of message numbers, the
  readings of the kernel's random source still to come, and the log of effects that leave the
  process. Callbacks of subscribers are effects: they are recorded and not run.

  The record \<open>env\<close> is what the core cannot see: the clocks (one reading for a request), whether
  writes succeed, what storage providers answer, and the code of the loadable modules as
  functions on the whole instance. A module handler either returns or crashes; a crash tells
  whether the handler had itself called another module's handler through the router before.
\<close>

subsection \<open>State\<close>

datatype side_effect =
    Delivered delivery
  | Stored storage_call
  | Traced trace_write
  | Sent int string
  | Closed int

record portal_instance =
  in_config :: portal_config
  in_paths :: portal_path_tree
  in_modules :: module_registry
  in_events :: event_loop
  in_auth :: auth_registry
  in_events_reg :: event_registry
  in_store :: string
  in_storage :: storage_registry
  in_trace_subs :: "trace_sub list"
  in_locks :: lock_table
  in_fs :: file_system
  in_msg_id :: "64 word"
  in_rnd :: "string option list"
  in_effects :: "side_effect list"
  in_statics :: statics

datatype handled =
    Returned int portal_resp portal_instance
  | Crashed bool portal_resp portal_instance

record env =
  ev_now :: "64 word"
  ev_us :: "64 word"
  ev_can_write :: "string \<Rightarrow> bool"
  ev_write_ok :: "int \<Rightarrow> bool"
  ev_editor :: "int \<Rightarrow> string \<times> int"
  ev_config_get :: "string \<Rightarrow> string \<Rightarrow> string \<Rightarrow> string option"
  ev_user_save :: "string \<Rightarrow> string \<Rightarrow> int"
  ev_status :: "string \<Rightarrow> string"
  ev_dlopen :: "string \<Rightarrow> nat option"
  ev_symbols :: "nat \<Rightarrow> bool"
  ev_info :: "nat \<Rightarrow> module_info option"
  ev_load :: "nat \<Rightarrow> portal_instance \<Rightarrow> int \<times> portal_instance"
  ev_unload :: "nat \<Rightarrow> portal_instance \<Rightarrow> portal_instance"
  ev_handle :: "nat \<Rightarrow> portal_msg \<Rightarrow> portal_resp \<Rightarrow> portal_instance \<Rightarrow> handled"

type_synonym send_fn =
  "portal_msg \<Rightarrow> portal_resp \<Rightarrow> portal_instance \<Rightarrow> (int \<times> portal_msg \<times> portal_resp \<times> portal_instance) outcome"

definition log_effects :: "side_effect list \<Rightarrow> portal_instance \<Rightarrow> portal_instance" where
  "log_effects es inst = inst\<lparr>in_effects := in_effects inst @ es\<rparr>"

definition draw_rnd :: "portal_instance \<Rightarrow> string option \<times> portal_instance" where
  "draw_rnd inst = (fst (draw (in_rnd inst)), inst\<lparr>in_rnd := snd (draw (in_rnd inst))\<rparr>)"

subsection \<open>Paths\<close>

definition on_paths :: "(portal_path_tree \<Rightarrow> int \<times> portal_path_tree) \<Rightarrow> portal_instance \<Rightarrow> int \<times> portal_instance" where
  "on_paths f inst = (case f (in_paths inst) of (rc, tree) \<Rightarrow> (rc, inst\<lparr>in_paths := tree\<rparr>))"

definition api_path_register :: "portal_instance \<Rightarrow> string \<Rightarrow> string \<Rightarrow> int \<times> portal_instance" where
  "api_path_register inst path module_name = on_paths (\<lambda>t. portal_path_register t path module_name) inst"

definition api_path_unregister :: "portal_instance \<Rightarrow> string \<Rightarrow> int \<times> portal_instance" where
  "api_path_unregister inst path = on_paths (\<lambda>t. portal_path_unregister t path) inst"

definition api_path_set_access :: "portal_instance \<Rightarrow> string \<Rightarrow> 8 word \<Rightarrow> int \<times> portal_instance" where
  "api_path_set_access inst path mode =
     (case portal_path_lookup_entry (in_paths inst) path of
        None \<Rightarrow> (-1, inst)
      | Some _ \<Rightarrow> (0, inst\<lparr>in_paths := path_modify (in_paths inst) path (\<lambda>e. e\<lparr>pe_access_mode := mode\<rparr>)\<rparr>))"

definition api_path_add_label :: "portal_instance \<Rightarrow> string \<Rightarrow> string \<Rightarrow> int \<times> portal_instance" where
  "api_path_add_label inst path label = on_paths (\<lambda>t. portal_path_add_label t path label) inst"

definition api_path_remove_label :: "portal_instance \<Rightarrow> string \<Rightarrow> string \<Rightarrow> int \<times> portal_instance" where
  "api_path_remove_label inst path label = on_paths (\<lambda>t. portal_path_remove_label t path label) inst"

definition api_path_set_description :: "portal_instance \<Rightarrow> string \<Rightarrow> string \<Rightarrow> int \<times> portal_instance" where
  "api_path_set_description inst path description =
     on_paths (\<lambda>t. portal_path_set_description t path description) inst"

subsection \<open>Events, descriptors and timers\<close>

definition on_events :: "(event_registry \<Rightarrow> int \<times> event_registry) \<Rightarrow> portal_instance \<Rightarrow> int \<times> portal_instance" where
  "on_events f inst = (case f (in_events_reg inst) of (rc, reg) \<Rightarrow> (rc, inst\<lparr>in_events_reg := reg\<rparr>))"

definition on_loop :: "(event_loop \<Rightarrow> int \<times> event_loop) \<Rightarrow> portal_instance \<Rightarrow> int \<times> portal_instance" where
  "on_loop f inst = (case f (in_events inst) of (rc, el) \<Rightarrow> (rc, inst\<lparr>in_events := el\<rparr>))"

definition api_subscribe :: "portal_instance \<Rightarrow> string \<Rightarrow> nat \<Rightarrow> nat option \<Rightarrow> int \<times> portal_instance" where
  "api_subscribe inst path_pattern handler userdata =
     on_events (\<lambda>reg. portal_events_subscribe_pattern reg path_pattern (Some ''module'') None handler userdata) inst"

definition api_unsubscribe :: "portal_instance \<Rightarrow> string \<Rightarrow> nat \<Rightarrow> int \<times> portal_instance" where
  "api_unsubscribe inst path_pattern handler =
     on_events (\<lambda>reg. portal_events_unsubscribe_handler reg path_pattern handler) inst"

definition api_module_loaded :: "portal_instance \<Rightarrow> string \<Rightarrow> bool" where
  "api_module_loaded inst name = portal_module_is_loaded (in_modules inst) name"

definition api_fd_add :: "portal_instance \<Rightarrow> int \<Rightarrow> 32 word \<Rightarrow> nat option \<Rightarrow> nat option \<Rightarrow> int \<times> portal_instance" where
  "api_fd_add inst fd events callback userdata = on_loop (\<lambda>el. portal_event_add el fd events callback userdata) inst"

definition api_fd_del :: "portal_instance \<Rightarrow> int \<Rightarrow> int \<times> portal_instance" where
  "api_fd_del inst fd = on_loop (\<lambda>el. portal_event_del el fd) inst"

definition api_fd_modify :: "portal_instance \<Rightarrow> int \<Rightarrow> 32 word \<Rightarrow> int \<times> portal_instance" where
  "api_fd_modify inst fd events = on_loop (\<lambda>el. portal_event_modify el fd events) inst"

definition api_timer_add :: "portal_instance \<Rightarrow> 64 word \<Rightarrow> nat \<Rightarrow> nat option \<Rightarrow> int \<times> portal_instance" where
  "api_timer_add inst interval callback userdata =
     on_loop (\<lambda>el. portal_event_add_timer el interval callback userdata) inst"

definition event_module :: "string \<Rightarrow> string" where
  "event_module event_path =
     (if strncmp_eq event_path ''/events/'' 8 then
        (case strchr_split CHR ''/'' (drop 8 event_path) of
           (name, Some _) \<Rightarrow> if length name < PORTAL_MAX_MODULE_NAME then name else ''unknown''
         | (_, None) \<Rightarrow> ''unknown'')
      else ''unknown'')"

definition api_event_register ::
    "portal_instance \<Rightarrow> string \<Rightarrow> string option \<Rightarrow> portal_labels option \<Rightarrow> int \<times> portal_instance" where
  "api_event_register inst event_path description labels =
     (let m = event_module event_path
      in case on_events (\<lambda>reg. portal_events_register reg event_path m description labels) inst of
        (rc, inst) \<Rightarrow>
          if rc = 0 then
            (rc, fold (\<lambda>l inst. snd (api_path_add_label inst event_path l)) (opt_labels labels)
                   (snd (api_path_register inst event_path m)))
          else (rc, inst))"

definition api_event_unregister :: "portal_instance \<Rightarrow> string \<Rightarrow> int \<times> portal_instance" where
  "api_event_unregister inst event_path =
     on_events (\<lambda>reg. portal_events_unregister reg event_path) (snd (api_path_unregister inst event_path))"

definition api_event_emit :: "env \<Rightarrow> portal_instance \<Rightarrow> string \<Rightarrow> string \<Rightarrow> int \<times> portal_instance" where
  "api_event_emit env inst event_path data =
     (case portal_events_emit (ev_write_ok env) (in_events_reg inst) event_path data of
        (n, ds, reg) \<Rightarrow> (n, log_effects (map Delivered ds) (inst\<lparr>in_events_reg := reg\<rparr>)))"

subsection \<open>Accounts and labels\<close>

definition api_auth_find_by_key :: "portal_instance \<Rightarrow> string \<Rightarrow> nat \<Rightarrow> (string \<times> portal_labels) option" where
  "api_auth_find_by_key inst api_key username_sz =
     map_option (\<lambda>u. (csnprintf username_sz (au_username u), au_labels u)) (portal_auth_find_by_key (in_auth inst) api_key)"

definition api_auth_find_user :: "portal_instance \<Rightarrow> string \<Rightarrow> portal_labels option" where
  "api_auth_find_user inst username =
     (if username = [] then None else map_option au_labels (portal_auth_find_user (in_auth inst) username))"

definition store_user :: "env \<Rightarrow> string \<Rightarrow> portal_instance \<Rightarrow> portal_instance" where
  "store_user env username inst =
     inst\<lparr>in_fs := snd (portal_auth_save_user_to_store (ev_can_write env) (in_fs inst) (in_auth inst) username (in_store inst))\<rparr>"

definition store_user_db :: "string \<Rightarrow> portal_instance \<Rightarrow> portal_instance" where
  "store_user_db username inst =
     (case portal_auth_find_user (in_auth inst) username of
        None \<Rightarrow> inst
      | Some u \<Rightarrow>
          log_effects (map Stored (portal_storage_save_user (in_storage inst) (au_username u) (au_password u)
                                     (au_api_key u) (groups_loop 0 (au_labels u) []))) inst)"

definition set_user_key :: "string \<Rightarrow> string \<Rightarrow> portal_instance \<Rightarrow> portal_instance" where
  "set_user_key username key inst = inst\<lparr>in_auth := modify_user (in_auth inst) username (\<lambda>u. u\<lparr>au_api_key := key\<rparr>)\<rparr>"

text \<open>\<open>save_user_dual\<close> of \<^verbatim>\<open>core_handlers.c\<close> and the end of \<open>api_auth_ensure_user\<close> do the same.\<close>

definition save_user_dual :: "env \<Rightarrow> string \<Rightarrow> portal_instance \<Rightarrow> portal_instance" where
  "save_user_dual env username inst = store_user_db username (store_user env username inst)"

definition api_auth_ensure_user ::
    "env \<Rightarrow> portal_instance \<Rightarrow> string \<Rightarrow> portal_labels option \<Rightarrow> string option \<Rightarrow> nat \<Rightarrow>
     int \<times> string option \<times> portal_instance" where
  "api_auth_ensure_user env inst username labels key out_key_sz =
     (let out = (\<lambda>inst. map_option (\<lambda>u. csnprintf out_key_sz (au_api_key u)) (portal_auth_find_user (in_auth inst) username))
      in if username = [] then (-1, None, inst)
         else case portal_auth_find_user (in_auth inst) username of
           None \<Rightarrow>
             (case portal_auth_add_user (in_auth inst) username [] (Some (opt_labels labels)) of
                (rc, auth) \<Rightarrow>
                  let inst = inst\<lparr>in_auth := auth\<rparr>
                  in if rc \<noteq> 0 \<or> portal_auth_find_user auth username = None then (-1, None, inst)
                     else
                       let (k, inst) = (case key of
                              Some k \<Rightarrow> if k \<noteq> [] then (csnprintf (AUTH_KEY_LEN + 1) k, inst)
                                        else (let (r, inst) = draw_rnd inst in (generate_token r AUTH_KEY_LEN, inst))
                            | None \<Rightarrow> (let (r, inst) = draw_rnd inst in (generate_token r AUTH_KEY_LEN, inst)));
                           inst = save_user_dual env username (set_user_key username k inst)
                       in (1, out inst, inst))
         | Some u \<Rightarrow>
             (case key of
                Some k \<Rightarrow>
                  if k \<noteq> [] \<and> au_api_key u \<noteq> k then
                    (let inst = save_user_dual env username (set_user_key username (csnprintf (AUTH_KEY_LEN + 1) k) inst)
                     in (0, out inst, inst))
                  else (0, out inst, inst)
              | None \<Rightarrow> (0, out inst, inst)))"

definition api_labels_allow ::
    "env \<Rightarrow> portal_instance \<Rightarrow> portal_ctx option \<Rightarrow> portal_labels option \<Rightarrow> (bool \<times> portal_instance) outcome" where
  "api_labels_allow env inst ctx row_labels =
     (case portal_labels_allow ctx row_labels of
        (allowed, bypass) \<Rightarrow>
          if allowed \<and> bypass then
            (let text = ''user='' @ (case Option.bind ctx (\<lambda>c. auth_user (ctx_auth c)) of None \<Rightarrow> ''?'' | Some u \<Rightarrow> u)
             in obind (buf_bytes (PORTAL_MAX_LABEL_LEN + 16) text (length text + 1))
                  (\<lambda>body. Inr (allowed, snd (api_event_emit env inst ''/events/acl/bypass'' body))))
          else Inr (allowed, inst))"

subsection \<open>Storage providers and configuration\<close>

definition user_save_calls :: "string \<Rightarrow> auth_user list \<Rightarrow> storage_call list" where
  "user_save_calls provider users =
     map (\<lambda>u. User_save provider (au_username u) (au_password u) (au_api_key u) (groups_loop 0 (au_labels u) [])) users"

definition config_sync_calls :: "string \<Rightarrow> string ht \<Rightarrow> storage_call list" where
  "config_sync_calls provider sections =
     concat (map (\<lambda>(full_key, val).
       case (strchr_split CHR ''.'' full_key, val) of
         ((module_name, Some key), Some v) \<Rightarrow>
           if strncmp_eq full_key ''mod_'' 4 \<and> length module_name < 128
           then [Config_set provider module_name key v] else []
       | _ \<Rightarrow> []) (ht_items (ht_entries sections)))"

definition api_storage_register ::
    "portal_instance \<Rightarrow> storage_provider option \<Rightarrow> (int \<times> portal_instance) outcome" where
  "api_storage_register inst provider =
     (case provider of
        None \<Rightarrow> Inr (0, inst)
      | Some p \<Rightarrow>
          (case portal_storage_add (in_storage inst) p of
             (rc, reg) \<Rightarrow>
               if rc < 0 then Inr (-1, inst)
               else
                 let inst = inst\<lparr>in_storage := reg\<rparr>;
                     reg_path = (\<lambda>tail inst. snd (api_path_register inst
                       (csnprintf PORTAL_MAX_PATH_LEN (''/core/storage/'' @ sp_name p @ tail)) ''core''));
                     inst = reg_path ''/functions/sync'' (reg_path ''/resources/status'' inst)
                 in if \<not> sp_user_save p \<and> ar_users (in_auth inst) \<noteq> [] then Inl Null_deref
                    else Inr (0, log_effects (map Stored
                           (user_save_calls (sp_name p) (ar_users (in_auth inst)) @
                            (if sp_config_set p then config_sync_calls (sp_name p) (cf_sections (in_config inst)) else []))) inst)))"

definition api_config_get :: "env \<Rightarrow> portal_instance \<Rightarrow> string \<Rightarrow> string \<Rightarrow> string option" where
  "api_config_get env inst module_name key =
     (case portal_config_get (in_config inst) module_name key of
        Some val \<Rightarrow> Some val
      | None \<Rightarrow> portal_storage_get_config (ev_config_get env) (in_storage inst) (csnprintf 128 (''mod_'' @ module_name)) key)"

subsection \<open>Loading and unloading modules (core_module.c)\<close>

text \<open>
  The credentials of a module. Values that come from a storage provider are returned in one
  shared buffer, so the second call overwrites the first result.
\<close>

definition module_credentials :: "env \<Rightarrow> portal_instance \<Rightarrow> string \<Rightarrow> string option \<times> string option" where
  "module_credentials env inst name =
     (let mod_user = api_config_get env inst name ''user'';
          mod_key = api_config_get env inst name ''key'';
          shared = (\<lambda>k. portal_config_get (in_config inst) name k = None)
      in (if shared ''user'' \<and> shared ''key'' \<and> mod_user \<noteq> None \<and> mod_key \<noteq> None then mod_key else mod_user, mod_key))"

definition module_login :: "send_fn \<Rightarrow> string \<Rightarrow> string \<Rightarrow> portal_instance \<Rightarrow> portal_instance outcome" where
  "module_login send mod_user mod_key inst =
     (let (msg, g) = portal_msg_alloc (in_msg_id inst);
          msg = snd (portal_msg_set_path msg ''/auth/login'');
          msg = snd (portal_msg_set_method msg PORTAL_METHOD_CALL);
          msg = snd (portal_msg_add_header msg ''username'' mod_user);
          msg = snd (portal_msg_add_header msg ''api_key'' mod_key)
      in obind (send msg portal_resp_alloc (inst\<lparr>in_msg_id := g\<rparr>)) (\<lambda>(rc, msg, resp, inst). Inr inst))"

definition module_path :: "module_registry \<Rightarrow> string \<Rightarrow> string" where
  "module_path reg name =
     csnprintf (PORTAL_MAX_PATH_LEN + PORTAL_MAX_MODULE_NAME + 16) (mr_dir reg @ ''/mod_'' @ name @ ''.so'')"

definition module_register :: "string \<Rightarrow> nat \<Rightarrow> module_info \<Rightarrow> portal_instance \<Rightarrow> (int \<times> portal_instance) outcome" where
  "module_register name lib info inst =
     (let reg = in_modules inst
      in if portal_module_find reg name = None \<and> PORTAL_MAX_MODULES \<le> length (mr_entries reg) then Inl Over_write
         else Inr (0, inst\<lparr>in_modules := module_store reg name lib info\<rparr>))"

definition portal_module_do_load :: "env \<Rightarrow> send_fn \<Rightarrow> portal_instance \<Rightarrow> string \<Rightarrow> (int \<times> portal_instance) outcome" where
  "portal_module_do_load env send inst name =
     (if PORTAL_MAX_MODULES \<le> length (mr_entries (in_modules inst)) then Inr (-1, inst)
      else if portal_module_is_loaded (in_modules inst) name then Inr (-1, inst)
      else case ev_dlopen env (module_path (in_modules inst) name) of
        None \<Rightarrow> Inr (-1, inst)
      | Some lib \<Rightarrow>
          if \<not> ev_symbols env lib then Inr (-1, inst)
          else (case ev_info env lib of
             None \<Rightarrow> Inr (-1, inst)
           | Some info \<Rightarrow>
               (case ev_load env lib inst of
                  (rc, inst) \<Rightarrow>
                    if rc \<noteq> 0 then Inr (-1, inst)
                    else (case module_credentials env inst name of
                       (Some mod_user, Some mod_key) \<Rightarrow>
                         obind (if mod_key \<noteq> [] then module_login send mod_user mod_key inst else Inr inst)
                           (module_register name lib info)
                     | _ \<Rightarrow> module_register name lib info inst))))"

definition portal_module_do_unload :: "env \<Rightarrow> portal_instance \<Rightarrow> string \<Rightarrow> int \<times> portal_instance" where
  "portal_module_do_unload env inst name =
     (case portal_module_find (in_modules inst) name of
        None \<Rightarrow> (-1, inst)
      | Some i \<Rightarrow>
          if \<not> me_loaded (mr_entries (in_modules inst) ! i) then (-1, inst)
          else
            let inst = inst\<lparr>in_modules := module_mark (in_modules inst) i (\<lambda>e. e\<lparr>me_unloading := True\<rparr>)\<rparr>;
                inst = (case me_lib (mr_entries (in_modules inst) ! i) of
                          None \<Rightarrow> inst
                        | Some lib \<Rightarrow> ev_unload env lib inst)
            in (0, inst\<lparr>in_modules := module_mark (in_modules inst) i entry_clear\<rparr>))"

definition portal_module_do_reload :: "env \<Rightarrow> send_fn \<Rightarrow> portal_instance \<Rightarrow> string \<Rightarrow> (int \<times> portal_instance) outcome" where
  "portal_module_do_reload env send inst name =
     (case portal_module_do_unload env inst name of
        (rc, inst) \<Rightarrow>
          if rc < 0 then Inr (-1, inst)
          else obind (portal_module_do_load env send inst name) (\<lambda>(rc, inst). Inr (if rc < 0 then -1 else 0, inst)))"

definition unload_slot :: "env \<Rightarrow> nat \<Rightarrow> portal_instance \<Rightarrow> portal_instance" where
  "unload_slot env i inst =
     (let e = mr_entries (in_modules inst) ! i
      in if me_loaded e then
           (let inst = (case me_lib e of None \<Rightarrow> inst | Some lib \<Rightarrow> ev_unload env lib inst)
            in inst\<lparr>in_modules := module_mark (in_modules inst) i (\<lambda>e. e\<lparr>me_loaded := False\<rparr>)\<rparr>)
         else inst)"

definition portal_module_registry_destroy :: "env \<Rightarrow> portal_instance \<Rightarrow> portal_instance" where
  "portal_module_registry_destroy env inst =
     (let inst = fold (unload_slot env) (rev [0..<length (mr_entries (in_modules inst))]) inst
      in inst\<lparr>in_modules := (in_modules inst)\<lparr>mr_entries := []\<rparr>\<rparr>)"

subsection \<open>Iteration and life cycle\<close>

definition api_module_iter ::
    "portal_instance \<Rightarrow> (string \<Rightarrow> string \<Rightarrow> bool \<Rightarrow> 64 word \<Rightarrow> 64 word \<Rightarrow> 'a \<Rightarrow> 'a) \<Rightarrow> 'a \<Rightarrow> int \<times> 'a" where
  "api_module_iter inst cb ud =
     (int (length (mr_entries (in_modules inst))),
      fold (\<lambda>e. cb (case me_info e of Some i \<Rightarrow> mi_name i | None \<Rightarrow> me_name e)
                   (case me_info e of Some i \<Rightarrow> mi_version i | None \<Rightarrow> [])
                   (me_loaded e) (me_msg_count e) (me_last_msg_us e)) (mr_entries (in_modules inst)) ud)"

definition api_path_iter :: "portal_instance \<Rightarrow> (string \<Rightarrow> string \<Rightarrow> 'a \<Rightarrow> 'a) \<Rightarrow> 'a \<Rightarrow> int \<times> 'a" where
  "api_path_iter inst cb ud =
     portal_path_list (in_paths inst) (\<lambda>path m (n, u). (n + 1, cb path m u)) (0, ud)"

definition core_paths :: "string list" where
  "core_paths =
     [''/core/status'', ''/core/modules'', ''/core/paths'', ''/core/ls'', ''/core/resolve'', ''/auth/login'',
      ''/auth/logout'', ''/auth/whoami'', ''/auth/key'', ''/auth/key/rotate'', ''/events'', ''/users'', ''/groups'',
      ''/core/storage'', ''/core/config/get'', ''/core/config/set'', ''/core/config/list'']"

definition portal_instance_register_core_paths :: "portal_instance \<Rightarrow> portal_instance" where
  "portal_instance_register_core_paths inst =
     fold (\<lambda>path inst. snd (api_path_register inst path ''core'')) core_paths inst"

definition portal_instance_init :: "file_system \<Rightarrow> 64 word \<Rightarrow> string option list \<Rightarrow> int \<times> portal_instance" where
  "portal_instance_init fs g_msg_id rs =
     (let inst =
        \<lparr>in_config = portal_config_defaults, in_paths = portal_path_init,
         in_modules = \<lparr>mr_entries = [], mr_dir = []\<rparr>, in_events = portal_event_init,
         in_auth = portal_auth_init (fst (draw rs)),
         in_events_reg = snd (portal_events_register portal_events_init ''/events/acl/bypass'' ''core''
           (Some (''Emitted when labels_allow() grants access via '' @ ''the sys.see_all bypass. Body: user=<name>.'')) None),
         in_store = [], in_storage = portal_storage_init, in_trace_subs = [], in_locks = locks_init,
         in_fs = fs, in_msg_id = g_msg_id, in_rnd = snd (draw rs), in_effects = [], in_statics = statics_zero\<rparr>
      in (0, snd (api_path_register inst ''/events/acl/bypass'' ''core'')))"

definition portal_instance_destroy :: "env \<Rightarrow> portal_instance \<Rightarrow> portal_instance" where
  "portal_instance_destroy env inst =
     (let inst = portal_module_registry_destroy env inst
      in inst\<lparr>in_paths := portal_path_destroy (in_paths inst),
              in_events_reg := portal_events_destroy (in_events_reg inst),
              in_events := portal_event_destroy (in_events inst),
              in_config := portal_config_destroy (in_config inst)\<rparr>)"


subsection \<open>Unloading\<close>

lemma module_unload_correct:
  assumes "modules_ok (in_modules inst)" "module_of (in_modules inst) name = Some e" "me_loaded e" "me_lib e = Some lib"
    "\<And>i. in_modules (ev_unload env lib i) = in_modules i"
  obtains inst' where "portal_module_do_unload env inst name = (0, inst')" "modules_ok (in_modules inst')"
    "module_of (in_modules inst') = (module_of (in_modules inst))(name \<mapsto> entry_clear (e\<lparr>me_unloading := True\<rparr>))"
    "length (mr_entries (in_modules inst')) = length (mr_entries (in_modules inst))"
proof -
  let ?m = "in_modules inst" and ?f = "\<lambda>e. e\<lparr>me_unloading := True\<rparr>"
  obtain j where j: "portal_module_find ?m name = Some j" "mr_entries ?m ! j = e"
    using assms(2) module_of_find [OF assms(1), of name] by auto
  let ?m1 = "module_mark ?m j ?f"
  note f = module_mark_ok [OF assms(1) j(1), of ?f, simplified]
  have j1: "portal_module_find ?m1 name = Some j" using module_mark_find [OF assms(1), of ?f j name] j(1) by simp
  have clear: "me_name (entry_clear e) = me_name e" for e by (simp add: entry_clear_def)
  note g = module_mark_ok [OF f(1) j1, of entry_clear, OF clear]
  define i3 where "i3 = (let i = ev_unload env lib (inst\<lparr>in_modules := ?m1\<rparr>) in i\<lparr>in_modules := module_mark (in_modules i) j entry_clear\<rparr>)"
  have m3: "in_modules i3 = module_mark ?m1 j entry_clear" by (simp add: i3_def assms(5) Let_def)
  have "me_lib (mr_entries ?m1 ! j) = Some lib"
    using j assms(4) by (cases "j < length (mr_entries ?m)") (simp_all add: module_mark_def list_update_beyond)
  then have "portal_module_do_unload env inst name = (0, i3)"
    using j assms(3) by (simp add: portal_module_do_unload_def i3_def Let_def)
  moreover have "module_of (in_modules i3) = (module_of ?m)(name \<mapsto> entry_clear (e\<lparr>me_unloading := True\<rparr>))"
    using g(2) f(2) assms(2) by (simp add: m3)
  moreover have "length (mr_entries (in_modules i3)) = length (mr_entries ?m)" by (simp add: m3 module_mark_def)
  ultimately show thesis using g(1) by (rule_tac that [of i3]) (simp_all add: m3)
qed

lemma entry_clear_unloaded [simp]: "\<not> me_loaded (entry_clear e)"
  by (simp add: entry_clear_def)

subsection \<open>Properties\<close>

text \<open>
  Reloading a module while the table is full removes it: the module is unloaded,
  the load that follows is refused because the table has 256 entries, although the entry of the
  module could be reused, and so is every later load of any module.
\<close>

lemma reload_full_table_unloads:
  assumes "modules_ok (in_modules inst)" and "length (mr_entries (in_modules inst)) = 256"
    and "module_of (in_modules inst) name = Some e" and "me_loaded e" and "me_lib e = Some lib"
    and "\<And>i. in_modules (ev_unload env lib i) = in_modules i"
  shows "\<exists>inst'. portal_module_do_reload env send inst name = Inr (-1, inst') \<and>
    \<not> portal_module_is_loaded (in_modules inst') name \<and> portal_module_do_load env send inst' n = Inr (-1, inst')"
proof (rule module_unload_correct [OF assms(1,3-6)])
  fix inst'
  assume u: "portal_module_do_unload env inst name = (0, inst')" "modules_ok (in_modules inst')"
    "module_of (in_modules inst') = (module_of (in_modules inst))(name \<mapsto> entry_clear (e\<lparr>me_unloading := True\<rparr>))"
    "length (mr_entries (in_modules inst')) = length (mr_entries (in_modules inst))"
  then have "portal_module_do_load env send inst' n = Inr (-1, inst')" for n using assms(2) by (simp add: portal_module_do_load_def)
  with u show ?thesis
    by (intro exI [of _ inst']) (simp add: portal_module_do_reload_def is_loaded_module_of)
qed

end
