(* ===== verification/Handlers.thy ===== *)
theory Handlers
  imports Instance
begin

section \<open>The handlers of the core (core_handlers.c)\<close>

text \<open>
  \<^verbatim>\<open>src/core/core_handlers.c\<close>: one definition for each handler function and for each branch of
  \<open>core_handle_message\<close>, which dispatches on path and method at the end of the theory. A handler
  takes the message, the response and the instance and returns the code, the response and the
  instance, or a fault where C leaves the behaviour open.
\<close>

type_synonym handler_result = "(int \<times> portal_resp \<times> portal_instance) outcome"

subsection \<open>Replies\<close>

definition answer :: "16 word \<Rightarrow> int \<Rightarrow> portal_resp \<Rightarrow> portal_instance \<Rightarrow> handler_result" where
  "answer status rc resp inst = Inr (rc, portal_resp_set_status resp status, inst)"

definition answer_body :: "16 word \<Rightarrow> string \<Rightarrow> int \<Rightarrow> portal_resp \<Rightarrow> portal_instance \<Rightarrow> handler_result" where
  "answer_body status body rc resp inst = Inr (rc, portal_resp_set_body (portal_resp_set_status resp status) body, inst)"

text \<open>A constant string sent with its terminator, and a local buffer sent with the length of \<open>snprintf\<close>.\<close>

definition answer_text :: "16 word \<Rightarrow> string \<Rightarrow> int \<Rightarrow> portal_resp \<Rightarrow> portal_instance \<Rightarrow> handler_result" where
  "answer_text status text rc resp inst = answer_body status (text @ [NUL]) rc resp inst"

definition answer_buf :: "16 word \<Rightarrow> nat \<Rightarrow> string \<Rightarrow> nat \<Rightarrow> int \<Rightarrow> portal_resp \<Rightarrow> portal_instance \<Rightarrow> handler_result" where
  "answer_buf status size_of text len rc resp inst =
     obind (buf_bytes size_of text len) (\<lambda>body. answer_body status body rc resp inst)"

definition answer_lines :: "nat \<Rightarrow> string list \<Rightarrow> portal_resp \<Rightarrow> portal_instance \<Rightarrow> handler_result" where
  "answer_lines cap ls resp inst =
     answer_body PORTAL_OK (strbuf_body (fold strbuf_append ls (strbuf_new cap))) 0 resp inst"

lemmas answer_defs = answer_def answer_body_def answer_text_def answer_buf_def answer_lines_def

subsection \<open>Status, modules and paths\<close>

definition handle_status :: "portal_instance \<Rightarrow> portal_resp \<Rightarrow> handler_result" where
  "handle_status inst resp =
     (let text = ''Portal v1.0.0'' @ NL @ ''Status: running'' @ NL @
                 ''Modules loaded: '' @ dec (int (length (mr_entries (in_modules inst)))) @ NL @
                 ''Paths registered: '' @ dec (tree_count (in_paths inst)) @ NL
      in answer_buf PORTAL_OK 512 text (length text + 1) 0 resp inst)"

definition module_line :: "module_entry \<Rightarrow> string list" where
  "module_line e =
     (case me_info e of
        None \<Rightarrow> []
      | Some i \<Rightarrow> if me_loaded e
                  then [''  '' @ pad 16 (mi_name i) @ '' v'' @ pad 8 (mi_version i) @ '' '' @ mi_description i @ NL] else [])"

definition handle_modules_list :: "portal_instance \<Rightarrow> portal_resp \<Rightarrow> handler_result" where
  "handle_modules_list inst resp =
     answer_lines 4096 ((''Loaded modules:'' @ NL) # concat (map module_line (mr_entries (in_modules inst)))) resp inst"

definition module_action ::
    "env \<Rightarrow> send_fn \<Rightarrow> portal_instance \<Rightarrow> string \<Rightarrow> string \<Rightarrow> (int \<times> portal_instance) outcome option" where
  "module_action env send inst name action =
     (if action = ''load'' then Some (portal_module_do_load env send inst name)
      else if action = ''unload'' then Some (Inr (portal_module_do_unload env inst name))
      else if action = ''reload'' then Some (portal_module_do_reload env send inst name)
      else None)"

definition handle_module_action ::
    "env \<Rightarrow> send_fn \<Rightarrow> portal_instance \<Rightarrow> string \<Rightarrow> portal_msg \<Rightarrow> portal_resp \<Rightarrow> handler_result" where
  "handle_module_action env send inst mod_name msg resp =
     obind (get_header (msg_headers msg) ''action'') (\<lambda>action.
       case action of
         None \<Rightarrow> answer_text PORTAL_BAD_REQUEST (''Missing '' @ [CHR 0x27] @ ''action'' @ [CHR 0x27] @ '' header'' @ NL) (-1) resp inst
       | Some action \<Rightarrow>
           (case module_action env send inst mod_name action of
              None \<Rightarrow> answer_text PORTAL_BAD_REQUEST (csnprintf 128 (''Unknown action: '' @ action @ NL)) (-1) resp inst
            | Some result \<Rightarrow>
                obind result (\<lambda>(rc, inst).
                  let head = ''Module '' @ [CHR 0x27] @ mod_name @ [CHR 0x27] @ '': '' @ action
                  in if rc = 0 then answer_body PORTAL_OK (csnprintf 128 (head @ '' OK'' @ NL)) rc resp inst
                     else answer_body PORTAL_INTERNAL_ERROR (csnprintf 128 (head @ '' failed'' @ NL)) rc resp inst)))"

definition path_visible :: "portal_path_tree \<Rightarrow> portal_ctx option \<Rightarrow> string \<Rightarrow> bool" where
  "path_visible tree caller path =
     (case portal_path_lookup_entry tree path of
        None \<Rightarrow> True
      | Some entry \<Rightarrow> fst (portal_labels_allow caller (Some (pe_labels entry))))"

definition path_list_cb :: "portal_path_tree \<Rightarrow> portal_ctx option \<Rightarrow> string \<Rightarrow> string \<Rightarrow> strbuf \<Rightarrow> strbuf" where
  "path_list_cb tree caller path module_name sb =
     (if path_visible tree caller path
      then strbuf_append (''  '' @ pad 40 path @ '' '' @ [CHR 0xE2, CHR 0x86, CHR 0x92] @ '' '' @ module_name @ NL) sb
      else sb)"

definition handle_paths_list :: "portal_instance \<Rightarrow> portal_msg \<Rightarrow> portal_resp \<Rightarrow> handler_result" where
  "handle_paths_list inst msg resp =
     answer_body PORTAL_OK (strbuf_body (portal_path_list (in_paths inst) (path_list_cb (in_paths inst) (msg_ctx msg))
       (strbuf_append (''Registered paths:'' @ NL) (strbuf_new 65536)))) 0 resp inst"

subsection \<open>Listing the children of a path\<close>

abbreviation (input) LS_MAX_ENTRIES :: nat where "LS_MAX_ENTRIES \<equiv> 128"

record ls_child =
  lc_name :: string
  lc_module :: string
  lc_leaf :: bool

definition ls_rest :: "string \<Rightarrow> string \<Rightarrow> string" where
  "ls_rest pre path =
     (let rest = drop (length pre) path
      in if rest \<noteq> [] \<and> hd rest = CHR ''/'' \<and> pre \<noteq> [] \<and> last pre \<noteq> CHR ''/'' then tl rest else rest)"

definition ls_add :: "string \<Rightarrow> string \<Rightarrow> bool \<Rightarrow> ls_child list \<Rightarrow> ls_child list" where
  "ls_add segment module_name direct cs =
     (case find_index (\<lambda>c. lc_name c = segment) cs of
        Some i \<Rightarrow>
          if direct then cs[i := (cs ! i)\<lparr>lc_leaf := True, lc_module := csnprintf PORTAL_MAX_MODULE_NAME module_name\<rparr>] else cs
      | None \<Rightarrow>
          if length cs < LS_MAX_ENTRIES
          then cs @ [\<lparr>lc_name = segment, lc_module = (if direct then csnprintf PORTAL_MAX_MODULE_NAME module_name else []),
                      lc_leaf = direct\<rparr>]
          else cs)"

definition ls_cb ::
    "portal_path_tree \<Rightarrow> portal_ctx option \<Rightarrow> string \<Rightarrow> string \<Rightarrow> string \<Rightarrow> ls_child list \<Rightarrow> ls_child list" where
  "ls_cb tree caller pre path module_name cs =
     (if \<not> strncmp_eq path pre (length pre) then cs
      else if \<not> path_visible tree caller path then cs
      else let rest = ls_rest pre path
           in if rest = [] then
                (if length cs < LS_MAX_ENTRIES
                 then cs @ [\<lparr>lc_name = ''.'', lc_module = csnprintf PORTAL_MAX_MODULE_NAME module_name, lc_leaf = True\<rparr>] else cs)
              else case strchr_split CHR ''/'' rest of
                (segment, slash) \<Rightarrow> ls_add (csnprintf 128 segment) module_name (slash = None) cs)"

definition seen_add :: "string \<Rightarrow> string list \<times> string list \<Rightarrow> string list \<times> string list" where
  "seen_add lbl = (\<lambda>(seen, out).
     if lbl \<notin> set seen \<and> length seen < 128 then (seen @ [csnprintf PORTAL_MAX_LABEL_LEN lbl], out @ [lbl]) else (seen, out))"

definition groups_seen :: "auth_registry \<Rightarrow> string list \<times> string list" where
  "groups_seen auth = fold seen_add (concat (map au_labels (ar_users auth))) ([], [])"

definition clean_prefix :: "string option \<Rightarrow> string" where
  "clean_prefix pre =
     (let s = csnprintf PORTAL_MAX_PATH_LEN (fmt_s pre); t = rev (dropWhile (\<lambda>c. c = CHR ''/'') (rev s))
      in if t = [] then take 1 s else t)"

definition ls_lines :: "portal_instance \<Rightarrow> portal_ctx option \<Rightarrow> string \<Rightarrow> string list" where
  "ls_lines inst caller pre =
     map (\<lambda>c. if lc_leaf c then ''  '' @ pad 30 (lc_name c) @ '' ['' @ lc_module c @ '']'' @ NL
              else ''  '' @ pad 30 (lc_name c) @ ''/'' @ NL)
       (filter (\<lambda>c. lc_name c \<noteq> ''.'') (portal_path_list (in_paths inst) (ls_cb (in_paths inst) caller pre) [])) @
     (if pre = ''/users'' then map (\<lambda>u. ''  '' @ pad 30 (au_username u) @ '' [user]'' @ NL) (ar_users (in_auth inst))
      else if pre = ''/groups'' then map (\<lambda>l. ''  '' @ pad 30 l @ '' [group]'' @ NL) (snd (groups_seen (in_auth inst)))
      else [])"

definition handle_ls :: "portal_instance \<Rightarrow> portal_msg \<Rightarrow> portal_resp \<Rightarrow> handler_result" where
  "handle_ls inst msg resp =
     obind (get_header_or (msg_headers msg) ''prefix'' (Some ''/'')) (\<lambda>p.
       let sb = fold strbuf_append (ls_lines inst (msg_ctx msg) (clean_prefix p)) (strbuf_new 8192);
           sb = (if sb_text sb = [] then strbuf_append (''  (empty)'' @ NL) sb else sb)
       in answer_body PORTAL_OK (strbuf_body sb) 0 resp inst)"

subsection \<open>Resolving a path\<close>

definition resolve_prefix_cb :: "string \<Rightarrow> string \<Rightarrow> bool" where
  "resolve_prefix_cb pre key \<longleftrightarrow>
     length pre \<le> length key \<and> strncmp_eq key pre (length pre) \<and>
     (length key = length pre \<or> key ! length pre = CHR ''/'')"

definition resolve_exists :: "portal_path_tree \<Rightarrow> string \<Rightarrow> bool" where
  "resolve_exists tree resolved \<longleftrightarrow>
     portal_path_lookup tree resolved \<noteq> None \<or>
     portal_ht_iter (tree_table tree) (\<lambda>key val matched. matched \<or> resolve_prefix_cb resolved key) False"

definition resolve_text :: "string option \<Rightarrow> string option \<Rightarrow> string outcome" where
  "resolve_text cwd target =
     (case target of
        None \<Rightarrow> Inl Null_deref
      | Some t \<Rightarrow>
          if t \<noteq> [] \<and> hd t = CHR ''/'' then Inr (csnprintf PORTAL_MAX_PATH_LEN t)
          else if t = ''..'' then
            (let r = csnprintf PORTAL_MAX_PATH_LEN (fmt_s cwd)
             in case strrchr CHR ''/'' r of
                  None \<Rightarrow> Inr ''/''
                | Some i \<Rightarrow> Inr (if i = 0 then ''/'' else take i r))
          else if t = [] then Inr (csnprintf PORTAL_MAX_PATH_LEN (fmt_s cwd))
          else (case cwd of
             None \<Rightarrow> Inl Null_deref
           | Some c \<Rightarrow> Inr (csnprintf PORTAL_MAX_PATH_LEN (if c = ''/'' then ''/'' @ t else c @ ''/'' @ t))))"

definition strip_slash :: "string \<Rightarrow> string" where
  "strip_slash s = (if 1 < length s \<and> last s = CHR ''/'' then butlast s else s)"

definition handle_resolve :: "portal_instance \<Rightarrow> portal_msg \<Rightarrow> portal_resp \<Rightarrow> handler_result" where
  "handle_resolve inst msg resp =
     all_headers (msg_headers msg)
       (obind (resolve_text (last_header_or (msg_headers msg) ''cwd'' (Some ''/''))
                 (last_header_or (msg_headers msg) ''target'' (Some []))) (\<lambda>r.
          let resolved = strip_slash r
          in if resolved \<noteq> ''/'' \<and> \<not> resolve_exists (in_paths inst) resolved then answer PORTAL_NOT_FOUND (-1) resp inst
             else answer_text PORTAL_OK resolved 0 resp inst))"

subsection \<open>Sessions and keys\<close>

definition ctx_user :: "portal_msg \<Rightarrow> string option" where
  "ctx_user msg = Option.bind (msg_ctx msg) (\<lambda>c. auth_user (ctx_auth c))"

definition ctx_token :: "portal_msg \<Rightarrow> string option" where
  "ctx_token msg = Option.bind (msg_ctx msg) (\<lambda>c. auth_token (ctx_auth c))"

definition caller_is_admin :: "portal_msg \<Rightarrow> bool" where
  "caller_is_admin msg =
     (case msg_ctx msg of
        None \<Rightarrow> False
      | Some c \<Rightarrow> auth_user (ctx_auth c) = Some PORTAL_ROOT_USER \<or> portal_labels_has (auth_labels (ctx_auth c)) ''hub-admin'')"

text \<open>Logout and whoami prefer the token of the context, the key handlers the one of the header.\<close>

definition ctx_or_header_token :: "portal_msg \<Rightarrow> string option outcome" where
  "ctx_or_header_token msg =
     (case ctx_token msg of Some t \<Rightarrow> Inr (Some t) | None \<Rightarrow> get_header (msg_headers msg) ''token'')"

definition header_or_ctx_token :: "portal_msg \<Rightarrow> string option outcome" where
  "header_or_ctx_token msg =
     obind (get_header (msg_headers msg) ''token'') (\<lambda>t. Inr (if t = None then ctx_token msg else t))"

definition resolve_user :: "env \<Rightarrow> portal_instance \<Rightarrow> string \<Rightarrow> auth_user option \<times> portal_instance" where
  "resolve_user env inst token =
     (case portal_auth_resolve_token (in_auth inst) token (ev_now env) of (u, auth) \<Rightarrow> (u, inst\<lparr>in_auth := auth\<rparr>))"

definition handle_auth_logout :: "portal_instance \<Rightarrow> portal_msg \<Rightarrow> portal_resp \<Rightarrow> handler_result" where
  "handle_auth_logout inst msg resp =
     obind (ctx_or_header_token msg) (\<lambda>token.
       case token of
         None \<Rightarrow> answer PORTAL_BAD_REQUEST (-1) resp inst
       | Some t \<Rightarrow> answer_text PORTAL_OK (''Logged out'' @ NL) 0 resp
                     (inst\<lparr>in_auth := snd (portal_auth_logout (in_auth inst) t)\<rparr>))"

definition sep_list :: "string \<Rightarrow> string list \<Rightarrow> string list" where
  "sep_list sep ls = concat (map (\<lambda>i. if 0 < i then [sep, ls ! i] else [ls ! i]) [0..<length ls])"

definition handle_auth_whoami :: "env \<Rightarrow> portal_instance \<Rightarrow> portal_msg \<Rightarrow> portal_resp \<Rightarrow> handler_result" where
  "handle_auth_whoami env inst msg resp =
     obind (ctx_or_header_token msg) (\<lambda>token.
       case token of
         None \<Rightarrow> answer_text PORTAL_OK (''anonymous (not logged in)'' @ NL) 0 resp inst
       | Some t \<Rightarrow>
           (case resolve_user env inst t of
              (None, inst) \<Rightarrow> answer_text PORTAL_UNAUTHORIZED (''Invalid or expired token'' @ NL) (-1) resp inst
            | (Some user, inst) \<Rightarrow>
                answer_lines 1024 ([''User: '' @ au_username user @ NL, ''Labels: ''] @
                  sep_list '', '' (au_labels user) @ [NL]) resp inst))"

definition handle_auth_key :: "env \<Rightarrow> portal_instance \<Rightarrow> portal_msg \<Rightarrow> portal_resp \<Rightarrow> handler_result" where
  "handle_auth_key env inst msg resp =
     obind (header_or_ctx_token msg) (\<lambda>token.
       case token of
         None \<Rightarrow> answer PORTAL_UNAUTHORIZED (-1) resp inst
       | Some t \<Rightarrow>
           (case resolve_user env inst t of
              (None, inst) \<Rightarrow> answer PORTAL_UNAUTHORIZED (-1) resp inst
            | (Some user, inst) \<Rightarrow>
                (let (key, inst) =
                       (if au_api_key user = [] then
                          (let (r, inst) = draw_rnd inst; key = generate_token r AUTH_KEY_LEN
                           in (key, set_user_key (au_username user) key inst))
                        else (au_api_key user, inst));
                     text = ''User: '' @ au_username user @ NL @ ''API Key: '' @ key @ NL
                 in answer_buf PORTAL_OK 256 text (length text + 1) 0 resp inst)))"

definition handle_auth_key_rotate :: "env \<Rightarrow> portal_instance \<Rightarrow> portal_msg \<Rightarrow> portal_resp \<Rightarrow> handler_result" where
  "handle_auth_key_rotate env inst msg resp =
     obind (header_or_ctx_token msg) (\<lambda>token.
       case token of
         None \<Rightarrow> answer PORTAL_UNAUTHORIZED (-1) resp inst
       | Some t \<Rightarrow>
           (case resolve_user env inst t of
              (None, inst) \<Rightarrow> answer PORTAL_UNAUTHORIZED (-1) resp inst
            | (Some user, inst) \<Rightarrow>
                (let (r, inst) = draw_rnd inst;
                     inst = inst\<lparr>in_auth := snd (portal_auth_rotate_key (in_auth inst) (au_username user) r)\<rparr>;
                     text = ''New API Key: '' @ generate_token r AUTH_KEY_LEN @ NL
                 in answer_buf PORTAL_OK 256 text (length text + 1) 0 resp inst)))"

definition login_token :: "env \<Rightarrow> portal_instance \<Rightarrow> string option \<Rightarrow> string option \<Rightarrow> string option \<Rightarrow>
    (string option \<times> auth_registry) option" where
  "login_token env inst username password api_key =
     (let r = fst (draw (in_rnd inst))
      in case api_key of
           Some k \<Rightarrow> if k \<noteq> [] then Some (portal_auth_login_key (in_auth inst) k r (ev_now env))
                     else (case (username, password) of
                             (Some u, Some p) \<Rightarrow> Some (portal_auth_login (in_auth inst) u p r (ev_now env))
                           | _ \<Rightarrow> None)
         | None \<Rightarrow> (case (username, password) of
                      (Some u, Some p) \<Rightarrow> Some (portal_auth_login (in_auth inst) u p r (ev_now env))
                    | _ \<Rightarrow> None))"

definition handle_auth_login_enhanced :: "env \<Rightarrow> portal_instance \<Rightarrow> portal_msg \<Rightarrow> portal_resp \<Rightarrow> handler_result" where
  "handle_auth_login_enhanced env inst msg resp =
     obind (get_header (msg_headers msg) ''username'') (\<lambda>username.
     obind (get_header (msg_headers msg) ''password'') (\<lambda>password.
     obind (get_header (msg_headers msg) ''api_key'') (\<lambda>api_key.
       case login_token env inst username password api_key of
         None \<Rightarrow> answer_text PORTAL_BAD_REQUEST (''Provide username+password or api_key'' @ NL) (-1) resp inst
       | Some (None, auth) \<Rightarrow>
           answer_text PORTAL_UNAUTHORIZED (''Authentication failed'' @ NL) (-1) resp (inst\<lparr>in_auth := auth\<rparr>)
       | Some (Some token, auth) \<Rightarrow>
           (let inst = (snd (draw_rnd inst))\<lparr>in_auth := auth\<rparr>; text = token @ NL
            in answer_buf PORTAL_OK 256 text (length text + 1) 0 resp inst))))"

subsection \<open>Events\<close>

definition event_lines :: "event_def \<Rightarrow> string list" where
  "event_lines def =
     [''  '' @ pad 40 (ed_path def) @ '' ['' @ ed_module def @ '']''] @
     (if ed_labels def \<noteq> []
      then '' labels:'' # map (\<lambda>i. (if 0 < i then '','' else []) @ ed_labels def ! i) [0..<length (ed_labels def)] else []) @
     [NL] @ (if ed_description def \<noteq> [] then [''    '' @ ed_description def @ NL] else [])"

definition handle_events_list :: "portal_instance \<Rightarrow> portal_resp \<Rightarrow> handler_result" where
  "handle_events_list inst resp =
     (let count = portal_events_count (in_events_reg inst);
          sb = strbuf_append (''Events registered: '' @ dec count @ NL) (strbuf_new 8192);
          sb = portal_events_list (in_events_reg inst) (\<lambda>def. fold strbuf_append (event_lines def)) sb;
          sb = (if count = 0 then strbuf_append (''  (none)'' @ NL) sb else sb)
      in answer_body PORTAL_OK (strbuf_body sb) 0 resp inst)"

definition subscriber_of :: "portal_msg \<Rightarrow> string" where
  "subscriber_of msg = (case ctx_user msg of None \<Rightarrow> ''anonymous'' | Some u \<Rightarrow> u)"

definition handle_event_sub :: "portal_instance \<Rightarrow> string \<Rightarrow> portal_msg \<Rightarrow> portal_resp \<Rightarrow> handler_result" where
  "handle_event_sub inst path msg resp =
     obind (get_header (msg_headers msg) ''notify_fd'') (\<lambda>fd_str.
       let notify_fd = (case fd_str of None \<Rightarrow> -1 | Some s \<Rightarrow> atoi s);
           sub_labels = Some (case msg_ctx msg of None \<Rightarrow> [] | Some c \<Rightarrow> auth_labels (ctx_auth c));
           (rc, inst) = on_events (\<lambda>reg.
             if 0 \<le> notify_fd
             then portal_events_subscribe_fd reg path (subscriber_of msg) sub_labels (ctx_token msg) notify_fd
             else portal_events_subscribe reg path (subscriber_of msg) sub_labels None None) inst
       in if rc = 0 then answer_text PORTAL_OK (''Subscribed'' @ NL) rc resp inst
          else answer_text PORTAL_FORBIDDEN (''Subscribe denied'' @ NL) rc resp inst)"

definition handle_event_unsub :: "portal_instance \<Rightarrow> string \<Rightarrow> portal_msg \<Rightarrow> portal_resp \<Rightarrow> handler_result" where
  "handle_event_unsub inst path msg resp =
     (case on_events (\<lambda>reg. portal_events_unsubscribe reg path (subscriber_of msg)) inst of
        (rc, inst) \<Rightarrow> answer (if rc = 0 then PORTAL_OK else PORTAL_NOT_FOUND) rc resp inst)"


subsection \<open>Users\<close>

definition modify_inst_user :: "string \<Rightarrow> (auth_user \<Rightarrow> auth_user) \<Rightarrow> portal_instance \<Rightarrow> portal_instance" where
  "modify_inst_user name f inst = inst\<lparr>in_auth := modify_user (in_auth inst) name f\<rparr>"

definition user_lines :: "auth_user \<Rightarrow> string list" where
  "user_lines u =
     [''  '' @ pad 16 (au_username u) @ '' groups:''] @
     map (\<lambda>j. (if 0 < j then '','' else '' '') @ au_labels u ! j) [0..<length (au_labels u)] @ [NL]"

definition handle_users_list :: "portal_instance \<Rightarrow> portal_resp \<Rightarrow> handler_result" where
  "handle_users_list inst resp =
     answer_lines 4096 ((''Users:'' @ NL) # concat (map user_lines (ar_users (in_auth inst)))) resp inst"

text \<open>\<open>/users/<name>...\<close> and \<open>/groups/<name>...\<close>: the name, cut to a row, and what follows the slash.\<close>

definition split_name :: "string \<Rightarrow> string \<times> string option" where
  "split_name s = (case strchr_split CHR ''/'' s of (name, rest) \<Rightarrow> (csnprintf PORTAL_MAX_LABEL_LEN name, rest))"

definition handle_user_password :: "env \<Rightarrow> portal_instance \<Rightarrow> string \<Rightarrow> portal_msg \<Rightarrow> portal_resp \<Rightarrow> handler_result" where
  "handle_user_password env inst name msg resp =
     (if \<not> caller_is_admin msg \<and> ctx_user msg \<noteq> Some name then answer PORTAL_FORBIDDEN (-1) resp inst
      else obind (get_header (msg_headers msg) ''password'') (\<lambda>newpass.
        case newpass of
          None \<Rightarrow> answer PORTAL_BAD_REQUEST (-1) resp inst
        | Some p \<Rightarrow>
            if portal_auth_find_user (in_auth inst) name = None then answer PORTAL_NOT_FOUND (-1) resp inst
            else answer_text PORTAL_OK (''Password changed'' @ NL) 0 resp
                   (save_user_dual env name (modify_inst_user name (\<lambda>u. u\<lparr>au_password := csnprintf 256 p\<rparr>) inst))))"

definition handle_user_get :: "portal_instance \<Rightarrow> string \<Rightarrow> portal_resp \<Rightarrow> handler_result" where
  "handle_user_get inst name resp =
     (case portal_auth_find_user (in_auth inst) name of
        None \<Rightarrow> answer PORTAL_NOT_FOUND (-1) resp inst
      | Some u \<Rightarrow>
          answer_lines 1024 ([''User: '' @ au_username u @ NL, ''Groups:''] @ map (\<lambda>l. '' '' @ l) (au_labels u) @
            [NL @ ''API Key: '' @ (if au_api_key u \<noteq> [] then ''set'' else ''none'') @ NL]) resp inst)"

definition handle_user_set :: "env \<Rightarrow> portal_instance \<Rightarrow> string \<Rightarrow> portal_msg \<Rightarrow> portal_resp \<Rightarrow> handler_result" where
  "handle_user_set env inst name msg resp =
     (if \<not> caller_is_admin msg then answer PORTAL_FORBIDDEN (-1) resp inst
      else
        obind (get_header (msg_headers msg) ''password'') (\<lambda>password.
        obind (get_header (msg_headers msg) ''groups'') (\<lambda>groups.
          let labels = (case groups of
                          None \<Rightarrow> []
                        | Some g \<Rightarrow> if g \<noteq> [] then add_labels (strtok CHR '','' (csnprintf 512 g)) [] else [])
          in case portal_auth_add_user (in_auth inst) name (case password of None \<Rightarrow> [] | Some p \<Rightarrow> p) (Some labels) of
               (rc, auth) \<Rightarrow>
                 let inst = inst\<lparr>in_auth := auth\<rparr>
                 in if rc = 0 then answer PORTAL_CREATED rc resp (save_user_dual env name inst)
                    else answer PORTAL_CONFLICT rc resp inst)))"

subsection \<open>Groups\<close>

definition group_line :: "auth_registry \<Rightarrow> string \<Rightarrow> string" where
  "group_line auth g =
     ''  '' @ pad 20 g @ '' '' @ dec (int (length (filter (\<lambda>u. portal_labels_has (au_labels u) g) (ar_users auth)))) @
     '' members'' @ NL"

definition handle_groups_list :: "portal_instance \<Rightarrow> portal_resp \<Rightarrow> handler_result" where
  "handle_groups_list inst resp =
     (let seen = fst (groups_seen (in_auth inst))
      in answer_lines 4096 ((''Groups:'' @ NL) # map (group_line (in_auth inst)) seen @
           (if seen = [] then [''  (none)'' @ NL] else [])) resp inst)"

text \<open>Adding and removing a member differ in the operation on the labels and the text.\<close>

definition handle_group_member ::
    "env \<Rightarrow> (portal_labels \<Rightarrow> string \<Rightarrow> int \<times> portal_labels) \<Rightarrow> string \<Rightarrow> string \<Rightarrow>
     portal_instance \<Rightarrow> string \<Rightarrow> portal_msg \<Rightarrow> portal_resp \<Rightarrow> handler_result" where
  "handle_group_member env change verb prep inst gname msg resp =
     (if \<not> caller_is_admin msg then answer PORTAL_FORBIDDEN (-1) resp inst
      else obind (get_header (msg_headers msg) ''user'') (\<lambda>uname.
        case uname of
          None \<Rightarrow> answer PORTAL_BAD_REQUEST (-1) resp inst
        | Some u \<Rightarrow>
            if portal_auth_find_user (in_auth inst) u = None then answer PORTAL_NOT_FOUND (-1) resp inst
            else answer_text PORTAL_OK
                   (csnprintf 128 (verb @ '' '' @ [CHR 0x27] @ u @ [CHR 0x27] @ '' '' @ prep @ '' group '' @
                                   [CHR 0x27] @ gname @ [CHR 0x27] @ NL)) 0 resp
                   (save_user_dual env u
                      (modify_inst_user u (\<lambda>x. x\<lparr>au_labels := snd (change (au_labels x) gname)\<rparr>) inst))))"

definition handle_group_set :: "env \<Rightarrow> portal_instance \<Rightarrow> string \<Rightarrow> portal_msg \<Rightarrow> portal_resp \<Rightarrow> handler_result" where
  "handle_group_set env inst gname msg resp =
     (if \<not> caller_is_admin msg then answer PORTAL_FORBIDDEN (-1) resp inst
      else obind (get_header (msg_headers msg) ''description'') (\<lambda>desc.
        let path = portal_store_path (in_store inst) ''groups'' gname PORTAL_MAX_PATH_LEN;
            fs = snd (portal_store_write_value (ev_can_write env) (in_fs inst) path ''description''
                        (case desc of None \<Rightarrow> [] | Some d \<Rightarrow> d));
            fs = snd (portal_store_write_value (ev_can_write env) fs path ''created_by''
                        (case ctx_user msg of None \<Rightarrow> ''cli'' | Some u \<Rightarrow> u))
        in answer_text PORTAL_CREATED (csnprintf 128 (''Group '' @ [CHR 0x27] @ gname @ [CHR 0x27] @ '' created'' @ NL)) 0 resp
             (inst\<lparr>in_fs := fs\<rparr>)))"

definition handle_group_get :: "portal_instance \<Rightarrow> string \<Rightarrow> portal_resp \<Rightarrow> handler_result" where
  "handle_group_get inst gname resp =
     (let path = portal_store_path (in_store inst) ''groups'' gname PORTAL_MAX_PATH_LEN;
          members = filter (\<lambda>u. portal_labels_has (au_labels u) gname) (ar_users (in_auth inst))
      in answer_lines 2048 ([''Group: '' @ gname @ NL] @
           (case portal_store_read_value (in_fs inst) path ''description'' of
              None \<Rightarrow> [] | Some d \<Rightarrow> [''Description: '' @ d @ NL]) @
           [''Members:''] @ map (\<lambda>u. '' '' @ au_username u) members @
           (if members = [] then ['' (none)''] else []) @ [NL]) resp inst)"

subsection \<open>Configuration\<close>

definition handle_config_get :: "env \<Rightarrow> portal_instance \<Rightarrow> portal_msg \<Rightarrow> portal_resp \<Rightarrow> handler_result" where
  "handle_config_get env inst msg resp =
     all_headers (msg_headers msg)
       (case (last_header (msg_headers msg) ''module'', last_header (msg_headers msg) ''key'') of
          (Some m, Some key) \<Rightarrow>
            (case api_config_get env inst m key of
               Some val \<Rightarrow> answer_text PORTAL_OK val 0 resp inst
             | None \<Rightarrow>
                 (let text = ''Config not found: '' @ m @ ''.'' @ key @ NL
                  in answer_buf PORTAL_NOT_FOUND 256 text (length text + 1) 0 resp inst))
        | _ \<Rightarrow> answer_text PORTAL_BAD_REQUEST (''Need: module, key headers'' @ NL) (-1) resp inst)"

definition handle_config_set :: "env \<Rightarrow> portal_instance \<Rightarrow> portal_msg \<Rightarrow> portal_resp \<Rightarrow> handler_result" where
  "handle_config_set env inst msg resp =
     (if \<not> caller_is_admin msg then answer PORTAL_FORBIDDEN (-1) resp inst
      else all_headers (msg_headers msg)
        (case (last_header (msg_headers msg) ''module'', last_header (msg_headers msg) ''key'',
               last_header (msg_headers msg) ''value'') of
           (Some m, Some key, Some val) \<Rightarrow>
             (let full_key = csnprintf 256 (''mod_'' @ m @ ''.'' @ key);
                  cfg = (in_config inst)\<lparr>cf_sections := snd (portal_ht_set (cf_sections (in_config inst)) full_key (Some val))\<rparr>;
                  calls = portal_storage_save_config (in_storage inst) (csnprintf 128 (''mod_'' @ m)) key val;
                  inst = log_effects (map Stored calls) (inst\<lparr>in_config := cfg\<rparr>);
                  text = ''Set '' @ m @ ''.'' @ key @ '' = '' @ val @ NL
              in answer_buf PORTAL_OK 256 text (length text + 1) 0 resp
                   (snd (api_event_emit env inst ''/events/config/set'' full_key)))
         | _ \<Rightarrow> answer_text PORTAL_BAD_REQUEST (''Need: module, key, value headers'' @ NL) (-1) resp inst))"

text \<open>The loop over the slots ends early when fewer than 256 bytes are left.\<close>

fun config_list_loop :: "string \<Rightarrow> (string \<times> string option) list \<Rightarrow> strbuf \<Rightarrow> strbuf" where
  "config_list_loop pre [] sb = sb"
| "config_list_loop pre ((k, v) # items) sb =
     (if sb_cap sb - 256 \<le> length (sb_text sb) then sb
      else if pre \<noteq> [] \<and> \<not> strncmp_eq k pre (length pre) then config_list_loop pre items sb
      else if pre = [] \<and> \<not> strncmp_eq k ''mod_'' 4 then config_list_loop pre items sb
      else config_list_loop pre items (strbuf_append (''  '' @ pad 40 k @ '' = '' @ fmt_s v @ NL) sb))"

definition handle_config_list :: "portal_instance \<Rightarrow> portal_msg \<Rightarrow> portal_resp \<Rightarrow> handler_result" where
  "handle_config_list inst msg resp =
     all_headers (msg_headers msg)
       (let m = last_header (msg_headers msg) ''module'';
            head = (case m of None \<Rightarrow> ''All module config:'' @ NL
                    | Some m \<Rightarrow> ''Config for module '' @ [CHR 0x27] @ m @ [CHR 0x27] @ '':'' @ NL);
            pre = (case m of None \<Rightarrow> [] | Some m \<Rightarrow> csnprintf 128 (''mod_'' @ m @ ''.''));
            sb = config_list_loop pre (ht_items (ht_entries (cf_sections (in_config inst))))
                   (strbuf_append head (strbuf_new 65536));
            sb = (if length (sb_text sb) < 30 then strbuf_append (''  (none)'' @ NL) sb else sb)
        in answer_body PORTAL_OK (strbuf_body sb) 0 resp inst)"


subsection \<open>Locks\<close>

text \<open>
  The list of locks advances its offset by what \<open>snprintf\<close> would have written. Behind the end
  of the buffer the remaining size wraps around, and the next piece is written out of bounds.
\<close>

definition locks_append :: "string \<Rightarrow> string outcome \<Rightarrow> string outcome" where
  "locks_append piece text = obind text (\<lambda>t. if 4096 < length t then Inl Over_write else Inr (t @ piece))"

definition lock_line :: "int \<Rightarrow> resource_lock \<Rightarrow> string" where
  "lock_line now l =
     ''  '' @ pad 30 (lk_resource l) @ '' owner:'' @ pad 20 (lk_owner l) @ '' age:'' @ dec (now - lk_locked_at l) @
     ''s keepalive:'' @ dec (now - lk_last_keepalive l) @ ''s ago'' @ NL"

definition handle_locks_list :: "env \<Rightarrow> portal_instance \<Rightarrow> portal_msg \<Rightarrow> portal_resp \<Rightarrow> handler_result" where
  "handle_locks_list env inst msg resp =
     all_headers (msg_headers msg)
       (let filter_text = last_header (msg_headers msg) ''resource'';
            wanted = (\<lambda>l. lk_active l \<and> (case filter_text of None \<Rightarrow> True | Some f \<Rightarrow> strncmp_eq (lk_resource l) f (length f)));
            found = filter wanted (lt_locks (in_locks inst));
            text = Inr (if filter_text = None then ''Resource locks:'' @ NL else []);
            text = fold (\<lambda>l. locks_append (lock_line (sint (ev_now env)) l)) found text;
            text = (if found = []
                    then locks_append (case filter_text of
                           None \<Rightarrow> ''  (none)'' @ NL
                         | Some f \<Rightarrow> ''  (no locks matching '' @ [CHR 0x27] @ f @ [CHR 0x27] @ '')'' @ NL) text
                    else text)
        in obind text (\<lambda>t. answer_buf PORTAL_OK 4096 t (length t) 0 resp inst))"

definition lock_headers ::
    "portal_msg \<Rightarrow> handler_result \<Rightarrow> (string \<Rightarrow> string \<Rightarrow> handler_result) \<Rightarrow> handler_result" where
  "lock_headers msg missing body =
     all_headers (msg_headers msg)
       (case (last_header (msg_headers msg) ''resource'', last_header (msg_headers msg) ''owner'') of
          (Some resource, Some owner) \<Rightarrow> body resource owner
        | _ \<Rightarrow> missing)"

definition handle_lock :: "env \<Rightarrow> portal_instance \<Rightarrow> portal_msg \<Rightarrow> portal_resp \<Rightarrow> handler_result" where
  "handle_lock env inst msg resp =
     lock_headers msg (answer_body PORTAL_BAD_REQUEST (''Need: resource, owner headers'' @ NL) (-1) resp inst)
       (\<lambda>resource owner.
          case api_resource_lock (in_locks inst) resource owner (sint (ev_now env)) of
            (rc, lt) \<Rightarrow>
              let inst = inst\<lparr>in_locks := lt\<rparr>
              in if rc = 0 then
                   (let text = ''Locked: '' @ resource @ '' (owner: '' @ owner @ '')'' @ NL
                    in answer_buf PORTAL_OK 256 text (length text) 0 resp inst)
                 else
                   (let text = ''Already locked by: '' @
                          (case api_resource_owner lt resource of None \<Rightarrow> ''?'' | Some cur \<Rightarrow> cur) @ NL
                    in answer_buf PORTAL_CONFLICT 256 text (length text) 0 resp inst))"

definition handle_unlock :: "portal_instance \<Rightarrow> portal_msg \<Rightarrow> portal_resp \<Rightarrow> handler_result" where
  "handle_unlock inst msg resp =
     lock_headers msg (answer PORTAL_BAD_REQUEST (-1) resp inst)
       (\<lambda>resource owner.
          case api_resource_unlock (in_locks inst) resource owner of
            (rc, lt) \<Rightarrow>
              let inst = inst\<lparr>in_locks := lt\<rparr>;
                  (status, text) = (if rc = 0 then (PORTAL_OK, ''Unlocked: '' @ resource @ NL)
                                    else if rc = -2 then (PORTAL_FORBIDDEN, ''Not your lock'' @ NL)
                                    else (PORTAL_NOT_FOUND, ''Not locked'' @ NL))
              in answer_buf status 256 text (length text) 0 resp inst)"

definition handle_keepalive :: "env \<Rightarrow> portal_instance \<Rightarrow> portal_msg \<Rightarrow> portal_resp \<Rightarrow> handler_result" where
  "handle_keepalive env inst msg resp =
     lock_headers msg (answer PORTAL_BAD_REQUEST (-1) resp inst)
       (\<lambda>resource owner.
          case api_resource_keepalive (in_locks inst) resource owner (sint (ev_now env)) of
            (rc, lt) \<Rightarrow> answer (if rc = 0 then PORTAL_OK else PORTAL_NOT_FOUND) 0 resp (inst\<lparr>in_locks := lt\<rparr>))"

subsection \<open>Storage\<close>

definition handle_storage_list :: "portal_instance \<Rightarrow> portal_resp \<Rightarrow> handler_result" where
  "handle_storage_list inst resp =
     answer_lines 2048 ([''Storage backends:'' @ NL, ''  file: active ('' @ in_store inst @ '')'' @ NL] @
       map (\<lambda>p. ''  '' @ sp_name p @ '': active'' @ NL) (in_storage inst) @
       (if in_storage inst = [] then [''  (no database backends)'' @ NL] else [])) resp inst"

definition handle_storage_status :: "env \<Rightarrow> portal_instance \<Rightarrow> storage_provider \<Rightarrow> portal_resp \<Rightarrow> handler_result" where
  "handle_storage_status env inst prov resp =
     answer_text PORTAL_OK (csnprintf 1024 (if sp_status prov then ev_status env (sp_name prov)
       else ''Backend: '' @ sp_name prov @ '' (active)'' @ NL)) 0 resp inst"

definition handle_storage_sync :: "env \<Rightarrow> portal_instance \<Rightarrow> storage_provider \<Rightarrow> portal_resp \<Rightarrow> handler_result" where
  "handle_storage_sync env inst prov resp =
     (let users = ar_users (in_auth inst);
          synced = length (filter (\<lambda>u. ev_user_save env (sp_name prov) (au_username u) = 0) users);
          text = ''Synced '' @ dec (int synced) @ '' users to '' @ sp_name prov @ NL
      in if \<not> sp_user_save prov \<and> users \<noteq> [] then Inl Null_deref
         else answer_buf PORTAL_OK 128 text (length text + 1) 0 resp
                (log_effects (map Stored (user_save_calls (sp_name prov) users)) inst))"

definition handle_storage_provider :: "env \<Rightarrow> portal_instance \<Rightarrow> string \<Rightarrow> portal_resp \<Rightarrow> handler_result" where
  "handle_storage_provider env inst rest resp =
     (case strchr_split CHR ''/'' rest of
        (_, None) \<Rightarrow> answer PORTAL_NOT_FOUND (-1) resp inst
      | (name, Some sub) \<Rightarrow>
          (case portal_storage_find (in_storage inst) (csnprintf 64 name) of
             None \<Rightarrow> answer PORTAL_NOT_FOUND (-1) resp inst
           | Some prov \<Rightarrow>
               if sub = ''resources/status'' then handle_storage_status env inst prov resp
               else if sub = ''functions/sync'' then handle_storage_sync env inst prov resp
               else answer PORTAL_NOT_FOUND (-1) resp inst))"

subsection \<open>Dispatch\<close>

definition under :: "string \<Rightarrow> string \<Rightarrow> bool" where
  "under pre path \<longleftrightarrow> strncmp_eq path pre (length pre)"

definition handle_users_path :: "env \<Rightarrow> portal_instance \<Rightarrow> string \<Rightarrow> portal_msg \<Rightarrow> portal_resp \<Rightarrow> handler_result" where
  "handle_users_path env inst rest msg resp =
     (case split_name rest of
        (name, sub) \<Rightarrow>
          if sub = Some ''password'' \<and> msg_method msg = PORTAL_METHOD_CALL then handle_user_password env inst name msg resp
          else if msg_method msg = PORTAL_METHOD_GET then handle_user_get inst name resp
          else if msg_method msg = PORTAL_METHOD_SET then handle_user_set env inst name msg resp
          else answer PORTAL_NOT_FOUND (-1) resp inst)"

definition handle_groups_path :: "env \<Rightarrow> portal_instance \<Rightarrow> string \<Rightarrow> portal_msg \<Rightarrow> portal_resp \<Rightarrow> handler_result" where
  "handle_groups_path env inst rest msg resp =
     (case split_name rest of
        (gname, action) \<Rightarrow>
          if action = Some ''add'' \<and> msg_method msg = PORTAL_METHOD_CALL
          then handle_group_member env portal_labels_add ''Added'' ''to'' inst gname msg resp
          else if action = Some ''remove'' \<and> msg_method msg = PORTAL_METHOD_CALL
          then handle_group_member env portal_labels_remove ''Removed'' ''from'' inst gname msg resp
          else if action = None \<and> msg_method msg = PORTAL_METHOD_SET then handle_group_set env inst gname msg resp
          else if action = None \<and> msg_method msg = PORTAL_METHOD_GET then handle_group_get inst gname resp
          else answer PORTAL_NOT_FOUND (-1) resp inst)"

definition handle_locks_path :: "env \<Rightarrow> portal_instance \<Rightarrow> string \<Rightarrow> portal_msg \<Rightarrow> portal_resp \<Rightarrow> handler_result" where
  "handle_locks_path env inst path msg resp =
     (if path = ''/core/locks'' \<and> msg_method msg = PORTAL_METHOD_GET then handle_locks_list env inst msg resp
      else if path = ''/core/locks/lock'' \<and> msg_method msg = PORTAL_METHOD_CALL then handle_lock env inst msg resp
      else if path = ''/core/locks/unlock'' \<and> msg_method msg = PORTAL_METHOD_CALL then handle_unlock inst msg resp
      else if path = ''/core/locks/keepalive'' \<and> msg_method msg = PORTAL_METHOD_CALL then handle_keepalive env inst msg resp
      else if path = ''/core/storage'' \<and> msg_method msg = PORTAL_METHOD_GET then handle_storage_list inst resp
      else if under ''/core/storage/'' path then handle_storage_provider env inst (drop 14 path) resp
      else answer PORTAL_NOT_FOUND (-1) resp inst)"

definition handle_data_path :: "env \<Rightarrow> portal_instance \<Rightarrow> string \<Rightarrow> portal_msg \<Rightarrow> portal_resp \<Rightarrow> handler_result" where
  "handle_data_path env inst path msg resp =
     (if path = ''/users'' \<and> msg_method msg = PORTAL_METHOD_GET then handle_users_list inst resp
      else if under ''/users/'' path then handle_users_path env inst (drop 7 path) msg resp
      else if path = ''/groups'' \<and> msg_method msg = PORTAL_METHOD_GET then handle_groups_list inst resp
      else if under ''/groups/'' path then handle_groups_path env inst (drop 8 path) msg resp
      else if path = ''/core/config/get'' then handle_config_get env inst msg resp
      else if path = ''/core/config/set'' then handle_config_set env inst msg resp
      else if path = ''/core/config/list'' then handle_config_list inst msg resp
      else handle_locks_path env inst path msg resp)"

definition handle_auth_path :: "env \<Rightarrow> portal_instance \<Rightarrow> string \<Rightarrow> portal_msg \<Rightarrow> portal_resp \<Rightarrow> handler_result" where
  "handle_auth_path env inst path msg resp =
     (if path = ''/auth/login'' then handle_auth_login_enhanced env inst msg resp
      else if path = ''/auth/logout'' then handle_auth_logout inst msg resp
      else if path = ''/auth/whoami'' then handle_auth_whoami env inst msg resp
      else if path = ''/auth/key'' \<and> msg_method msg = PORTAL_METHOD_GET then handle_auth_key env inst msg resp
      else if path = ''/auth/key/rotate'' then handle_auth_key_rotate env inst msg resp
      else if path = ''/events'' \<and> msg_method msg = PORTAL_METHOD_GET then handle_events_list inst resp
      else if under ''/events/'' path \<and> msg_method msg = PORTAL_METHOD_SUB then handle_event_sub inst path msg resp
      else if under ''/events/'' path \<and> msg_method msg = PORTAL_METHOD_UNSUB then handle_event_unsub inst path msg resp
      else handle_data_path env inst path msg resp)"

definition core_handle_message ::
    "env \<Rightarrow> send_fn \<Rightarrow> portal_instance \<Rightarrow> string \<Rightarrow> portal_msg \<Rightarrow> portal_resp \<Rightarrow> handler_result" where
  "core_handle_message env send inst path msg resp =
     (if path = ''/core/status'' then handle_status inst resp
      else if path = ''/core/modules'' \<and> msg_method msg = PORTAL_METHOD_GET then handle_modules_list inst resp
      else if path = ''/core/paths'' \<and> msg_method msg = PORTAL_METHOD_GET then handle_paths_list inst msg resp
      else if path = ''/core/ls'' then handle_ls inst msg resp
      else if path = ''/core/resolve'' then handle_resolve inst msg resp
      else if under ''/core/modules/'' path \<and> msg_method msg = PORTAL_METHOD_CALL \<and> \<not> caller_is_admin msg
        then answer PORTAL_FORBIDDEN (-1) resp inst
      else if under ''/core/modules/'' path \<and> msg_method msg = PORTAL_METHOD_CALL \<and> drop 14 path \<noteq> []
        then handle_module_action env send inst (drop 14 path) msg resp
      else handle_auth_path env inst path msg resp)"


subsection \<open>What a caller without privileges can change\<close>

text \<open>
  \<open>within_rights\<close> is the frame of a caller who is not an administrator: configuration, paths,
  modules, watched descriptors, storage providers and traces stay; no account appears,
  disappears, is renamed or changes its labels, the password of every other account stays, and
  so does every file but the caller's own account file and its temporary copy. Sessions, keys,
  subscriptions and locks may change.
\<close>

definition own_file :: "portal_instance \<Rightarrow> portal_msg \<Rightarrow> string \<Rightarrow> bool" where
  "own_file inst msg f \<longleftrightarrow>
     (case ctx_user msg of
        None \<Rightarrow> False
      | Some name \<Rightarrow>
          (let p = portal_store_path (in_store inst) ''users'' name PORTAL_MAX_PATH_LEN
           in f = p \<or> f = csnprintf PORTAL_MAX_PATH_LEN (p @ ''.tmp'')))"

definition account_kept :: "portal_msg \<Rightarrow> auth_user \<Rightarrow> auth_user \<Rightarrow> bool" where
  "account_kept msg u u' \<longleftrightarrow>
     au_username u' = au_username u \<and> au_labels u' = au_labels u \<and>
     (ctx_user msg = Some (au_username u) \<or> au_password u' = au_password u)"

definition within_rights :: "portal_msg \<Rightarrow> portal_instance \<Rightarrow> portal_instance \<Rightarrow> bool" where
  "within_rights msg inst inst' \<longleftrightarrow>
     in_config inst' = in_config inst \<and> in_paths inst' = in_paths inst \<and> in_modules inst' = in_modules inst \<and>
     in_events inst' = in_events inst \<and> in_store inst' = in_store inst \<and> in_storage inst' = in_storage inst \<and>
     in_trace_subs inst' = in_trace_subs inst \<and>
     list_all2 (account_kept msg) (ar_users (in_auth inst)) (ar_users (in_auth inst')) \<and>
     (\<forall>f. \<not> own_file inst msg f \<longrightarrow> in_fs inst' f = in_fs inst f)"

text \<open>A handler ensures \<open>P\<close> when it leaves an instance with \<open>P\<close> or a fault of its own code.\<close>

definition ensures :: "(portal_instance \<Rightarrow> bool) \<Rightarrow> handler_result \<Rightarrow> bool" where
  "ensures P r = (case r of Inl e \<Rightarrow> e \<noteq> Too_deep | Inr (rc, resp, inst) \<Rightarrow> P inst)"

lemma ensures_answer [simp]:
  "ensures P (answer st rc resp inst) = P inst" "ensures P (answer_body st b rc resp inst) = P inst"
  "ensures P (answer_text st b rc resp inst) = P inst" "ensures P (answer_lines n ls resp inst) = P inst"
  by (simp_all add: ensures_def answer_defs)

lemma ensures_fault [simp]: "ensures P (Inl e) \<longleftrightarrow> e \<noteq> Too_deep"
  by (simp add: ensures_def)

lemma ensures_answer_buf: "P inst \<Longrightarrow> ensures P (answer_buf st n t len rc resp inst)"
  by (simp add: ensures_def answer_buf_def buf_bytes_def answer_body_def Let_def)

lemma ensures_obind: "m \<noteq> Inl Too_deep \<Longrightarrow> (\<And>x. m = Inr x \<Longrightarrow> ensures P (f x)) \<Longrightarrow> ensures P (obind m f)"
  by (cases m) simp_all

lemma shallow_header [simp]: "get_header_or hs key d \<noteq> Inl Too_deep"
  by (induction hs key d rule: get_header_or.induct) auto

lemma shallow_token [simp]:
  "get_header hs key \<noteq> Inl Too_deep" "ctx_or_header_token msg \<noteq> Inl Too_deep" "header_or_ctx_token msg \<noteq> Inl Too_deep"
  "resolve_text cwd target \<noteq> Inl Too_deep"
  by (auto simp: get_header_def ctx_or_header_token_def header_or_ctx_token_def obind_def resolve_text_def Let_def
      split: option.splits sum.splits dest: shallow_header [THEN notE])

lemma shallow_locks_append [simp]: "t \<noteq> Inl Too_deep \<Longrightarrow> locks_append p t \<noteq> Inl Too_deep"
  by (auto simp: locks_append_def obind_def split: sum.splits)

lemma shallow_locks [simp]: "t \<noteq> Inl Too_deep \<Longrightarrow> fold (\<lambda>l. locks_append (g l)) ps t \<noteq> Inl Too_deep"
  by (induction ps arbitrary: t) (auto simp: locks_append_def obind_def split: sum.splits)

lemma ensures_all_headers: "ensures P body \<Longrightarrow> ensures P (all_headers hs body)"
  by (simp add: all_headers_def)

lemmas ensures_intros = ensures_answer_buf ensures_obind ensures_all_headers

lemma account_kept_refl [simp]: "account_kept msg u u"
  by (simp add: account_kept_def)

lemma within_rights_users:
  "ar_users auth = ar_users (in_auth inst) \<Longrightarrow> within_rights msg inst (inst\<lparr>in_auth := auth\<rparr>)"
  by (simp add: within_rights_def list_all2_same)

lemma within_rights_refl [simp]: "within_rights msg inst inst"
  using within_rights_users [of "in_auth inst" inst msg] by simp

lemma list_all2_modify_user:
  assumes "\<And>u. au_username u = name \<Longrightarrow> account_kept msg u (f u)"
  shows "list_all2 (account_kept msg) (ar_users auth) (ar_users (modify_user auth name f))"
  using assms
  by (auto simp: modify_user_def list_all2_conv_all_nth nth_list_update find_index_Some_iff split: option.splits)

lemma ar_users_session [simp]:
  "ar_users (snd (portal_auth_login auth u p r now)) = ar_users auth"
  "ar_users (snd (portal_auth_login_key auth k r now)) = ar_users auth"
  "ar_users (snd (portal_auth_logout auth t)) = ar_users auth"
  "ar_users (snd (portal_auth_resolve_token auth t now)) = ar_users auth"
  by (auto simp: portal_auth_login_def portal_auth_login_key_def portal_auth_logout_def portal_auth_resolve_token_def
      start_session_def end_session_def Let_def split: option.splits)

lemma resolve_user_eq:
  "snd (resolve_user env inst t) = inst\<lparr>in_auth := snd (portal_auth_resolve_token (in_auth inst) t (ev_now env))\<rparr>"
  by (simp add: resolve_user_def split: prod.splits)

lemma resolve_user_rights: "within_rights msg inst (snd (resolve_user env inst t))"
  by (simp add: resolve_user_eq within_rights_users)

lemma resolve_user_key:
  fixes env inst t
  defines "inst' \<equiv> snd (resolve_user env inst t)"
  shows "within_rights msg inst (set_user_key name key (snd (draw_rnd inst')))"
    and "within_rights msg inst ((snd (draw_rnd inst'))\<lparr>in_auth := snd (portal_auth_rotate_key (in_auth (snd (draw_rnd inst'))) name r)\<rparr>)"
proof -
  note inst' = inst'_def [unfolded resolve_user_eq]
  have l2: "list_all2 (account_kept msg) (ar_users (in_auth inst)) (ar_users (modify_user (in_auth inst') name (\<lambda>u. u\<lparr>au_api_key := k\<rparr>)))"
    for k using list_all2_modify_user [of name msg "\<lambda>u. u\<lparr>au_api_key := k\<rparr>" "in_auth inst'"]
    by (simp add: inst' account_kept_def)
  show "within_rights msg inst (set_user_key name key (snd (draw_rnd inst')))"
    using l2 by (simp add: within_rights_def set_user_key_def draw_rnd_def inst')
  show "within_rights msg inst ((snd (draw_rnd inst'))\<lparr>in_auth := snd (portal_auth_rotate_key (in_auth (snd (draw_rnd inst'))) name r)\<rparr>)"
    using l2 by (auto simp: within_rights_def draw_rnd_def inst' portal_auth_rotate_key_def list_all2_same split: option.splits)
qed

lemma write_ini_frame:
  "f \<noteq> path \<Longrightarrow> f \<noteq> csnprintf PORTAL_MAX_PATH_LEN (path @ ''.tmp'') \<Longrightarrow>
   snd (portal_store_write_ini can_write fs path kv) f = fs f"
  by (auto simp: portal_store_write_ini_def Let_def)

lemma save_user_dual_fields [simp]:
  "in_config (save_user_dual env n inst) = in_config inst" "in_paths (save_user_dual env n inst) = in_paths inst"
  "in_modules (save_user_dual env n inst) = in_modules inst" "in_events (save_user_dual env n inst) = in_events inst"
  "in_store (save_user_dual env n inst) = in_store inst" "in_storage (save_user_dual env n inst) = in_storage inst"
  "in_trace_subs (save_user_dual env n inst) = in_trace_subs inst" "in_auth (save_user_dual env n inst) = in_auth inst"
  "in_fs (save_user_dual env n inst) =
     snd (portal_auth_save_user_to_store (ev_can_write env) (in_fs inst) (in_auth inst) n (in_store inst))"
  by (simp_all add: save_user_dual_def store_user_db_def store_user_def log_effects_def split: option.splits)

lemma own_password_rights:
  assumes "ctx_user msg = Some name"
  shows "within_rights msg inst (save_user_dual env name (modify_inst_user name (\<lambda>u. u\<lparr>au_password := p\<rparr>) inst))"
  using assms list_all2_modify_user [of name msg "\<lambda>u. u\<lparr>au_password := p\<rparr>" "in_auth inst"]
  by (auto simp: within_rights_def modify_inst_user_def account_kept_def own_file_def portal_auth_save_user_to_store_def
      write_ini_frame Let_def split: option.splits)

lemma login_rights: "ensures (within_rights msg inst) (handle_auth_login_enhanced env inst msg resp)"
proof -
  have users: "ar_users auth = ar_users (in_auth inst)"
    if "login_token env inst u p k = Some (t, auth)" for u p k t auth
    using that ar_users_session(1,2) [of "in_auth inst"]
    by (auto simp: login_token_def Let_def split: option.splits if_splits dest!: arg_cong [where f = snd])
  then have "within_rights msg inst ((snd (draw_rnd inst))\<lparr>in_auth := auth\<rparr>)"
    if "login_token env inst u p k = Some (t, auth)" for u p k t auth
    using that by (simp add: within_rights_def draw_rnd_def list_all2_same)
  with users show ?thesis
    unfolding handle_auth_login_enhanced_def
    by (auto intro!: ensures_intros within_rights_users simp: Let_def split: option.splits)
qed

lemma session_rights:
  "ensures (within_rights msg inst) (handle_auth_logout inst msg resp)"
  "ensures (within_rights msg inst) (handle_auth_whoami env inst msg resp)"
  "ensures (within_rights msg inst) (handle_auth_key env inst msg resp)"
  "ensures (within_rights msg inst) (handle_auth_key_rotate env inst msg resp)"
proof -
  show "ensures (within_rights msg inst) (handle_auth_logout inst msg resp)"
    by (auto simp: handle_auth_logout_def intro!: ensures_intros within_rights_users split: option.splits)
  show "ensures (within_rights msg inst) (handle_auth_whoami env inst msg resp)"
    "ensures (within_rights msg inst) (handle_auth_key env inst msg resp)"
    "ensures (within_rights msg inst) (handle_auth_key_rotate env inst msg resp)"
    by (auto simp: handle_auth_whoami_def handle_auth_key_def handle_auth_key_rotate_def Let_def case_prod_beta
        resolve_user_rights resolve_user_key intro!: ensures_intros split: option.splits)
qed

lemma event_rights:
  "ensures (within_rights msg inst) (handle_event_sub inst path msg resp)"
  "ensures (within_rights msg inst) (handle_event_unsub inst path msg resp)"
proof -
  have on: "within_rights msg inst (snd (on_events f inst))" for f
    by (simp add: on_events_def within_rights_def list_all2_same split: prod.splits)
  show "ensures (within_rights msg inst) (handle_event_sub inst path msg resp)"
    by (auto simp: handle_event_sub_def Let_def case_prod_beta on intro!: ensures_intros)
  show "ensures (within_rights msg inst) (handle_event_unsub inst path msg resp)"
    by (simp add: handle_event_unsub_def case_prod_beta on)
qed

lemma reading_rights:
  "ensures (within_rights msg inst) (handle_status inst resp)"
  "ensures (within_rights msg inst) (handle_modules_list inst resp)"
  "ensures (within_rights msg inst) (handle_paths_list inst msg resp)"
  "ensures (within_rights msg inst) (handle_ls inst msg resp)"
  "ensures (within_rights msg inst) (handle_resolve inst msg resp)"
  "ensures (within_rights msg inst) (handle_events_list inst resp)"
  "ensures (within_rights msg inst) (handle_users_list inst resp)"
  "ensures (within_rights msg inst) (handle_user_get inst name resp)"
  "ensures (within_rights msg inst) (handle_groups_list inst resp)"
  "ensures (within_rights msg inst) (handle_group_get inst name resp)"
  "ensures (within_rights msg inst) (handle_config_get env inst msg resp)"
  "ensures (within_rights msg inst) (handle_config_list inst msg resp)"
  "ensures (within_rights msg inst) (handle_locks_list env inst msg resp)"
  "ensures (within_rights msg inst) (handle_storage_list inst resp)"
  by (auto simp: handle_status_def handle_modules_list_def handle_paths_list_def handle_ls_def handle_resolve_def
      handle_events_list_def handle_users_list_def handle_user_get_def handle_groups_list_def handle_group_get_def
      handle_config_get_def handle_config_list_def handle_locks_list_def handle_storage_list_def Let_def
      intro!: ensures_intros split: option.splits)

lemma lock_rights:
  "ensures (within_rights msg inst) (handle_lock env inst msg resp)"
  "ensures (within_rights msg inst) (handle_unlock inst msg resp)"
  "ensures (within_rights msg inst) (handle_keepalive env inst msg resp)"
proof -
  have lt: "within_rights msg inst (inst\<lparr>in_locks := lt\<rparr>)" for lt by (simp add: within_rights_def list_all2_same)
  show "ensures (within_rights msg inst) (handle_lock env inst msg resp)"
    "ensures (within_rights msg inst) (handle_unlock inst msg resp)"
    "ensures (within_rights msg inst) (handle_keepalive env inst msg resp)"
    by (auto simp: handle_lock_def handle_unlock_def handle_keepalive_def lock_headers_def Let_def lt
        intro!: ensures_intros split: option.splits prod.splits)
qed

lemma storage_rights: "ensures (within_rights msg inst) (handle_storage_provider env inst rest resp)"
proof -
  have "within_rights msg inst (log_effects es inst)" for es by (simp add: within_rights_def log_effects_def list_all2_same)
  then show ?thesis
    by (auto simp: handle_storage_provider_def handle_storage_status_def handle_storage_sync_def Let_def
        intro!: ensures_intros split: option.splits prod.splits)
qed

lemma users_rights:
  assumes "\<not> caller_is_admin msg"
  shows "ensures (within_rights msg inst) (handle_users_path env inst rest msg resp)"
    and "ensures (within_rights msg inst) (handle_groups_path env inst rest msg resp)"
    and "ensures (within_rights msg inst) (handle_config_set env inst msg resp)"
proof -
  have "ensures (within_rights msg inst) (handle_user_password env inst name msg resp)" for name
    using assms by (auto simp: handle_user_password_def own_password_rights intro!: ensures_intros split: option.splits)
  with assms show "ensures (within_rights msg inst) (handle_users_path env inst rest msg resp)"
    by (auto simp: handle_users_path_def handle_user_set_def reading_rights split: prod.splits)
  from assms show "ensures (within_rights msg inst) (handle_groups_path env inst rest msg resp)"
    by (auto simp: handle_groups_path_def handle_group_member_def handle_group_set_def reading_rights split: prod.splits)
  from assms show "ensures (within_rights msg inst) (handle_config_set env inst msg resp)" by (simp add: handle_config_set_def)
qed

lemmas rights = reading_rights login_rights session_rights event_rights lock_rights storage_rights users_rights

lemma core_rights:
  "\<not> caller_is_admin msg \<Longrightarrow> ensures (within_rights msg inst) (core_handle_message env send inst path msg resp)"
  by (simp add: core_handle_message_def handle_auth_path_def handle_data_path_def handle_locks_path_def rights)

lemma ensures_mono: "ensures P r \<Longrightarrow> (\<And>inst. P inst \<Longrightarrow> Q inst) \<Longrightarrow> ensures Q r"
  by (auto simp: ensures_def split: sum.splits prod.splits)

text \<open>Administrators included, no handler but the one for modules depends on nested messages.\<close>

lemma core_shallow:
  assumes "under ''/core/modules/'' path \<Longrightarrow> ensures (\<lambda>_. True) (handle_module_action env send inst (drop 14 path) msg resp)"
  shows "ensures (\<lambda>_. True) (core_handle_message env send inst path msg resp)"
proof -
  note any = ensures_mono [where Q = "\<lambda>_. True", OF _ TrueI]
  have pw: "ensures (\<lambda>_. True) (handle_user_password env inst name msg resp)"
    "ensures (\<lambda>_. True) (handle_user_set env inst name msg resp)" for name
    by (auto simp: handle_user_password_def handle_user_set_def Let_def intro!: ensures_intros split: option.splits prod.splits)
  have grp: "ensures (\<lambda>_. True) (handle_group_member env c v p inst name msg resp)"
    "ensures (\<lambda>_. True) (handle_group_set env inst name msg resp)" for name c v p
    by (auto simp: handle_group_member_def handle_group_set_def Let_def intro!: ensures_intros split: option.splits)
  have "ensures (\<lambda>_. True) (handle_users_path env inst rest msg resp)"
    "ensures (\<lambda>_. True) (handle_groups_path env inst rest msg resp)" for rest
    by (simp_all add: handle_users_path_def handle_groups_path_def pw grp reading_rights [THEN any] split: prod.splits)
  moreover have "ensures (\<lambda>_. True) (handle_config_set env inst msg resp)"
    by (auto simp: handle_config_set_def Let_def intro!: ensures_intros split: option.splits)
  ultimately show ?thesis
    using assms reading_rights [THEN any] login_rights [THEN any] session_rights [THEN any] event_rights [THEN any]
      lock_rights [THEN any] storage_rights [THEN any]
    by (simp add: core_handle_message_def handle_auth_path_def handle_data_path_def handle_locks_path_def)
qed

subsection \<open>Properties\<close>

text \<open>
  Property C7. A request that the core handles for a caller who is neither root nor in the
  group hub-admin changes no configuration, path, module, watched descriptor, storage provider
  or trace, neither adds, removes nor renames an account, changes no label, no password but the
  caller's own, and no file but the caller's own account file.
\<close>

theorem core_mutation_gate:
  assumes "\<not> caller_is_admin msg" and "core_handle_message env send inst path msg resp = Inr (rc, resp', inst')"
  shows "within_rights msg inst inst'"
  using core_rights [OF assms(1), of inst env send path resp] assms(2) by (simp add: ensures_def)


theorem core_mutation_gate_witness:
  "within_rights \<lparr>msg_id = 0, msg_path = None, msg_method = 2, msg_headers = [], msg_body = [], msg_ctx = None\<rparr>
     (snd (portal_instance_init Map.empty 1 [])) (snd (portal_instance_init Map.empty 1 []))"
  (is "within_rights ?m ?i ?i")
proof -
  have "core_handle_message env (api :: send_fn) ?i ''/users/ann'' ?m portal_resp_alloc =
      Inr (-1, portal_resp_set_status portal_resp_alloc 403, ?i)" for env api
    by (simp add: core_handle_message_def handle_auth_path_def handle_data_path_def under_def strncmp_eq_def
        handle_users_path_def split_name_def strchr_split_def handle_user_set_def caller_is_admin_def answer_def)
  then show ?thesis using core_mutation_gate [of ?m] by (simp add: caller_is_admin_def)
qed

lemma resolve_prefix_cb_iff: "resolve_prefix_cb pre key \<longleftrightarrow> key = pre \<or> prefix (pre @ ''/'') key"
proof (cases "prefix pre key")
  case True
  then obtain s where "key = pre @ s" by (auto simp: prefix_def)
  then show ?thesis by (cases s) (auto simp: resolve_prefix_cb_def strncmp_eq_prefix)
next
  case False
  then show ?thesis by (auto simp: resolve_prefix_cb_def strncmp_eq_prefix dest: append_prefixD)
qed

lemma fold_any: "fold (\<lambda>(k, v) m. m \<or> Q k) xs b \<longleftrightarrow> b \<or> (\<exists>k v. (k, v) \<in> set xs \<and> Q k)"
  by (induction xs arbitrary: b) auto

lemma resolve_exists_iff:
  assumes "tree_ok tree"
  shows "resolve_exists tree r \<longleftrightarrow> (\<exists>p. portal_path_lookup tree p \<noteq> None \<and> (p = r \<or> prefix (r @ ''/'') p))"
proof -
  have ok: "ht_ok (tree_table tree)" using assms by (simp add: tree_ok_def)
  have "(\<exists>v. (p, v) \<in> set (ht_items (ht_entries (tree_table tree)))) \<longleftrightarrow> portal_path_lookup tree p \<noteq> None" for p
    using ht_ok_items [OF ok, of p] by (auto simp: portal_path_lookup_def split: option.splits)
  then show ?thesis
    by (auto simp: resolve_exists_def portal_ht_iter_def fold_any resolve_prefix_cb_iff)
qed

text \<open>
  Changing directory succeeds exactly for places that exist: the resolved path is
  returned when it is the root, a registered path, or a proper prefix of a registered path that
  ends at a slash, and any other path is answered with 404; the instance does not change.
\<close>

lemma resolve_existing_only:
  assumes "tree_ok (in_paths inst)" and "keys_present (msg_headers msg)"
    and "resolve_text (last_header_or (msg_headers msg) ''cwd'' (Some ''/''))
           (last_header_or (msg_headers msg) ''target'' (Some [])) = Inr r"
  defines "dir \<equiv> strip_slash r"
  shows "handle_resolve inst msg resp =
    (if dir = ''/'' \<or> (\<exists>p. portal_path_lookup (in_paths inst) p \<noteq> None \<and> (p = dir \<or> prefix (dir @ ''/'') p))
     then Inr (0, resp\<lparr>resp_status := 200, resp_body := dir @ [CHR 0x00]\<rparr>, inst)
     else Inr (-1, resp\<lparr>resp_status := 404\<rparr>, inst))"
  using assms(2,3)
  by (simp add: handle_resolve_def all_headers_def answer_defs dir_def portal_resp_set_status_def portal_resp_set_body_def
      resolve_exists_iff [OF assms(1)] Let_def)

lemma locks_append_fold:
  "fold locks_append ps (Inr t) =
     (if ps \<noteq> [] \<and> 4096 < length (t @ concat (butlast ps)) then Inl Over_write else Inr (t @ concat ps))"
proof (induction ps arbitrary: t)
  case (Cons p ps)
  have fault: "fold locks_append qs (Inl e) = Inl e" for qs e by (induction qs) (simp_all add: locks_append_def)
  have "locks_append p (Inr t) = (if 4096 < length t then Inl Over_write else Inr (t @ p))" by (simp add: locks_append_def)
  then show ?case using Cons.IH [of "t @ p"] by (auto simp: fault)
qed simp

lemma length_lock_line: "84 \<le> length (lock_line now l)"
proof -
  have "0 < length (dec i)" for i using dec_nat_hd [of "nat i"] by (auto simp: dec_def)
  then have "1 \<le> length (dec i)" for i by (simp add: Suc_le_eq)
  from this [of "now - lk_locked_at l"] this [of "now - lk_last_keepalive l"] show ?thesis
    by (simp add: lock_line_def pad_def)
qed

text \<open>
  As soon as 50 resources are locked, listing the locks without a filter writes
  outside its buffer: every line has at least 84 bytes, the offset passes the 4096 bytes, and
  the size that is left wraps around.
\<close>

lemma locks_list_overflow:
  assumes "keys_present (msg_headers msg)" and "last_header (msg_headers msg) ''resource'' = None"
    and "50 \<le> length (filter lk_active (lt_locks (in_locks inst)))"
  shows "handle_locks_list env inst msg resp = Inl Over_write"
proof -
  let ?found = "filter lk_active (lt_locks (in_locks inst))"
  let ?ps = "map (lock_line (sint (ev_now env))) ?found"
  have sum: "84 * length xs \<le> length (concat (map (lock_line now) xs))" for xs now
    using length_lock_line by (induction xs) (auto intro: add_mono)
  have "84 * 49 \<le> 84 * length (butlast ?found)" using assms(3) by simp
  also have "\<dots> \<le> length (concat (map (lock_line (sint (ev_now env))) (butlast ?found)))" by (rule sum)
  finally have "4096 < length ((''Resource locks:'' @ NL) @ concat (butlast ?ps))" by (simp add: map_butlast)
  moreover have "?ps \<noteq> []" using assms(3) by auto
  ultimately have "fold locks_append ?ps (Inr (''Resource locks:'' @ NL)) = Inl Over_write" by (subst locks_append_fold) simp
  then have "fold (\<lambda>l. locks_append (lock_line (sint (ev_now env)) l)) ?found (Inr (''Resource locks:'' @ NL)) = Inl Over_write"
    by (simp add: fold_map comp_def)
  moreover have "?found \<noteq> []" using assms(3) by auto
  ultimately show ?thesis
    using assms(1,2) by (simp add: handle_locks_list_def all_headers_def Let_def)
qed

end
