(* ===== verification/Router.thy ===== *)
theory Router
  imports Handlers
begin

section \<open>The message router (portal_instance.c)\<close>

text \<open>
  \<open>api_send\<close> of \<^verbatim>\<open>src/core/portal_instance.c\<close>, in the order of the code: the trace fields of the
  context, the strip of the node's own name, the fan-out of events, the search for the module
  of a path, the label check, and the call of the core or of a module handler under the crash
  guard. The core itself sends one kind of message, the login of a module that is being
  loaded, so \<open>api_send_rec\<close> takes the depth of such nested calls; \<open>api_send\<close> is depth 2, which
  is shown to be always enough.
\<close>

subsection \<open>Preparing a message\<close>

definition stamp_ctx :: "env \<Rightarrow> portal_msg \<Rightarrow> portal_instance \<Rightarrow> portal_msg \<times> portal_instance" where
  "stamp_ctx env msg inst =
     (let c = (case msg_ctx msg of None \<Rightarrow> ctx_zero | Some c \<Rightarrow> c);
          (tid, g) = (if trace_id (ctx_trace c) = 0 then portal_msg_next_id (in_msg_id inst)
                      else (trace_id (ctx_trace c), in_msg_id inst));
          tr = (ctx_trace c)\<lparr>trace_id := tid, timestamp_us := ev_us env, hops := hops (ctx_trace c) + 1\<rparr>
      in (msg\<lparr>msg_ctx := Some (c\<lparr>ctx_trace := tr\<rparr>)\<rparr>, inst\<lparr>in_msg_id := g\<rparr>))"

definition own_name :: "portal_config \<Rightarrow> string option" where
  "own_name cfg =
     (case portal_config_get cfg ''mod_node'' ''node_name'' of
        Some n \<Rightarrow> Some n
      | None \<Rightarrow> portal_config_get cfg ''node'' ''node_name'')"

definition strip_own :: "portal_config \<Rightarrow> string \<Rightarrow> string" where
  "strip_own cfg path =
     (case own_name cfg of
        None \<Rightarrow> path
      | Some n \<Rightarrow>
          (let rest = drop (length n + 1) path
           in if n \<noteq> [] \<and> path \<noteq> [] \<and> hd path = CHR ''/'' \<and> strncmp_eq (tl path) n (length n) \<and>
                 (rest = [] \<or> hd rest = CHR ''/'')
              then csnprintf PORTAL_MAX_PATH_LEN (if rest \<noteq> [] then rest else ''/'') else path))"

definition trace_inst :: "env \<Rightarrow> portal_msg \<Rightarrow> portal_resp option \<Rightarrow> portal_instance \<Rightarrow> portal_instance" where
  "trace_inst env msg resp inst =
     (case trace_message (ev_write_ok env) (ev_editor env) (in_trace_subs inst) msg resp of
        (subs, ws) \<Rightarrow> log_effects (map Traced ws) (inst\<lparr>in_trace_subs := subs\<rparr>))"

definition publish :: "env \<Rightarrow> string \<Rightarrow> portal_msg \<Rightarrow> portal_instance \<Rightarrow> portal_instance" where
  "publish env path msg inst =
     (if msg_method msg = PORTAL_METHOD_EVENT then snd (api_event_emit env inst path (msg_body msg)) else inst)"

subsection \<open>Finding the module\<close>

definition core_prefix :: "string \<Rightarrow> bool" where
  "core_prefix path \<longleftrightarrow>
     under ''/core/'' path \<or> under ''/auth/'' path \<or> under ''/events/'' path \<or> under ''/users/'' path \<or> under ''/groups/'' path"

function wild_loop :: "portal_path_tree \<Rightarrow> string \<Rightarrow> string option" where
  "wild_loop tree wild =
     (case strrchr CHR ''/'' wild of
        None \<Rightarrow> None
      | Some i \<Rightarrow>
          (case portal_path_lookup tree (take (i + 1) wild @ csnprintf (PORTAL_MAX_PATH_LEN - i - 1) ''*'') of
             Some m \<Rightarrow> Some m
           | None \<Rightarrow> wild_loop tree (take i wild)))"
  by pat_completeness auto
termination
  by (relation "measure (\<lambda>(tree, wild). length wild)") (auto elim: strrchr_Some)

declare wild_loop.simps [simp del]

definition find_route :: "portal_path_tree \<Rightarrow> string \<Rightarrow> string option" where
  "find_route tree path =
     (case portal_path_lookup tree path of
        Some m \<Rightarrow> Some m
      | None \<Rightarrow>
          if core_prefix path then Some ''core''
          else case wild_loop tree (csnprintf PORTAL_MAX_PATH_LEN path) of
            Some m \<Rightarrow> Some m
          | None \<Rightarrow> portal_path_lookup tree ''/*'')"

definition access_denied :: "portal_path_tree \<Rightarrow> string \<Rightarrow> portal_ctx option \<Rightarrow> bool" where
  "access_denied tree path ctx \<longleftrightarrow> portal_path_lookup tree path \<noteq> None \<and> \<not> portal_path_check_access tree path ctx"

subsection \<open>Calling a module\<close>

definition mark_inst :: "nat \<Rightarrow> (module_entry \<Rightarrow> module_entry) \<Rightarrow> portal_instance \<Rightarrow> portal_instance" where
  "mark_inst i f inst = inst\<lparr>in_modules := module_mark (in_modules inst) i f\<rparr>"

definition enter_module :: "env \<Rightarrow> nat \<Rightarrow> portal_instance \<Rightarrow> portal_instance" where
  "enter_module env i =
     mark_inst i (\<lambda>e. e\<lparr>me_use_count := me_use_count e + 1, me_msg_count := me_msg_count e + 1, me_last_msg_us := ev_us env\<rparr>)"

definition call_module :: "env \<Rightarrow> nat \<Rightarrow> portal_msg \<Rightarrow> portal_resp \<Rightarrow> portal_instance \<Rightarrow> handler_result" where
  "call_module env i msg resp inst =
     (case me_lib (mr_entries (in_modules inst) ! i) of
        None \<Rightarrow> Inl Null_deref
      | Some lib \<Rightarrow>
          (case ev_handle env lib msg resp (enter_module env i inst) of
             Returned rc resp inst \<Rightarrow> Inr (rc, resp, mark_inst i (\<lambda>e. e\<lparr>me_use_count := me_use_count e - 1\<rparr>) inst)
           | Crashed nested resp inst \<Rightarrow>
               if nested then Inl Killed
               else Inr (-1, portal_resp_set_body (portal_resp_set_status resp PORTAL_INTERNAL_ERROR) (''Module crashed'' @ NL @ [NUL]),
                         mark_inst i (\<lambda>e. e\<lparr>me_loaded := False, me_use_count := me_use_count e - 1\<rparr>) inst)))"

definition dispatch ::
    "env \<Rightarrow> send_fn \<Rightarrow> string \<Rightarrow> string \<Rightarrow> portal_msg \<Rightarrow> portal_resp \<Rightarrow> portal_instance \<Rightarrow>
     (int \<times> portal_msg \<times> portal_resp \<times> portal_instance) outcome" where
  "dispatch env send mod_name path msg resp inst =
     (let finish = (\<lambda>(rc, resp, inst). Inr (rc, msg, resp, trace_inst env msg (Some resp) inst))
      in if mod_name = ''core'' then obind (core_handle_message env send inst path msg resp) finish
         else case portal_module_find (in_modules inst) mod_name of
           None \<Rightarrow> Inr (-1, msg, portal_resp_set_status resp PORTAL_UNAVAILABLE, inst)
         | Some i \<Rightarrow>
             let e = mr_entries (in_modules inst) ! i
             in if \<not> me_loaded e \<or> me_unloading e then Inr (-1, msg, portal_resp_set_status resp PORTAL_UNAVAILABLE, inst)
                else obind (call_module env i msg resp inst) finish)"

subsection \<open>Sending\<close>

definition prepare :: "env \<Rightarrow> string \<Rightarrow> portal_msg \<Rightarrow> portal_instance \<Rightarrow> string \<times> portal_msg \<times> portal_instance" where
  "prepare env path msg inst =
     (let (msg, inst) = stamp_ctx env msg inst;
          path = strip_own (in_config inst) path;
          msg = msg\<lparr>msg_path := Some path\<rparr>
      in (path, msg, publish env path msg (trace_inst env msg None inst)))"

definition api_send_with :: "env \<Rightarrow> send_fn \<Rightarrow> send_fn" where
  "api_send_with env send msg resp inst =
     (case msg_path msg of
        None \<Rightarrow> Inl Null_deref
      | Some path \<Rightarrow>
          (case prepare env path msg inst of
             (path, msg, inst) \<Rightarrow>
               (case find_route (in_paths inst) path of
                  None \<Rightarrow> Inr (-1, msg, portal_resp_set_status resp PORTAL_NOT_FOUND, inst)
                | Some mod_name \<Rightarrow>
                    if access_denied (in_paths inst) path (msg_ctx msg)
                    then Inr (-1, msg, portal_resp_set_status resp PORTAL_FORBIDDEN, inst)
                    else dispatch env send mod_name path msg resp inst)))"

primrec api_send_rec :: "nat \<Rightarrow> env \<Rightarrow> send_fn" where
  "api_send_rec 0 env = (\<lambda>msg resp inst. Inl Too_deep)"
| "api_send_rec (Suc n) env = api_send_with env (api_send_rec n env)"

definition api_send :: "env \<Rightarrow> send_fn" where
  "api_send env = api_send_rec 2 env"

subsection \<open>Nested messages\<close>

lemma under_length: "under pre path \<Longrightarrow> length pre \<le> length path"
  by (auto simp: under_def strncmp_eq_prefix prefix_length_le)

lemma length_strip_own: "path \<noteq> [] \<Longrightarrow> length (strip_own cfg path) \<le> length path"
  by (auto simp: strip_own_def csnprintf_def Let_def Suc_le_eq split: option.splits)

lemma login_not_module_path: "\<not> under ''/core/modules/'' (strip_own cfg ''/auth/login'')"
  using under_length [of "''/core/modules/''" "strip_own cfg ''/auth/login''"] length_strip_own [of "''/auth/login''" cfg] by auto

lemma core_handle_message_send:
  "\<not> under ''/core/modules/'' path \<Longrightarrow> core_handle_message env s inst path msg resp = core_handle_message env s' inst path msg resp"
  by (simp add: core_handle_message_def)

lemma prepare_path: "fst (prepare env path msg inst) = strip_own (in_config inst) path"
  by (simp add: prepare_def stamp_ctx_def Let_def split: prod.splits)

lemma api_send_with_login:
  assumes "msg_path msg = Some ''/auth/login''"
  shows "api_send_with env s msg resp inst = api_send_with env s' msg resp inst"
proof -
  obtain p m i where prep: "prepare env ''/auth/login'' msg inst = (p, m, i)" by (metis prod_cases3)
  then have "\<not> under ''/core/modules/'' p"
    using prepare_path [of env "''/auth/login''" msg inst] login_not_module_path by simp
  then have "dispatch env s n p m resp i = dispatch env s' n p m resp i" for n
    by (simp add: dispatch_def Let_def core_handle_message_send [of p env s i m resp s'])
  then show ?thesis by (simp add: api_send_with_def assms prep split: option.splits)
qed

lemma module_login_cong:
  assumes "\<And>msg resp inst. msg_path msg = Some ''/auth/login'' \<Longrightarrow> s msg resp inst = s' msg resp inst"
  shows "module_login s u k inst = module_login s' u k inst"
proof -
  have "msg_path (snd (portal_msg_add_header (snd (portal_msg_add_header m k1 v1)) k2 v2)) = msg_path m" for m k1 v1 k2 v2
    by (simp add: portal_msg_add_header_def)
  then show ?thesis
    by (auto simp: module_login_def portal_msg_set_path_def portal_msg_set_method_def Let_def assms split: prod.splits)
qed

lemma api_send_with_cong:
  assumes "\<And>msg resp inst. msg_path msg = Some ''/auth/login'' \<Longrightarrow> s msg resp inst = s' msg resp inst"
  shows "api_send_with env s = api_send_with env s'"
proof -
  have login: "module_login s = module_login s'" by (intro ext module_login_cong assms)
  have load: "portal_module_do_load env s = portal_module_do_load env s'"
    by (intro ext) (unfold portal_module_do_load_def login, rule refl)
  have core: "core_handle_message env s = core_handle_message env s'"
    by (intro ext) (unfold core_handle_message_def handle_module_action_def module_action_def portal_module_do_reload_def load, rule refl)
  show ?thesis by (intro ext) (unfold api_send_with_def dispatch_def core, rule refl)
qed

lemma dispatch_shallow:
  assumes "ensures (\<lambda>_. True) (core_handle_message env s inst path msg resp)"
  shows "dispatch env s n path msg resp inst \<noteq> Inl Too_deep"
  using assms
  by (auto simp: dispatch_def call_module_def obind_def ensures_def Let_def split: option.splits handled.splits sum.splits prod.splits if_splits)

lemma api_send_with_shallow:
  assumes "\<And>msg resp inst. msg_path msg = Some ''/auth/login'' \<Longrightarrow> s msg resp inst \<noteq> Inl Too_deep"
  shows "api_send_with env s msg resp inst \<noteq> Inl Too_deep"
proof -
  have login: "module_login s u k i \<noteq> Inl Too_deep" for u k i
    using assms
    by (auto simp: module_login_def obind_def portal_msg_set_path_def portal_msg_set_method_def portal_msg_add_header_def
        portal_msg_alloc_def portal_msg_next_id_def Let_def split: sum.splits)
  have load: "portal_module_do_load env s i n \<noteq> Inl Too_deep" for i n
    using login
    by (auto simp: portal_module_do_load_def module_register_def obind_def Let_def split: option.splits sum.splits prod.splits)
  then have "portal_module_do_reload env s i n \<noteq> Inl Too_deep" for i n
    by (auto simp: portal_module_do_reload_def obind_def split: sum.splits prod.splits)
  with load have "ensures (\<lambda>_. True) (handle_module_action env s i n m r)" for i n m r
    by (auto simp: handle_module_action_def module_action_def Let_def case_prod_beta intro!: ensures_intros
        split: option.splits if_splits)
  then have "dispatch env s n p m r i \<noteq> Inl Too_deep" for n p m r i by (intro dispatch_shallow core_shallow)
  then show ?thesis by (simp add: api_send_with_def split: option.splits prod.splits)
qed

lemma api_send_login_shallow:
  assumes "msg_path msg = Some ''/auth/login''"
  shows "api_send_rec (Suc n) env msg resp inst \<noteq> Inl Too_deep"
proof -
  have "api_send_with env (\<lambda>m r i. Inl Null_deref) msg resp inst \<noteq> Inl Too_deep" by (rule api_send_with_shallow) simp
  then show ?thesis by (simp add: api_send_with_login [OF assms, of env "api_send_rec n env" resp inst "\<lambda>m r i. Inl Null_deref"])
qed

lemma api_send_rec_stable: "api_send_rec (Suc (Suc n)) env = api_send_rec 2 env"
proof -
  have "api_send_rec (Suc n) env msg resp inst = api_send_rec 1 env msg resp inst"
    if "msg_path msg = Some ''/auth/login''" for msg resp inst
    using api_send_with_login [OF that] by simp
  then have "api_send_with env (api_send_rec (Suc n) env) = api_send_with env (api_send_rec 1 env)" by (rule api_send_with_cong)
  then show ?thesis by (simp add: numeral_2_eq_2)
qed


subsection \<open>What sending does before the dispatch\<close>

definition same_state :: "portal_instance \<Rightarrow> portal_instance \<Rightarrow> bool" where
  "same_state inst inst' \<longleftrightarrow>
     in_config inst' = in_config inst \<and> in_paths inst' = in_paths inst \<and> in_modules inst' = in_modules inst \<and>
     in_events inst' = in_events inst \<and> in_auth inst' = in_auth inst \<and> in_store inst' = in_store inst \<and>
     in_storage inst' = in_storage inst \<and> in_locks inst' = in_locks inst \<and> in_fs inst' = in_fs inst \<and> in_rnd inst' = in_rnd inst \<and>
     in_statics inst' = in_statics inst"

lemma same_state_trace: "same_state inst (trace_inst env msg resp inst)"
  by (simp add: same_state_def trace_inst_def log_effects_def split: prod.splits)

lemma same_state_publish: "same_state inst (publish env path msg inst)"
  by (simp add: same_state_def publish_def api_event_emit_def log_effects_def split: prod.splits)

lemma same_state_trans: "same_state a b \<Longrightarrow> same_state b c \<Longrightarrow> same_state a c"
  by (simp add: same_state_def)

definition stamped :: "portal_msg \<Rightarrow> portal_msg \<Rightarrow> bool" where
  "stamped msg msg' \<longleftrightarrow>
     msg_method msg' = msg_method msg \<and> msg_headers msg' = msg_headers msg \<and> msg_body msg' = msg_body msg \<and>
     (\<exists>c. msg_ctx msg' = Some c \<and> ctx_auth c = ctx_auth (case msg_ctx msg of None \<Rightarrow> ctx_zero | Some c \<Rightarrow> c))"

lemma prepareE:
  obtains msg' inst' where
    "prepare env path msg inst = (strip_own (in_config inst) path, msg', inst')"
    "same_state inst inst'" "stamped msg msg'" "msg_path msg' = Some (strip_own (in_config inst) path)"
    "msg_method msg \<noteq> PORTAL_METHOD_EVENT \<Longrightarrow> in_events_reg inst' = in_events_reg inst"
proof -
  have "\<exists>m g. stamp_ctx env msg inst = (m, inst\<lparr>in_msg_id := g\<rparr>) \<and> stamped msg m"
    by (simp add: stamp_ctx_def stamped_def Let_def case_prod_beta) (auto intro: exI [of _ "in_msg_id inst"])
  then obtain m g where st: "stamp_ctx env msg inst = (m, inst\<lparr>in_msg_id := g\<rparr>)" and m: "stamped msg m" by blast
  let ?p = "strip_own (in_config inst) path" and ?m = "m\<lparr>msg_path := Some (strip_own (in_config inst) path)\<rparr>"
  let ?g = "inst\<lparr>in_msg_id := g\<rparr>"
  let ?i = "publish env ?p ?m (trace_inst env ?m None ?g)"
  have eq: "prepare env path msg inst = (?p, ?m, ?i)" by (simp add: prepare_def st Let_def)
  have "same_state inst ?g" by (simp add: same_state_def)
  then have ss: "same_state inst ?i"
    by (rule same_state_trans [OF same_state_trans [OF _ same_state_trace] same_state_publish])
  have sm: "stamped msg ?m" using m by (simp add: stamped_def)
  have ev: "in_events_reg ?i = in_events_reg inst" if "msg_method msg \<noteq> PORTAL_METHOD_EVENT"
    using that m by (simp add: publish_def trace_inst_def log_effects_def stamped_def split: prod.splits)
  show thesis by (rule that [OF eq ss sm _ ev]) simp_all
qed

lemma access_stamped:
  assumes "stamped msg msg'"
  shows "access_denied tree path (msg_ctx msg') = access_denied tree path (msg_ctx msg)"
proof -
  obtain c where "msg_ctx msg' = Some c" "ctx_auth c = ctx_auth (case msg_ctx msg of None \<Rightarrow> ctx_zero | Some c \<Rightarrow> c)"
    using assms by (auto simp: stamped_def)
  then show ?thesis
    by (cases "msg_ctx msg") (auto simp: access_denied_def check_access_rule access_rule_def ctx_is_root_def ctx_zero_def)
qed

lemma api_send_unfold: "api_send env = api_send_with env (api_send_rec 1 env)"
  by (simp add: api_send_def numeral_2_eq_2)

text \<open>A request for a module: what happens around the call of its handler.\<close>

lemma api_send_module:
  assumes "msg_path msg = Some path" "strip_own (in_config inst) path = p" "find_route (in_paths inst) p = Some m" "m \<noteq> ''core''"
    "portal_module_find (in_modules inst) m = Some i" "me_loaded (mr_entries (in_modules inst) ! i)"
    "\<not> me_unloading (mr_entries (in_modules inst) ! i)"
    "\<not> access_denied (in_paths inst) p (msg_ctx msg)"
  obtains msg' inst' where "same_state inst inst'" "stamped msg msg'" "msg_path msg' = Some p"
    "api_send_with env s msg resp inst =
       obind (call_module env i msg' resp inst') (\<lambda>(rc, resp, inst). Inr (rc, msg', resp, trace_inst env msg' (Some resp) inst))"
proof (rule prepareE [of env path msg inst])
  fix msg' inst'
  assume prep: "prepare env path msg inst = (strip_own (in_config inst) path, msg', inst')" "same_state inst inst'"
    "stamped msg msg'" "msg_path msg' = Some (strip_own (in_config inst) path)"
  have "\<not> access_denied (in_paths inst) p (msg_ctx msg')" using access_stamped [OF prep(3)] assms(8) by simp
  with prep assms have "api_send_with env s msg resp inst =
       obind (call_module env i msg' resp inst') (\<lambda>(rc, resp, inst). Inr (rc, msg', resp, trace_inst env msg' (Some resp) inst))"
    by (simp add: api_send_with_def dispatch_def same_state_def Let_def)
  with prep assms(2) show thesis by (intro that) simp_all
qed

lemma call_module_eq:
  assumes "me_lib (mr_entries (in_modules inst) ! i) = Some lib"
  shows "ev_handle env lib msg resp (enter_module env i inst) = Returned rc r inst' \<Longrightarrow>
           call_module env i msg resp inst = Inr (rc, r, mark_inst i (\<lambda>e. e\<lparr>me_use_count := me_use_count e - 1\<rparr>) inst')"
    and "ev_handle env lib msg resp (enter_module env i inst) = Crashed True r inst' \<Longrightarrow> call_module env i msg resp inst = Inl Killed"
    and "ev_handle env lib msg resp (enter_module env i inst) = Crashed False r inst' \<Longrightarrow>
           call_module env i msg resp inst =
             Inr (-1, r\<lparr>resp_status := 500, resp_body := ''Module crashed'' @ NL @ [NUL]\<rparr>,
                  mark_inst i (\<lambda>e. e\<lparr>me_loaded := False, me_use_count := me_use_count e - 1\<rparr>) inst')"
  using assms by (simp_all add: call_module_def portal_resp_set_status_def portal_resp_set_body_def)


subsection \<open>Routes\<close>

text \<open>A decomposition of a path at a slash: the prefixes whose wildcards the loop tries.\<close>

definition cuts :: "string \<Rightarrow> string set" where
  "cuts w = {p. \<exists>s. w = p @ CHR ''/'' # s}"

lemma cuts_strrchr:
  assumes "strrchr CHR ''/'' w = Some i"
  shows "cuts w = insert (take i w) (cuts (take i w))" and "i < length w" and "p \<in> cuts (take i w) \<Longrightarrow> length p < i"
    and "take (i + 1) w = take i w @ ''/''"
proof -
  obtain t where t: "w = take i w @ CHR ''/'' # t" "CHR ''/'' \<notin> set t" "i < length w" using assms by (rule strrchr_Some)
  define q where "q = take i w"
  have w: "w = q @ CHR ''/'' # t" and q: "length q = i" using t by (simp_all add: q_def)
  have "(q @ CHR ''/'' # t = p @ CHR ''/'' # s) \<longleftrightarrow> (p = q \<and> s = t) \<or> (\<exists>s'. q = p @ CHR ''/'' # s' \<and> s = s' @ CHR ''/'' # t)" for p s
    using t(2) by (auto simp: append_eq_append_conv2 Cons_eq_append_conv append_eq_Cons_conv)
  then show "cuts w = insert (take i w) (cuts (take i w))"
    unfolding q_def [symmetric] unfolding w cuts_def by blast
  show "i < length w" by (rule t(3))
  show "length p < i" if "p \<in> cuts (take i w)"
  proof -
    from that obtain s where "q = p @ CHR ''/'' # s" unfolding q_def [symmetric] by (auto simp: cuts_def)
    with q show ?thesis by auto
  qed
  show "take (i + 1) w = take i w @ ''/''" unfolding q_def [symmetric] unfolding w by (simp add: q)
qed

lemma cuts_None: "strrchr CHR ''/'' w = None \<Longrightarrow> cuts w = {}"
  by (auto simp: strrchr_def cuts_def split: if_splits)

lemma longest_insert:
  fixes L :: "'a list \<Rightarrow> 'b option"
  assumes "\<And>p. p \<in> C \<Longrightarrow> length p < length q"
  shows "(\<exists>p\<in>insert q C. L p = Some m \<and> (\<forall>p'\<in>insert q C. length p < length p' \<longrightarrow> L p' = None)) \<longleftrightarrow>
    (case L q of Some m' \<Rightarrow> m' = m
     | None \<Rightarrow> (\<exists>p\<in>C. L p = Some m \<and> (\<forall>p'\<in>C. length p < length p' \<longrightarrow> L p' = None)))"
proof (cases "L q")
  case None
  then show ?thesis using assms by auto
next
  case (Some m')
  have "\<not> length q < length p'" if "p' \<in> insert q C" for p' using that assms [of p'] by auto
  with Some assms show ?thesis by auto
qed

lemma wild_loop_longest:
  assumes "length w < 1023"
  shows "wild_loop tree w = Some m \<longleftrightarrow>
    (\<exists>p\<in>cuts w. portal_path_lookup tree (p @ ''/*'') = Some m \<and>
       (\<forall>p'\<in>cuts w. length p < length p' \<longrightarrow> portal_path_lookup tree (p' @ ''/*'') = None))"
  using assms
proof (induction tree w rule: wild_loop.induct)
  case (1 tree w)
  show ?case
  proof (cases "strrchr CHR ''/'' w")
    case None
    then show ?thesis by (subst wild_loop.simps) (simp add: cuts_None)
  next
    case (Some i)
    note c = cuts_strrchr [OF Some]
    define q where "q = take i w"
    have q: "length q = i" using c(2) by (simp add: q_def)
    have key: "take (i + 1) w @ csnprintf (1024 - i - 1) ''*'' = q @ ''/*''"
      using 1(2) c(2,4) by (simp add: csnprintf_def q_def)
    have "length p < length q" if "p \<in> cuts q" for p using c(3) that q by (simp add: q_def)
    note ins = longest_insert [of "cuts q" q "\<lambda>p. portal_path_lookup tree (p @ ''/*'')" m, OF this,
        unfolded c(1) [folded q_def, symmetric]]
    show ?thesis
    proof (cases "portal_path_lookup tree (q @ ''/*'')")
      case (Some m')
      have "wild_loop tree w = Some m'" using \<open>strrchr _ w = _\<close> key Some by (subst wild_loop.simps) simp
      then show ?thesis using ins Some by simp
    next
      case None
      have "wild_loop tree w = wild_loop tree q"
        using \<open>strrchr _ w = _\<close> key None by (subst wild_loop.simps) (simp add: q_def)
      moreover have "length q < 1023" using 1(2) c(2) q by simp
      ultimately show ?thesis
        using ins None 1(1) [OF \<open>strrchr _ w = _\<close>, unfolded key, OF None, folded q_def] by simp
    qed
  qed
qed

lemma wild_loop_None:
  assumes "length w < 1023" "p \<in> cuts w" "portal_path_lookup tree (p @ ''/*'') \<noteq> None"
  shows "wild_loop tree w \<noteq> None"
proof -
  let ?S = "{p \<in> cuts w. portal_path_lookup tree (p @ ''/*'') \<noteq> None}"
  have "length ` ?S \<subseteq> {..length w}" by (auto simp: cuts_def)
  then have fin: "finite (length ` ?S)" by (rule finite_subset) simp
  have "length ` ?S \<noteq> {}" using assms(2,3) by blast
  then have "Max (length ` ?S) \<in> length ` ?S" by (rule Max_in [OF fin])
  then obtain q where q: "q \<in> ?S" "length q = Max (length ` ?S)" by (elim imageE) simp
  have "portal_path_lookup tree (p' @ ''/*'') = None" if "p' \<in> cuts w" "length q < length p'" for p'
    using Max_ge [OF fin, of "length p'"] that q(2) by fastforce
  with q(1) wild_loop_longest [OF assms(1), of tree] show ?thesis by blast
qed

subsection \<open>Properties\<close>

text \<open>An environment and an instance for examples: one module \<open>kv\<close> behind a wildcard with a label.\<close>

definition demo_env :: env where
  "demo_env =
     \<lparr>ev_now = 0, ev_us = 0, ev_can_write = (\<lambda>_. True), ev_write_ok = (\<lambda>_. True), ev_editor = (\<lambda>_. ([], 0)),
      ev_config_get = (\<lambda>_ _ _. None), ev_user_save = (\<lambda>_ _. 0), ev_status = (\<lambda>_. []), ev_dlopen = (\<lambda>_. Some 0),
      ev_symbols = (\<lambda>_. True), ev_info = (\<lambda>_. Some \<lparr>mi_name = ''kv'', mi_version = ''1'', mi_description = ''store''\<rparr>),
      ev_load = (\<lambda>_ i. (0, i)), ev_unload = (\<lambda>_ i. i),
      ev_handle = (\<lambda>_ m r i. if msg_body m = ''crash'' then Crashed False r i else Returned 0 (r\<lparr>resp_status := 200\<rparr>) i)\<rparr>"

definition demo_tree :: portal_path_tree where
  "demo_tree = path_modify (snd (portal_path_register portal_path_init ''/kv/*'' ''kv'')) ''/kv/*''
     (\<lambda>e. e\<lparr>pe_labels := [''admin'']\<rparr>)"

definition demo_inst :: portal_instance where
  "demo_inst = (snd (portal_instance_init Map.empty 1 []))\<lparr>in_paths := demo_tree,
     in_modules := \<lparr>mr_entries = [entry_fill ''kv'' 0 \<lparr>mi_name = ''kv'', mi_version = ''1'', mi_description = ''store''\<rparr> entry_new],
                    mr_dir = []\<rparr>\<rparr>"

definition demo_msg :: "string \<Rightarrow> string \<Rightarrow> portal_msg" where
  "demo_msg path body =
     \<lparr>msg_id = 7, msg_path = Some path, msg_method = PORTAL_METHOD_GET, msg_headers = [], msg_body = body, msg_ctx = None\<rparr>"

lemma demo_paths:
  "tree_ok demo_tree" "paths demo_tree = [''/kv/*'' \<mapsto> (path_entry_new ''/kv/*'' ''kv'')\<lparr>pe_labels := [''admin'']\<rparr>]"
  using portal_path_register_fresh [OF tree_ok_init(1), of "''/kv/*''" "''kv''"] path_modify_ok
  by (simp_all add: demo_tree_def tree_ok_init)

lemma demo_lookup: "portal_path_lookup demo_tree p = (if p = ''/kv/*'' then Some ''kv'' else None)"
  by (simp add: portal_path_lookup_def demo_paths path_entry_new_def csnprintf_def)

lemma demo_modules:
  "portal_module_find (in_modules demo_inst) ''kv'' = Some 0" "me_loaded (mr_entries (in_modules demo_inst) ! 0)"
  "\<not> me_unloading (mr_entries (in_modules demo_inst) ! 0)" "me_lib (mr_entries (in_modules demo_inst) ! 0) = Some 0"
  "modules_ok (in_modules demo_inst)"
  by (simp_all add: demo_inst_def portal_module_find_def entry_fill_def entry_new_def csnprintf_def modules_ok_def)

lemma strip_own_unset: "cf_sections cfg = portal_ht_init n \<Longrightarrow> strip_own cfg path = path"
  by (simp add: strip_own_def own_name_def portal_config_get_def ht_ok_init)

lemma demo_strip: "strip_own (in_config demo_inst) path = path"
  by (rule strip_own_unset [of _ 64])
    (simp add: demo_inst_def portal_instance_init_def api_path_register_def on_paths_def portal_config_defaults_def Let_def
      split: prod.splits)

text \<open>
  Property C9. A path goes to the module that registered it; otherwise a path of the core
  prefixes goes to the core; otherwise to the module of the longest registered wildcard
  \<open>p/*\<close> whose prefix \<open>p\<close> ends at a slash of the path, and to nobody when there is none.
\<close>

theorem route_longest_wildcard:
  assumes "length path < 1023" and "path \<noteq> []" and "hd path = CHR ''/''"
  shows "find_route tree path =
    (if portal_path_lookup tree path \<noteq> None then portal_path_lookup tree path
     else if core_prefix path then Some ''core'' else wild_loop tree path) \<and>
    (wild_loop tree path = Some m \<longleftrightarrow>
      (\<exists>p\<in>cuts path. portal_path_lookup tree (p @ ''/*'') = Some m \<and>
         (\<forall>p'\<in>cuts path. length p < length p' \<longrightarrow> portal_path_lookup tree (p' @ ''/*'') = None)))"
proof -
  have "[] \<in> cuts path" using assms(2,3) by (cases path) (auto simp: cuts_def)
  then have "portal_path_lookup tree ''/*'' = None" if "wild_loop tree path = None"
    using wild_loop_None [OF assms(1), of "[]" tree] that by fastforce
  then show ?thesis
    using assms(1) wild_loop_longest [OF assms(1), of tree m] by (auto simp: find_route_def csnprintf_def split: option.splits)
qed

theorem route_longest_wildcard_witness: "find_route demo_tree ''/kv/a/b'' = Some ''kv''"
proof -
  have "''/kv'' \<in> cuts ''/kv/a/b''" by (simp add: cuts_def)
  then have "wild_loop demo_tree ''/kv/a/b'' = Some ''kv''"
    using route_longest_wildcard [of "''/kv/a/b''" demo_tree "''kv''"] by (auto simp: demo_lookup)
  then show ?thesis
    using route_longest_wildcard [of "''/kv/a/b''" demo_tree]
    by (simp add: demo_lookup core_prefix_def under_def strncmp_eq_def)
qed



text \<open>
  Property C37. The labels of a wildcard entry are never enforced: a request for a path that is
  not registered itself is handed to the module that the wildcard names and gets its answer, for
  every caller, anonymous ones included, whatever labels the wildcard entry carries.
\<close>

theorem wildcard_label_ignored:
  assumes "msg_path msg = Some path" and "strip_own (in_config inst) path = p" and "portal_path_lookup (in_paths inst) p = None"
    and "find_route (in_paths inst) p = Some m" and "m \<noteq> ''core''" and "portal_module_find (in_modules inst) m = Some i"
    and "me_loaded (mr_entries (in_modules inst) ! i)" and "\<not> me_unloading (mr_entries (in_modules inst) ! i)"
    and "me_lib (mr_entries (in_modules inst) ! i) = Some lib"
  shows "\<exists>msg' inst1. stamped msg msg' \<and> msg_path msg' = Some p \<and>
    (\<forall>rc resp' inst2. ev_handle env lib msg' resp inst1 = Returned rc resp' inst2 \<longrightarrow>
       (\<exists>inst3. api_send env msg resp inst = Inr (rc, msg', resp', inst3)))"
proof -
  have "\<not> access_denied (in_paths inst) p (msg_ctx msg)" using assms(3) by (simp add: access_denied_def)
  then obtain msg' inst' where send: "same_state inst inst'" "stamped msg msg'" "msg_path msg' = Some p"
    "api_send_with env (api_send_rec 1 env) msg resp inst =
       obind (call_module env i msg' resp inst') (\<lambda>(rc, resp, inst). Inr (rc, msg', resp, trace_inst env msg' (Some resp) inst))"
    by (rule api_send_module [OF assms(1,2,4-8)])
  then have "me_lib (mr_entries (in_modules inst') ! i) = Some lib" using assms(9) by (simp add: same_state_def)
  with send show ?thesis using call_module_eq(1) [of inst' i lib env msg' resp]
    by (intro exI [of _ msg'] exI [of _ "enter_module env i inst'"]) (auto simp: api_send_unfold)
qed

lemma demo_route: "find_route (in_paths demo_inst) ''/kv/secret'' = Some ''kv''" "portal_path_lookup (in_paths demo_inst) ''/kv/secret'' = None"
proof -
  have "''/kv'' \<in> cuts ''/kv/secret''" by (simp add: cuts_def)
  then have "wild_loop demo_tree ''/kv/secret'' = Some ''kv''"
    using wild_loop_longest [of "''/kv/secret''" demo_tree "''kv''"] by (auto simp: demo_lookup)
  then show "find_route (in_paths demo_inst) ''/kv/secret'' = Some ''kv''"
    by (simp add: find_route_def demo_inst_def demo_lookup core_prefix_def under_def strncmp_eq_def csnprintf_def)
  show "portal_path_lookup (in_paths demo_inst) ''/kv/secret'' = None" by (simp add: demo_inst_def demo_lookup)
qed

theorem wildcard_label_ignored_witness:
  "\<exists>msg' inst'. api_send demo_env (demo_msg ''/kv/secret'' []) portal_resp_alloc demo_inst =
     Inr (0, msg', portal_resp_alloc\<lparr>resp_status := 200\<rparr>, inst')"
  using wildcard_label_ignored [of "demo_msg ''/kv/secret'' []" "''/kv/secret''" demo_inst "''/kv/secret''" "''kv''" 0 0
      demo_env portal_resp_alloc]
  by (auto simp: demo_strip demo_route demo_modules demo_msg_def demo_env_def stamped_def)



text \<open>
  Routing ends: a message that the core sends while it handles a message is a
  login and never makes the core send a third one, so depth 2 is always enough, more depth
  changes nothing, and no message runs out of depth.
\<close>

lemma api_send_depth:
  assumes "2 \<le> n"
  shows "api_send_rec n env = api_send env \<and> api_send env msg resp inst \<noteq> Inl Too_deep"
proof -
  have n: "n = Suc (Suc (n - 2))" using assms by simp
  have "api_send_rec n env = api_send env" unfolding api_send_def by (subst n) (rule api_send_rec_stable)
  moreover have "api_send env msg resp inst \<noteq> Inl Too_deep"
    unfolding api_send_unfold by (rule api_send_with_shallow) (use api_send_login_shallow [of _ 0] in simp)
  ultimately show ?thesis by simp
qed

lemma login_keeps_modules:
  assumes "strip_own (in_config inst) ''/auth/login'' = ''/auth/login''" "find_route (in_paths inst) ''/auth/login'' = Some ''core''"
    "k \<noteq> []"
  obtains inst' where "module_login (api_send_with env s) u k inst = Inr inst'" "in_modules inst' = in_modules inst"
proof -
  define m where "m = \<lparr>msg_id = in_msg_id inst, msg_path = Some ''/auth/login'', msg_method = PORTAL_METHOD_CALL,
    msg_headers = [(Some ''username'', Some u), (Some ''api_key'', Some k)], msg_body = [], msg_ctx = None\<rparr>"
  define i0 where "i0 = inst\<lparr>in_msg_id := in_msg_id inst + 1\<rparr>"
  have login: "module_login f u k inst = obind (f m portal_resp_alloc i0) (\<lambda>(rc, msg, resp, inst). Inr inst)" for f
    by (simp add: module_login_def portal_msg_alloc_def portal_msg_next_id_def portal_msg_set_path_def portal_msg_set_method_def
        portal_msg_add_header_def m_def i0_def)
  obtain m' i' where prep: "prepare env ''/auth/login'' m i0 = (''/auth/login'', m', i')" "same_state i0 i'" "stamped m m'"
    by (rule prepareE [of env "''/auth/login''" m i0]) (use assms(1) in \<open>simp add: i0_def\<close>)
  have hdrs: "msg_headers m' = [(Some ''username'', Some u), (Some ''api_key'', Some k)]" using prep(3) by (simp add: stamped_def m_def)
  have "\<not> caller_is_admin m'" using prep(3)
    by (auto simp: stamped_def m_def caller_is_admin_def ctx_zero_def portal_labels_has_def)
  note rights = core_rights [OF this, of i' env s "''/auth/login''" portal_resp_alloc]
  have buf: "buf_bytes 256 (generate_token r 32 @ NL) (Suc (Suc (length (generate_token r 32)))) = Inr (generate_token r 32 @ NL @ [NUL])"
    for r using buf_bytes_fits [of "generate_token r 32 @ NL" 256] by (simp add: generate_token_def split: option.splits)
  have core: "core_handle_message env s i' ''/auth/login'' m' portal_resp_alloc = handle_auth_login_enhanced env i' m' portal_resp_alloc"
    by (simp add: core_handle_message_def under_def strncmp_eq_def handle_auth_path_def)
  have "\<exists>x. core_handle_message env s i' ''/auth/login'' m' portal_resp_alloc = Inr x"
    unfolding core using assms(3)
    by (auto simp: handle_auth_login_enhanced_def hdrs get_header_def login_token_def portal_auth_login_key_def start_session_def
        answer_defs buf Let_def split: option.splits)
  then obtain rc r i2 where out: "core_handle_message env s i' ''/auth/login'' m' portal_resp_alloc = Inr (rc, r, i2)" by auto
  with rights have i2: "in_modules i2 = in_modules i'" by (simp add: ensures_def within_rights_def)
  have send: "api_send_with env s m portal_resp_alloc i0 =
      (if access_denied (in_paths inst) ''/auth/login'' (msg_ctx m')
       then Inr (-1, m', portal_resp_set_status portal_resp_alloc PORTAL_FORBIDDEN, i')
       else Inr (rc, m', r, trace_inst env m' (Some r) i2))"
    using prep(1,2) assms(2) out by (simp add: api_send_with_def dispatch_def same_state_def i0_def m_def Let_def)
  show thesis
    using that [of i'] that [of "trace_inst env m' (Some r) i2"] send i2 prep(2) same_state_trace [of i2 env m' "Some r"]
    by (auto simp: login same_state_def i0_def split: if_splits)
qed

lemma load_registers:
  assumes "length (mr_entries (in_modules inst)) < 256" "\<not> portal_module_is_loaded (in_modules inst) name"
    "ev_dlopen env (module_path (in_modules inst) name) = Some lib" "ev_symbols env lib" "ev_info env lib = Some info"
    "ev_load env lib inst = (0, inst1)" "in_modules inst1 = in_modules inst"
    "strip_own (in_config inst1) ''/auth/login'' = ''/auth/login''" "find_route (in_paths inst1) ''/auth/login'' = Some ''core''"
  obtains inst' where "portal_module_do_load env (api_send env) inst name = Inr (0, inst')"
    "in_modules inst' = module_store (in_modules inst) name lib info"
proof -
  have reg: "module_register name lib info i = Inr (0, i\<lparr>in_modules := module_store (in_modules inst) name lib info\<rparr>)"
    if "in_modules i = in_modules inst" for i using that assms(1) by (simp add: module_register_def Let_def)
  obtain u k where cred: "module_credentials env inst1 name = (u, k)" by fastforce
  have load: "portal_module_do_load env (api_send env) inst name =
      (case (u, k) of (Some mod_user, Some mod_key) \<Rightarrow>
         obind (if mod_key \<noteq> [] then module_login (api_send env) mod_user mod_key inst1 else Inr inst1) (module_register name lib info)
       | _ \<Rightarrow> module_register name lib info inst1)"
    using assms(1-6) by (simp add: portal_module_do_load_def cred)
  show thesis
  proof (cases "\<exists>mu mk. u = Some mu \<and> k = Some mk \<and> mk \<noteq> []")
    case True
    then obtain mu mk where uk: "u = Some mu" "k = Some mk" "mk \<noteq> []" by blast
    obtain i where "module_login (api_send env) mu mk inst1 = Inr i" "in_modules i = in_modules inst1"
      unfolding api_send_unfold by (rule login_keeps_modules [OF assms(8,9) uk(3)])
    then show thesis
      using load uk reg [of i] assms(7) by (intro that [of "i\<lparr>in_modules := module_store (in_modules inst) name lib info\<rparr>"]) simp_all
  next
    case False
    then show thesis
      using load reg [OF assms(7)]
      by (intro that [of "inst1\<lparr>in_modules := module_store (in_modules inst) name lib info\<rparr>"]) (auto split: option.splits)
  qed
qed

text \<open>
  Property C32. Loading and unloading a module: when the shared library can be opened and its
  load function succeeds, the module is loaded afterwards, its table entry is new or reused
  and every other entry is as before, whether or not the module logs in with credentials of its
  own; a second load is refused; unloading makes the module unavailable, again without touching
  another entry, and a second unload is refused.
\<close>

theorem module_lifecycle:
  assumes "modules_ok (in_modules inst)" and "length name < 64" and "length (mr_entries (in_modules inst)) < 256"
    and "\<not> portal_module_is_loaded (in_modules inst) name"
    and "ev_dlopen env (module_path (in_modules inst) name) = Some lib" and "ev_symbols env lib" and "ev_info env lib = Some info"
    and "ev_load env lib inst = (0, inst1)" and "in_modules inst1 = in_modules inst"
    and "strip_own (in_config inst1) ''/auth/login'' = ''/auth/login''" and "find_route (in_paths inst1) ''/auth/login'' = Some ''core''"
    and "\<And>i. in_modules (ev_unload env lib i) = in_modules i"
  defines "others \<equiv> \<lambda>i. \<forall>n. n \<noteq> name \<longrightarrow> module_of (in_modules i) n = module_of (in_modules inst) n"
  shows "\<exists>inst2 inst3. portal_module_do_load env (api_send env) inst name = Inr (0, inst2) \<and>
    modules_ok (in_modules inst2) \<and> portal_module_is_loaded (in_modules inst2) name \<and> others inst2 \<and>
    portal_module_do_load env (api_send env) inst2 name = Inr (-1, inst2) \<and>
    portal_module_do_unload env inst2 name = (0, inst3) \<and>
    modules_ok (in_modules inst3) \<and> \<not> portal_module_is_loaded (in_modules inst3) name \<and> others inst3 \<and>
    portal_module_do_unload env inst3 name = (-1, inst3)"
proof -
  obtain i2 where i2: "portal_module_do_load env (api_send env) inst name = Inr (0, i2)"
    "in_modules i2 = module_store (in_modules inst) name lib info" by (rule load_registers [OF assms(3-11)])
  define e where "e = entry_fill name lib info (case module_of (in_modules inst) name of None \<Rightarrow> entry_new | Some e \<Rightarrow> e)"
  have st: "modules_ok (in_modules i2)" "module_of (in_modules i2) = (module_of (in_modules inst))(name \<mapsto> e)"
    using module_store_ok [OF assms(1,2), of lib info] by (simp_all add: i2(2) e_def)
  have e: "module_of (in_modules i2) name = Some e" "me_loaded e" "me_lib e = Some lib" by (simp_all add: st(2) e_def entry_fill_def)
  obtain i3 where i3: "portal_module_do_unload env i2 name = (0, i3)" "modules_ok (in_modules i3)"
    "module_of (in_modules i3) = (module_of (in_modules i2))(name \<mapsto> entry_clear (e\<lparr>me_unloading := True\<rparr>))"
    by (rule module_unload_correct [OF st(1) e assms(12)])
  have on: "portal_module_is_loaded (in_modules i2) name" using is_loaded_module_of [OF st(1)] e by auto
  have off: "\<not> portal_module_is_loaded (in_modules i3) name" using is_loaded_module_of [OF i3(2)] i3(3) by auto
  have "others i2" "others i3" by (simp_all add: others_def st(2) i3(3))
  moreover have "portal_module_do_load env (api_send env) i2 name = Inr (-1, i2)" using on by (simp add: portal_module_do_load_def)
  moreover have "portal_module_do_unload env i3 name = (-1, i3)"
    using off by (auto simp: portal_module_do_unload_def portal_module_is_loaded_def split: option.splits)
  ultimately show ?thesis using i2(1) i3(1,2) on off st(1) by blast
qed

theorem module_lifecycle_witness:
  "\<exists>inst2. portal_module_do_load demo_env (api_send demo_env) demo_inst ''log'' = Inr (0, inst2) \<and>
     portal_module_is_loaded (in_modules inst2) ''log''"
proof -
  have route: "find_route (in_paths demo_inst) ''/auth/login'' = Some ''core''"
    by (simp add: find_route_def demo_inst_def demo_lookup core_prefix_def under_def strncmp_eq_def)
  have new: "\<not> portal_module_is_loaded (in_modules demo_inst) ''log''" "length (mr_entries (in_modules demo_inst)) < 256"
    by (simp_all add: portal_module_is_loaded_def portal_module_find_def demo_inst_def entry_fill_def csnprintf_def)
  show ?thesis
    using module_lifecycle [of demo_inst "''log''" demo_env 0 _ demo_inst, OF demo_modules(5) _ new(2,1) _ _ _ _ _ _ route]
    by (auto simp: demo_strip) (auto simp: demo_env_def)
qed

end
