(* ===== verification/Requests.thy ===== *)
theory Requests
  imports Router
begin

section \<open>Requests through the router\<close>

text \<open>
  A request of a caller without a context, from \<open>api_send\<close> through the router to a handler of the
  core and back: what the session handlers answer and what they leave of the routing tables, so
  that one request can follow another.
\<close>

subsection \<open>Requests to the core\<close>

text \<open>The core answers requests for \<open>path\<close> of callers without a context.\<close>

definition open_core_path :: "portal_instance \<Rightarrow> string \<Rightarrow> bool" where
  "open_core_path inst path \<longleftrightarrow>
     strip_own (in_config inst) path = path \<and> find_route (in_paths inst) path = Some ''core'' \<and>
     \<not> access_denied (in_paths inst) path None"

definition request :: "string \<Rightarrow> portal_header list \<Rightarrow> portal_msg" where
  "request path headers =
     \<lparr>msg_id = 0, msg_path = Some path, msg_method = PORTAL_METHOD_CALL, msg_headers = headers, msg_body = [], msg_ctx = None\<rparr>"

lemma api_send_routed:
  assumes "strip_own (in_config inst) path = path" "find_route (in_paths inst) path = Some ''core''"
    "\<not> access_denied (in_paths inst) path (msg_ctx msg)" "msg_path msg = Some path"
  obtains msg' inst' where "same_state inst inst'" "stamped msg msg'"
    "api_send env msg resp inst = obind (core_handle_message env (api_send_rec 1 env) inst' path msg' resp)
       (\<lambda>(rc, resp, inst). Inr (rc, msg', resp, trace_inst env msg' (Some resp) inst))"
proof -
  obtain m i where prep: "prepare env path msg inst = (path, m, i)" "same_state inst i" "stamped msg m"
    using assms(1) by (auto intro: prepareE [of env path msg inst])
  moreover have "\<not> access_denied (in_paths i) path (msg_ctx m)"
    using access_stamped [OF prep(3)] prep(2) assms(3) by (simp add: same_state_def)
  ultimately show thesis
    using assms by (intro that [OF prep(2,3)]) (simp add: api_send_unfold api_send_with_def same_state_def dispatch_def)
qed

lemma api_send_core:
  assumes "open_core_path inst path" "msg_path msg = Some path" "msg_ctx msg = None"
  obtains msg' inst' where "same_state inst inst'" "stamped msg msg'"
    "api_send env msg resp inst = obind (core_handle_message env (api_send_rec 1 env) inst' path msg' resp)
       (\<lambda>(rc, resp, inst). Inr (rc, msg', resp, trace_inst env msg' (Some resp) inst))"
  using api_send_routed [of inst path msg env resp thesis] assms that by (simp add: open_core_path_def)

definition routes_kept :: "portal_instance \<Rightarrow> portal_instance \<Rightarrow> bool" where
  "routes_kept inst inst' \<longleftrightarrow> in_config inst' = in_config inst \<and> in_paths inst' = in_paths inst"

lemma open_core_path_kept: "routes_kept inst inst' \<Longrightarrow> open_core_path inst' p = open_core_path inst p"
  by (simp add: routes_kept_def open_core_path_def)

lemma trace_inst_fields [simp]:
  "in_config (trace_inst env m r i) = in_config i" "in_paths (trace_inst env m r i) = in_paths i"
  "in_auth (trace_inst env m r i) = in_auth i" "in_rnd (trace_inst env m r i) = in_rnd i"
  using same_state_trace [of i env m r] by (simp_all add: same_state_def)

lemma core_request:
  assumes "open_core_path inst path"
    "\<And>m i. same_state inst i \<Longrightarrow> stamped (request path hs) m \<Longrightarrow>
       core_handle_message env (api_send_rec 1 env) i path m resp = Inr (rc, r, f i)"
    "\<And>i. same_state inst i \<Longrightarrow> in_auth (f i) = a \<and> in_config (f i) = in_config i \<and> in_paths (f i) = in_paths i"
  obtains m i where "api_send env (request path hs) resp inst = Inr (rc, m, r, i)" "in_auth i = a" "routes_kept inst i"
proof -
  have "msg_path (request path hs) = Some path" "msg_ctx (request path hs) = None" by (simp_all add: request_def)
  then obtain m i where send: "same_state inst i" "stamped (request path hs) m"
    "api_send env (request path hs) resp inst = obind (core_handle_message env (api_send_rec 1 env) i path m resp)
       (\<lambda>(rc, resp, inst). Inr (rc, m, resp, trace_inst env m (Some resp) inst))"
    by (rule api_send_core [OF assms(1)])
  from assms(2) [OF send(1,2)] assms(3) [OF send(1)] send(1,3) show thesis
    by (intro that [of m "trace_inst env m (Some r) (f i)"]) (simp_all add: routes_kept_def same_state_def)
qed

lemmas core_simps = core_handle_message_def under_def strncmp_eq_def handle_auth_path_def stamped_def request_def
  get_header_def ctx_or_header_token_def ctx_token_def ctx_zero_def same_state_def answer_defs
  portal_resp_set_status_def portal_resp_set_body_def

lemma login_request:
  assumes "open_core_path inst ''/auth/login''"
    "portal_auth_login (in_auth inst) user pw (fst (draw (in_rnd inst))) (ev_now env) = (Some tok, auth')" "length tok \<le> 32"
  obtains m i where "api_send env (request ''/auth/login'' [(Some ''username'', Some user), (Some ''password'', Some pw)]) resp inst =
      Inr (0, m, resp\<lparr>resp_status := 200, resp_body := tok @ NL @ [NUL]\<rparr>, i)"
    "in_auth i = auth'" "routes_kept inst i"
proof (rule core_request [OF assms(1)])
  have buf: "buf_bytes 256 (tok @ NL) (Suc (Suc (length tok))) = Inr (tok @ NL @ [NUL])"
    using buf_bytes_fits [of "tok @ NL" 256] assms(3) by simp
  show "core_handle_message env (api_send_rec 1 env) i ''/auth/login'' m resp =
      Inr (0, resp\<lparr>resp_status := 200, resp_body := tok @ NL @ [NUL]\<rparr>, (snd (draw_rnd i))\<lparr>in_auth := auth'\<rparr>)"
    if "same_state inst i" "stamped (request ''/auth/login'' [(Some ''username'', Some user), (Some ''password'', Some pw)]) m" for m i
    using that assms(2) by (simp add: core_simps handle_auth_login_enhanced_def login_token_def buf)
qed (auto simp: draw_rnd_def intro: that)

lemma logout_request:
  assumes "open_core_path inst ''/auth/logout''"
  obtains m i where "api_send env (request ''/auth/logout'' [(Some ''token'', Some tok)]) resp inst =
      Inr (0, m, resp\<lparr>resp_status := 200, resp_body := ''Logged out'' @ NL @ [NUL]\<rparr>, i)"
    "in_auth i = snd (portal_auth_logout (in_auth inst) tok)" "routes_kept inst i"
proof (rule core_request [OF assms(1)])
  show "core_handle_message env (api_send_rec 1 env) i ''/auth/logout'' m resp =
      Inr (0, resp\<lparr>resp_status := 200, resp_body := ''Logged out'' @ NL @ [NUL]\<rparr>,
           i\<lparr>in_auth := snd (portal_auth_logout (in_auth inst) tok)\<rparr>)"
    if "same_state inst i" "stamped (request ''/auth/logout'' [(Some ''token'', Some tok)]) m" for m i
    using that by (auto simp: core_simps handle_auth_logout_def)
qed (auto intro: that)

lemma prefix_strbuf: "prefix (sb_text sb) (sb_text (fold strbuf_append xs sb))"
proof (induction xs arbitrary: sb)
  case (Cons x xs)
  have "prefix (sb_text sb) (sb_text (strbuf_append x sb))" by (simp add: strbuf_append_def Let_def)
  with Cons.IH [of "strbuf_append x sb"] show ?case by (simp add: prefix_order.order_trans)
qed simp

lemma whoami_body: "length user < 64 \<Longrightarrow>
  prefix (''User: '' @ user @ NL) (strbuf_body (fold strbuf_append ((''User: '' @ user @ NL) # xs) (strbuf_new 1024)))"
  using prefix_strbuf [of "strbuf_append (''User: '' @ user @ NL) (strbuf_new 1024)" xs]
  by (simp add: strbuf_append_def strbuf_new_def strbuf_body_def prefix_prefix)

lemma resolve_token_Some:
  "fst (portal_auth_resolve_token auth tok now) = Some u \<Longrightarrow> portal_auth_resolve_token auth tok now = (Some u, auth)"
  by (auto simp: portal_auth_resolve_token_def split: if_splits option.splits)

definition whoami_reply :: "portal_resp \<Rightarrow> auth_user option \<Rightarrow> portal_resp" where
  "whoami_reply resp user =
     (case user of
        None \<Rightarrow> resp\<lparr>resp_status := 401, resp_body := ''Invalid or expired token'' @ NL @ [NUL]\<rparr>
      | Some u \<Rightarrow> resp\<lparr>resp_status := 200, resp_body := strbuf_body (fold strbuf_append
                    ((''User: '' @ au_username u @ NL) # ''Labels: '' # sep_list '', '' (au_labels u) @ [NL]) (strbuf_new 1024))\<rparr>)"

lemma whoami_request:
  fixes inst :: portal_instance and tok :: string and env :: env
  assumes "open_core_path inst ''/auth/whoami''"
  defines "res \<equiv> portal_auth_resolve_token (in_auth inst) tok (ev_now env)"
  obtains m i where "api_send env (request ''/auth/whoami'' [(Some ''token'', Some tok)]) resp inst =
      Inr (if fst res = None then -1 else 0, m, whoami_reply resp (fst res), i)" "in_auth i = snd res" "routes_kept inst i"
proof (rule core_request [OF assms(1)])
  show "core_handle_message env (api_send_rec 1 env) i ''/auth/whoami'' m resp =
      Inr (if fst res = None then -1 else 0, whoami_reply resp (fst res), i\<lparr>in_auth := snd res\<rparr>)"
    if "same_state inst i" "stamped (request ''/auth/whoami'' [(Some ''token'', Some tok)]) m" for m i
    using that
    by (auto simp: core_simps handle_auth_whoami_def resolve_user_def whoami_reply_def res_def split: option.splits prod.splits)
qed (auto intro: that)

end
