(* ===== verification/Wire.thy ===== *)
theory Wire
  imports Message
begin

section \<open>The binary wire format (core_wire.c)\<close>

text \<open>
  \<^verbatim>\<open>src/core/core_wire.c\<close>: messages and responses as length-prefixed binary data in
  network byte order. A buffer is a character list. The decoder runs in a reader monad over
  the buffer and the position of the pointer \<open>p\<close>; its three outcomes are a value with the new
  position, the return of -1, and a read behind the end of the buffer, which the C code would
  perform as undefined behaviour. Keeping the last outcome apart lets a theorem say that the
  bounds checks suffice. A decoded string is the C string in the copied bytes, that is, the
  bytes before the first NUL.

  The encoder returns the bytes it writes and the size it allocates; \<open>None\<close> is the crash of
  \<open>strlen\<close> on a NULL header key or value. Allocation succeeds.
\<close>

subsection \<open>Writers\<close>

definition write_u8 :: "8 word \<Rightarrow> string" where
  "write_u8 v = [b8 v]"

definition write_u16 :: "16 word \<Rightarrow> string" where
  "write_u16 v = [b8 (drop_bit 8 v), b8 (v AND 0xff)]"

definition write_u32 :: "32 word \<Rightarrow> string" where
  "write_u32 v = [b8 (drop_bit 24 v), b8 (drop_bit 16 v AND 0xff), b8 (drop_bit 8 v AND 0xff), b8 (v AND 0xff)]"

definition write_u64 :: "64 word \<Rightarrow> string" where
  "write_u64 v = map (\<lambda>i. b8 (drop_bit (i * 8) v AND 0xff)) (rev [0..<8])"

definition write_str :: "string \<Rightarrow> 16 word \<Rightarrow> string" where
  "write_str s len = write_u16 len @ (if 0 < len then take (unat len) s else [])"

definition write_blob :: "string \<Rightarrow> 32 word \<Rightarrow> string" where
  "write_blob d len = write_u32 len @ (if 0 < len then take (unat len) d else [])"

subsection \<open>Readers\<close>

datatype 'a read_result = ROk 'a nat | RFail | ROverrun

type_synonym 'a reader = "string \<Rightarrow> nat \<Rightarrow> 'a read_result"

definition rreturn :: "'a \<Rightarrow> 'a reader" where
  "rreturn x = (\<lambda>buf p. ROk x p)"

definition rfail :: "'a reader" where
  "rfail = (\<lambda>buf p. RFail)"

definition rbind :: "'a reader \<Rightarrow> ('a \<Rightarrow> 'b reader) \<Rightarrow> 'b reader" where
  "rbind m f = (\<lambda>buf p. case m buf p of ROk a q \<Rightarrow> f a buf q | RFail \<Rightarrow> RFail | ROverrun \<Rightarrow> ROverrun)"

definition WIRE_CHECK :: "nat \<Rightarrow> unit reader" where
  "WIRE_CHECK need = (\<lambda>buf p. if length buf < p + need then RFail else ROk () p)"

text \<open>\<open>mem n\<close> loads \<open>n\<close> bytes at \<open>p\<close>; \<open>peek\<close> does not move the pointer.\<close>

definition mem :: "nat \<Rightarrow> string reader" where
  "mem n = (\<lambda>buf p. if length buf < p + n then ROverrun else ROk (take n (drop p buf)) (p + n))"

definition peek :: "'a reader \<Rightarrow> 'a reader" where
  "peek m = (\<lambda>buf p. case m buf p of ROk a q \<Rightarrow> ROk a p | RFail \<Rightarrow> RFail | ROverrun \<Rightarrow> ROverrun)"

definition read_u8 :: "8 word reader" where
  "read_u8 = rbind (mem 1) (\<lambda>bs. rreturn (w8 (bs ! 0)))"

definition read_u16 :: "16 word reader" where
  "read_u16 = rbind (mem 2) (\<lambda>bs. rreturn (push_bit 8 (w8 (bs ! 0)) OR w8 (bs ! 1)))"

definition read_u32 :: "32 word reader" where
  "read_u32 = rbind (mem 4) (\<lambda>bs.
     rreturn (push_bit 24 (w8 (bs ! 0)) OR push_bit 16 (w8 (bs ! 1)) OR push_bit 8 (w8 (bs ! 2)) OR w8 (bs ! 3)))"

definition read_u64 :: "64 word reader" where
  "read_u64 = rbind (mem 8) (\<lambda>bs. rreturn (fold (\<lambda>c v. push_bit 8 v OR w8 c) bs 0))"

definition cstring :: "string \<Rightarrow> string" where
  "cstring bs = takeWhile (\<lambda>c. c \<noteq> CHR 0x00) bs"

definition read_str :: "string option reader" where
  "read_str = rbind read_u16 (\<lambda>len.
     if len = 0 then rreturn None
     else rbind (mem (unat len)) (\<lambda>bs. rreturn (Some (cstring bs))))"

text \<open>The check sequence that the decoder puts before every string.\<close>

definition checked_str :: "string option reader" where
  "checked_str = rbind (WIRE_CHECK 2) (\<lambda>_. rbind (peek read_u16) (\<lambda>slen.
     rbind (WIRE_CHECK (2 + unat slen)) (\<lambda>_. read_str)))"

subsection \<open>Messages\<close>

definition opt_str :: "string option \<Rightarrow> string" where
  "opt_str s = (case s of None \<Rightarrow> [] | Some x \<Rightarrow> x)"

definition len16 :: "string \<Rightarrow> 16 word" where
  "len16 s = word_of_nat (length s)"

definition hdr_strs :: "portal_header list \<Rightarrow> (string \<times> string) list option" where
  "hdr_strs hs = those (map (\<lambda>(k, v). case k of None \<Rightarrow> None
                                  | Some a \<Rightarrow> map_option (Pair a) v) hs)"

definition headers_size :: "(string \<times> string) list \<Rightarrow> nat" where
  "headers_size hs = sum_list (map (\<lambda>(k, v). 2 + length k + (2 + length v)) hs)"

definition write_headers :: "(string \<times> string) list \<Rightarrow> string" where
  "write_headers hs = concat (map (\<lambda>(k, v). write_str k (len16 k) @ write_str v (len16 v)) hs)"

definition ctx_size :: "portal_ctx \<Rightarrow> nat" where
  "ctx_size c =
     2 + unat (len16 (opt_str (auth_user (ctx_auth c)))) + 2 + unat (len16 (opt_str (auth_token (ctx_auth c)))) +
     8 + 8 + 8 + 2 + 2 + sum_list (map (\<lambda>l. 2 + length l) (auth_labels (ctx_auth c)))"

definition write_ctx :: "portal_ctx \<Rightarrow> string" where
  "write_ctx c =
     write_str (opt_str (auth_user (ctx_auth c))) (len16 (opt_str (auth_user (ctx_auth c)))) @
     write_str (opt_str (auth_token (ctx_auth c))) (len16 (opt_str (auth_token (ctx_auth c)))) @
     write_u64 (trace_id (ctx_trace c)) @ write_u64 (parent_id (ctx_trace c)) @
     write_u64 (timestamp_us (ctx_trace c)) @ write_u16 (hops (ctx_trace c)) @
     write_u16 (word_of_nat (length (auth_labels (ctx_auth c)))) @
     concat (map (\<lambda>l. write_str l (len16 l)) (auth_labels (ctx_auth c)))"

definition portal_wire_encode_msg :: "portal_msg \<Rightarrow> (string \<times> nat) option" where
  "portal_wire_encode_msg msg =
     (case hdr_strs (msg_headers msg) of
        None \<Rightarrow> None
      | Some hs \<Rightarrow>
          (let path = opt_str (msg_path msg);
               size = 4 + (8 + 1) + (2 + unat (len16 path)) + 2 + headers_size hs +
                      (4 + length (msg_body msg)) + 1 +
                      (case msg_ctx msg of None \<Rightarrow> 0 | Some c \<Rightarrow> ctx_size c)
           in Some
             (write_u32 (word_of_nat (size - 4)) @ write_u64 (msg_id msg) @ write_u8 (msg_method msg) @
              write_str path (len16 path) @ write_u16 (word_of_nat (length hs)) @ write_headers hs @
              write_blob (msg_body msg) (word_of_nat (length (msg_body msg))) @
              (case msg_ctx msg of None \<Rightarrow> write_u8 0 | Some c \<Rightarrow> write_u8 1 @ write_ctx c),
              size)))"

primrec read_headers :: "nat \<Rightarrow> portal_header list reader" where
  "read_headers 0 = rreturn []"
| "read_headers (Suc n) =
     rbind checked_str (\<lambda>k. rbind checked_str (\<lambda>v. rbind (read_headers n) (\<lambda>hs. rreturn ((k, v) # hs))))"

primrec read_labels :: "nat \<Rightarrow> portal_labels \<Rightarrow> portal_labels reader" where
  "read_labels 0 ls = rreturn ls"
| "read_labels (Suc n) ls =
     rbind checked_str (\<lambda>label. read_labels n
       (case label of None \<Rightarrow> ls | Some l \<Rightarrow> snd (portal_labels_add ls l)))"

definition read_body :: "string \<Rightarrow> string reader" where
  "read_body body = rbind (WIRE_CHECK 4) (\<lambda>_. rbind read_u32 (\<lambda>body_len.
     if 0 < body_len then rbind (WIRE_CHECK (unat body_len)) (\<lambda>_. mem (unat body_len))
     else rreturn body))"

definition read_trace :: "portal_trace reader" where
  "read_trace = rbind read_u64 (\<lambda>t. rbind read_u64 (\<lambda>par. rbind read_u64 (\<lambda>us. rbind read_u16 (\<lambda>h.
     rreturn \<lparr>trace_id = t, parent_id = par, timestamp_us = us, hops = h\<rparr>))))"

definition read_ctx :: "portal_ctx reader" where
  "read_ctx = rbind checked_str (\<lambda>user. rbind checked_str (\<lambda>token.
     rbind (WIRE_CHECK (8 + 8 + 8 + 2)) (\<lambda>_. rbind read_trace (\<lambda>tr.
     rbind (WIRE_CHECK 2) (\<lambda>_. rbind read_u16 (\<lambda>label_count.
     rbind (read_labels (min (unat label_count) PORTAL_MAX_LABELS) []) (\<lambda>ls.
       rreturn (ctx_zero\<lparr>ctx_auth := \<lparr>auth_user = user, auth_token = token, auth_labels = ls\<rparr>,
                         ctx_trace := tr\<rparr>))))))))"

definition wire_read_msg :: "portal_msg \<Rightarrow> portal_msg reader" where
  "wire_read_msg msg =
     rbind (WIRE_CHECK 4) (\<lambda>_. rbind read_u32 (\<lambda>_.
     rbind (WIRE_CHECK 8) (\<lambda>_. rbind read_u64 (\<lambda>i.
     rbind (WIRE_CHECK 1) (\<lambda>_. rbind read_u8 (\<lambda>method.
     rbind checked_str (\<lambda>path.
     rbind (WIRE_CHECK 2) (\<lambda>_. rbind read_u16 (\<lambda>header_count.
     if PORTAL_MAX_HEADERS < unat header_count then rfail
     else rbind (read_headers (unat header_count)) (\<lambda>hs.
     rbind (read_body (msg_body msg)) (\<lambda>body.
     rbind (WIRE_CHECK 1) (\<lambda>_. rbind read_u8 (\<lambda>has_ctx.
     rbind (if has_ctx \<noteq> 0 then rbind read_ctx (\<lambda>c. rreturn (Some c)) else rreturn (msg_ctx msg)) (\<lambda>c.
       rreturn (msg\<lparr>msg_id := i, msg_method := method, msg_path := path, msg_headers := hs,
                    msg_body := body, msg_ctx := c\<rparr>)))))))))))))))"

definition portal_wire_decode_msg :: "string \<Rightarrow> portal_msg \<Rightarrow> portal_msg read_result" where
  "portal_wire_decode_msg buf msg =
     (if length buf < 4 then RFail else wire_read_msg msg buf 0)"

subsection \<open>Responses and framing\<close>

definition portal_wire_encode_resp :: "portal_resp \<Rightarrow> (string \<times> nat) option" where
  "portal_wire_encode_resp resp =
     (case hdr_strs (resp_headers resp) of
        None \<Rightarrow> None
      | Some hs \<Rightarrow>
          (let size = 4 + 2 + 2 + headers_size hs + (4 + length (resp_body resp))
           in Some
             (write_u32 (word_of_nat (size - 4)) @ write_u16 (resp_status resp) @
              write_u16 (word_of_nat (length hs)) @ write_headers hs @
              write_blob (resp_body resp) (word_of_nat (length (resp_body resp))),
              size)))"

definition wire_read_resp :: "portal_resp \<Rightarrow> portal_resp reader" where
  "wire_read_resp resp =
     rbind (WIRE_CHECK 4) (\<lambda>_. rbind read_u32 (\<lambda>_.
     rbind (WIRE_CHECK (2 + 2)) (\<lambda>_.
     rbind (rbind read_u16 (\<lambda>status. rbind read_u16 (\<lambda>n. rreturn (status, n)))) (\<lambda>(status, header_count).
     if PORTAL_MAX_HEADERS < unat header_count then rfail
     else rbind (read_headers (unat header_count)) (\<lambda>hs.
     rbind (read_body (resp_body resp)) (\<lambda>body.
       rreturn (resp\<lparr>resp_status := status, resp_headers := hs, resp_body := body\<rparr>)))))))"

definition portal_wire_decode_resp :: "string \<Rightarrow> portal_resp \<Rightarrow> portal_resp read_result" where
  "portal_wire_decode_resp buf resp =
     (if length buf < 4 then RFail else wire_read_resp resp buf 0)"

definition portal_wire_read_length :: "string \<Rightarrow> int" where
  "portal_wire_read_length buf =
     sint (push_bit 24 (w8 (buf ! 0)) OR push_bit 16 (w8 (buf ! 1)) OR push_bit 8 (w8 (buf ! 2)) OR w8 (buf ! 3) :: 32 word)"

subsection \<open>Bounds\<close>

text \<open>
  \<open>takes n r\<close>: with \<open>n\<close> bytes left the reader succeeds and moves by \<open>n\<close>. \<open>safe r\<close>: from any
  position inside the buffer the reader never overruns and stays inside.
\<close>

definition takes :: "nat \<Rightarrow> 'a reader \<Rightarrow> bool" where
  "takes n r \<longleftrightarrow> (\<forall>buf p. p + n \<le> length buf \<longrightarrow> (\<exists>a. r buf p = ROk a (p + n)))"

definition safe :: "'a reader \<Rightarrow> bool" where
  "safe r \<longleftrightarrow> (\<forall>buf p. p \<le> length buf \<longrightarrow>
     (case r buf p of ROk a q \<Rightarrow> q \<le> length buf | RFail \<Rightarrow> True | ROverrun \<Rightarrow> False))"

named_theorems reader_safe \<open>introduction rules for \<open>safe\<close> and \<open>takes\<close>\<close>

lemma takes_mem [reader_safe]: "takes n (mem n)"
  by (simp add: takes_def mem_def)

lemma takes_rreturn [reader_safe]: "takes 0 (rreturn x)"
  by (simp add: takes_def rreturn_def)

lemma takes_rbind: "takes n m \<Longrightarrow> (\<And>a. takes k (f a)) \<Longrightarrow> takes (n + k) (rbind m f)"
proof -
  assume m: "takes n m" and f: "\<And>a. takes k (f a)"
  show ?thesis
    unfolding takes_def
  proof (intro allI impI)
    fix buf :: string and p assume len: "p + (n + k) \<le> length buf"
    then obtain a where a: "m buf p = ROk a (p + n)" using m unfolding takes_def by force
    obtain b where "f a buf (p + n) = ROk b (p + n + k)" using f [of a] len unfolding takes_def by force
    with a show "\<exists>b. rbind m f buf p = ROk b (p + (n + k))" by (simp add: rbind_def add.assoc)
  qed
qed

lemma takes_rbind_rreturn: "takes n m \<Longrightarrow> takes n (rbind m (\<lambda>a. rreturn (f a)))"
  using takes_rbind [of n m 0 "\<lambda>a. rreturn (f a)", OF _ takes_rreturn] by simp

lemma takes_reads [reader_safe]: "takes 1 read_u8" "takes 2 read_u16" "takes 4 read_u32" "takes 8 read_u64"
  unfolding read_u8_def read_u16_def read_u32_def read_u64_def
  by (intro takes_rbind_rreturn takes_mem)+

lemma takes_read_trace [reader_safe]: "takes (8 + 8 + 8 + 2) read_trace"
proof -
  have "takes (8 + (8 + (8 + 2))) read_trace"
    unfolding read_trace_def by (intro takes_rbind takes_rbind_rreturn takes_reads)
  then show ?thesis by simp
qed

lemma safe_rreturn [reader_safe]: "safe (rreturn x)"
  by (simp add: safe_def rreturn_def)

lemma safe_rfail [reader_safe]: "safe rfail"
  by (simp add: safe_def rfail_def)

lemma safe_rbind [reader_safe]:
  assumes "safe m" "\<And>a. safe (f a)"
  shows "safe (rbind m f)"
  unfolding safe_def
proof (intro allI impI)
  fix buf :: string and p assume "p \<le> length buf"
  with assms(1) have "case m buf p of ROk a q \<Rightarrow> q \<le> length buf | RFail \<Rightarrow> True | ROverrun \<Rightarrow> False"
    by (simp add: safe_def)
  with assms(2) show "case rbind m f buf p of ROk a q \<Rightarrow> q \<le> length buf | RFail \<Rightarrow> True | ROverrun \<Rightarrow> False"
    by (cases "m buf p") (simp_all add: rbind_def safe_def)
qed

lemma safe_check [reader_safe]:
  assumes "takes n r" "\<And>a. safe (k a)"
  shows "safe (rbind (WIRE_CHECK n) (\<lambda>_. rbind r k))"
  unfolding safe_def
proof (intro allI impI)
  fix buf :: string and p assume "p \<le> length buf"
  show "case rbind (WIRE_CHECK n) (\<lambda>_. rbind r k) buf p of
          ROk a q \<Rightarrow> q \<le> length buf | RFail \<Rightarrow> True | ROverrun \<Rightarrow> False"
  proof (cases "p + n \<le> length buf")
    case True
    then obtain a where "r buf p = ROk a (p + n)" using assms(1) by (auto simp: takes_def)
    with True assms(2) [of a] show ?thesis by (simp add: rbind_def WIRE_CHECK_def safe_def)
  qed (simp add: rbind_def WIRE_CHECK_def)
qed

lemma safe_check_end [reader_safe]: "takes n r \<Longrightarrow> safe (rbind (WIRE_CHECK n) (\<lambda>_. r))"
  unfolding safe_def takes_def rbind_def WIRE_CHECK_def
  by (force simp: not_less split: read_result.splits)

lemma safe_checked_str [reader_safe]: "safe checked_str"
  by (auto simp: safe_def checked_str_def read_str_def rbind_def peek_def WIRE_CHECK_def read_u16_def
      mem_def rreturn_def Let_def split: read_result.splits if_splits)

lemma safe_read_headers [reader_safe]: "safe (read_headers n)"
  by (induction n) (auto intro!: reader_safe)

lemma safe_read_labels [reader_safe]: "safe (read_labels n ls)"
  by (induction n arbitrary: ls) (auto intro!: reader_safe)

lemma safe_if [reader_safe]: "(c \<Longrightarrow> safe r) \<Longrightarrow> (\<not> c \<Longrightarrow> safe s) \<Longrightarrow> safe (if c then r else s)"
  by simp

lemma safe_read_body [reader_safe]: "safe (read_body body)"
  unfolding read_body_def by (intro reader_safe)

lemma safe_read_ctx [reader_safe]: "safe read_ctx"
  unfolding read_ctx_def by (intro reader_safe)

lemma safe_read_msg: "safe (wire_read_msg msg)"
  unfolding wire_read_msg_def by (intro reader_safe)

lemma safe_read_resp: "safe (wire_read_resp resp)"
proof -
  have "takes (2 + 2) (rbind read_u16 (\<lambda>status. rbind read_u16 (\<lambda>n. rreturn (status, n))))"
    by (intro takes_rbind takes_reads takes_rbind_rreturn)
  then show ?thesis
    unfolding wire_read_resp_def split_beta by (intro reader_safe)
qed

subsection \<open>Round trips\<close>

text \<open>
  \<open>parses r bs x\<close>: wherever the bytes \<open>bs\<close> stand in a buffer, the reader placed on them
  returns \<open>x\<close> and moves behind them.
\<close>

definition parses :: "'a reader \<Rightarrow> string \<Rightarrow> 'a \<Rightarrow> bool" where
  "parses r bs x \<longleftrightarrow>
     (\<forall>pre post. r (pre @ bs @ post) (length pre) = ROk x (length pre + length bs))"

lemma parses_rreturn: "parses (rreturn x) [] x"
  by (simp add: parses_def rreturn_def)

lemma parses_rbind:
  assumes "parses m bs a" "parses (f a) cs b"
  shows "parses (rbind m f) (bs @ cs) b"
  unfolding parses_def
proof (intro allI)
  fix pre post
  have "m (pre @ bs @ cs @ post) (length pre) = ROk a (length pre + length bs)"
    using assms(1) by (simp add: parses_def)
  moreover have "f a ((pre @ bs) @ cs @ post) (length (pre @ bs)) = ROk b (length (pre @ bs) + length cs)"
    using assms(2) unfolding parses_def by blast
  ultimately show "rbind m f (pre @ (bs @ cs) @ post) (length pre) = ROk b (length pre + length (bs @ cs))"
    by (simp add: rbind_def add.assoc)
qed

lemma parses_rbind_rreturn: "parses m bs a \<Longrightarrow> parses (rbind m (\<lambda>a. rreturn (f a))) bs (f a)"
  using parses_rbind [of m bs a "\<lambda>a. rreturn (f a)", OF _ parses_rreturn] by simp

lemma parses_check:
  assumes "n \<le> length bs" "parses r bs x"
  shows "parses (rbind (WIRE_CHECK n) (\<lambda>_. r)) bs x"
  using assms by (simp add: parses_def rbind_def WIRE_CHECK_def)

lemma parses_mem: "parses (mem (length bs)) bs bs"
  by (simp add: parses_def mem_def)

text \<open>Big-endian words: reading back the bytes of a word gives the word.\<close>

definition be_bytes :: "nat \<Rightarrow> 'a::len word \<Rightarrow> string" where
  "be_bytes n v = map (\<lambda>i. b8 (drop_bit (i * 8) v)) (rev [0..<n])"

lemma fold_be_bytes:
  "fold (\<lambda>c v. push_bit 8 v OR w8 c) (be_bytes n v) acc = push_bit (n * 8) acc OR take_bit (n * 8) v"
proof (induction n arbitrary: acc)
  case 0
  show ?case by (simp add: be_bytes_def)
next
  case (Suc n)
  have "fold (\<lambda>c v. push_bit 8 v OR w8 c) (be_bytes (Suc n) v) acc =
        fold (\<lambda>c v. push_bit 8 v OR w8 c) (be_bytes n v) (push_bit 8 acc OR take_bit 8 (drop_bit (n * 8) v))"
    by (simp add: be_bytes_def w8_b8)
  also have "\<dots> = push_bit (n * 8) (push_bit 8 acc OR take_bit 8 (drop_bit (n * 8) v)) OR take_bit (n * 8) v"
    by (rule Suc.IH)
  also have "\<dots> = push_bit (Suc n * 8) acc OR take_bit (Suc n * 8) v"
    by (rule bit_word_eqI) (auto simp: bit_simps ac_simps)
  finally show ?case .
qed

lemma length_be_bytes [simp]: "length (be_bytes n v) = n"
  by (simp add: be_bytes_def)

lemma write_be: "write_u8 v8 = be_bytes 1 v8" "write_u16 v16 = be_bytes 2 v16"
  "write_u32 v32 = be_bytes 4 v32" "write_u64 v64 = be_bytes 8 v64"
  by (simp_all add: write_u8_def write_u16_def write_u32_def write_u64_def be_bytes_def b8_mask
      eval_nat_numeral)

lemma or_push_bits:
  "push_bit 8 a OR b = push_bit 8 (push_bit 8 0 OR a) OR (b :: 'a::len word)"
  "push_bit 24 a OR push_bit 16 b OR push_bit 8 c OR d =
   push_bit 8 (push_bit 8 (push_bit 8 (push_bit 8 0 OR a) OR b) OR c) OR (d :: 'a::len word)"
  by (simp_all only: push_bit_of_0 or.left_neutral push_bit_or push_bit_push_bit or.assoc
      numeral_plus_numeral add_num_simps)

lemma fold_bytes:
  "push_bit 8 (w8 a) OR w8 b = fold (\<lambda>c v. push_bit 8 v OR w8 c) [a, b] (0 :: 'a::len word)"
  "push_bit 24 (w8 a) OR push_bit 16 (w8 b) OR push_bit 8 (w8 c) OR w8 d =
   fold (\<lambda>c v. push_bit 8 v OR w8 c) [a, b, c, d] (0 :: 'a::len word)"
  by (subst or_push_bits, simp only: fold_simps)+

lemma fold_be_word:
  fixes v :: "'a::len word"
  shows "LENGTH('a) \<le> n * 8 \<Longrightarrow> fold (\<lambda>c v. push_bit 8 v OR w8 c) (be_bytes n v) (0 :: 'a word) = v"
  by (simp add: fold_be_bytes take_bit_word_eq_self)

lemma length_writes [simp]: "length (write_u8 v8) = 1" "length (write_u16 v16) = 2"
  "length (write_u32 v32) = 4" "length (write_u64 v64) = 8"
  by (simp_all add: write_be)

lemma word_values:
  "w8 (write_u8 v8 ! 0) = v8"
  "push_bit 8 (w8 (write_u16 v16 ! 0)) OR w8 (write_u16 v16 ! 1) = v16"
  "push_bit 24 (w8 (write_u32 v32 ! 0)) OR push_bit 16 (w8 (write_u32 v32 ! 1)) OR
     push_bit 8 (w8 (write_u32 v32 ! 2)) OR w8 (write_u32 v32 ! 3) = v32"
  "fold (\<lambda>c v. push_bit 8 v OR w8 c) (write_u64 v64) 0 = v64"
proof -
  have bs: "be_bytes 2 v16 = [be_bytes 2 v16 ! 0, be_bytes 2 v16 ! 1]"
    "be_bytes 4 v32 = [be_bytes 4 v32 ! 0, be_bytes 4 v32 ! 1, be_bytes 4 v32 ! 2, be_bytes 4 v32 ! 3]"
    by (simp_all add: be_bytes_def eval_nat_numeral)
  show "w8 (write_u8 v8 ! 0) = v8"
    by (simp add: write_u8_def w8_b8 take_bit_word_eq_self)
  show "push_bit 8 (w8 (write_u16 v16 ! 0)) OR w8 (write_u16 v16 ! 1) = v16"
    unfolding write_be fold_bytes(1) bs(1) [symmetric] by (rule fold_be_word) simp
  show "push_bit 24 (w8 (write_u32 v32 ! 0)) OR push_bit 16 (w8 (write_u32 v32 ! 1)) OR
     push_bit 8 (w8 (write_u32 v32 ! 2)) OR w8 (write_u32 v32 ! 3) = v32"
    unfolding write_be fold_bytes(2) bs(2) [symmetric] by (rule fold_be_word) simp
  show "fold (\<lambda>c v. push_bit 8 v OR w8 c) (write_u64 v64) 0 = v64"
    using fold_be_word [of 8 v64] unfolding write_be by simp
qed

lemma parses_read_mem: "f bs = v \<Longrightarrow> length bs = n \<Longrightarrow> parses (rbind (mem n) (\<lambda>bs. rreturn (f bs))) bs v"
  using parses_rbind_rreturn [OF parses_mem, of bs f] by simp

lemma parses_words:
  "parses read_u8 (write_u8 v8) v8" "parses read_u16 (write_u16 v16) v16"
  "parses read_u32 (write_u32 v32) v32" "parses read_u64 (write_u64 v64) v64"
  unfolding read_u8_def read_u16_def read_u32_def read_u64_def
  by (rule parses_read_mem; (rule word_values length_writes))+

text \<open>What the format can carry: a present string is not empty, has no NUL and fits 16 bits.\<close>

definition wire_str :: "string \<Rightarrow> bool" where
  "wire_str s \<longleftrightarrow> s \<noteq> [] \<and> CHR 0x00 \<notin> set s \<and> length s < 2 ^ 16"

lemma wire_str_len16: "wire_str s \<Longrightarrow> unat (len16 s) = length s" "wire_str s \<Longrightarrow> len16 s \<noteq> 0"
proof -
  assume s: "wire_str s"
  then show len: "unat (len16 s) = length s"
    by (simp add: len16_def wire_str_def unsigned_of_nat take_bit_nat_eq_self)
  with s show "len16 s \<noteq> 0" by (auto simp: wire_str_def)
qed

lemma unat_len16_le: "unat (len16 s) \<le> length s"
  by (simp add: len16_def unsigned_of_nat)

lemma length_write_str: "length (write_str s len) = 2 + min (unat len) (length s)"
  by (auto simp: write_str_def word_greater_zero_iff)

lemma parses_peek:
  assumes "parses r bs x"
  shows "peek r (pre @ bs @ post) (length pre) = ROk x (length pre)"
  using assms by (simp add: parses_def peek_def)

lemma cstring_id: "CHR 0x00 \<notin> set s \<Longrightarrow> cstring s = s"
  by (auto simp: cstring_def takeWhile_eq_all_conv)

lemma parses_checked_str_gen:
  assumes "parses read_str bs x" "bs = write_u16 len @ cs" "unat len \<le> length cs"
  shows "parses checked_str bs x"
  unfolding parses_def
proof (intro allI)
  fix pre post
  have "peek read_u16 (pre @ write_u16 len @ cs @ post) (length pre) = ROk len (length pre)"
    by (rule parses_peek) (rule parses_words)
  with assms show "checked_str (pre @ bs @ post) (length pre) = ROk x (length pre + length bs)"
    by (simp add: checked_str_def rbind_def WIRE_CHECK_def parses_def)
qed

lemma parses_str:
  assumes "wire_str s"
  shows "parses checked_str (write_str s (len16 s)) (Some s)"
proof (rule parses_checked_str_gen)
  note l = wire_str_len16 [OF assms]
  show w: "write_str s (len16 s) = write_u16 (len16 s) @ s"
    using l by (simp add: write_str_def word_greater_zero_iff)
  have "parses (rbind (mem (unat (len16 s))) (\<lambda>bs. rreturn (Some (cstring bs)))) s (Some s)"
    using assms l(1) by (intro parses_read_mem) (auto simp: cstring_id wire_str_def)
  with l(2) show "parses read_str (write_str s (len16 s)) (Some s)"
    unfolding read_str_def w by (intro parses_rbind [OF parses_words(2)]) simp
qed (simp add: wire_str_len16 [OF assms])

lemma parses_str_empty: "parses checked_str (write_str [] (len16 [])) None"
proof (rule parses_checked_str_gen)
  show "parses read_str (write_str [] (len16 [])) None"
    using parses_rbind [OF parses_words(2) [of 0], of
      "\<lambda>len. if len = 0 then rreturn None else rbind (mem (unat len)) (\<lambda>bs. rreturn (Some (cstring bs)))"]
      parses_rreturn
    by (fastforce simp: read_str_def write_str_def len16_def)
qed (auto simp: write_str_def len16_def)

definition wire_opt :: "string option \<Rightarrow> bool" where
  "wire_opt s \<longleftrightarrow> (case s of None \<Rightarrow> True | Some x \<Rightarrow> wire_str x)"

lemma parses_opt: "wire_opt s \<Longrightarrow> parses checked_str (write_str (opt_str s) (len16 (opt_str s))) s"
  by (cases s) (simp_all add: wire_opt_def opt_str_def parses_str parses_str_empty)

definition wire_headers :: "portal_header list \<Rightarrow> bool" where
  "wire_headers hs \<longleftrightarrow> length hs \<le> PORTAL_MAX_HEADERS \<and>
     (\<forall>(k, v)\<in>set hs. k \<noteq> None \<and> v \<noteq> None \<and> wire_opt k \<and> wire_opt v)"

lemma hdr_strs_Some: "hdr_strs (map (\<lambda>(k, v). (Some k, Some v)) xs) = Some xs"
  by (induction xs) (auto simp: hdr_strs_def)

lemma wire_headersE:
  assumes "wire_headers hs"
  obtains xs where "hs = map (\<lambda>(k, v). (Some k, Some v)) xs" "length xs \<le> PORTAL_MAX_HEADERS"
    "\<forall>(k, v)\<in>set xs. wire_str k \<and> wire_str v"
proof
  let ?xs = "map (\<lambda>(k, v). (the k, the v)) hs"
  show "hs = map (\<lambda>(k, v). (Some k, Some v)) ?xs"
    using assms by (auto simp: wire_headers_def map_idI split_beta intro!: map_idI [symmetric])
  show "length ?xs \<le> PORTAL_MAX_HEADERS" "\<forall>(k, v)\<in>set ?xs. wire_str k \<and> wire_str v"
    using assms by (auto simp: wire_headers_def wire_opt_def)
qed

lemma parses_headers:
  assumes "\<forall>(k, v)\<in>set xs. wire_str k \<and> wire_str v"
  shows "parses (read_headers (length xs)) (write_headers xs) (map (\<lambda>(k, v). (Some k, Some v)) xs)"
  using assms
proof (induction xs)
  case Nil
  show ?case by (simp add: write_headers_def parses_rreturn)
next
  case (Cons x xs)
  obtain k v where x: "x = (k, v)" by (cases x)
  have w: "write_headers ((k, v) # xs) = write_str k (len16 k) @ write_str v (len16 v) @ write_headers xs"
    by (simp add: write_headers_def)
  show ?case
    unfolding x w length_Cons read_headers.simps list.map prod.case
    using Cons x
    by (auto intro: parses_rbind [OF parses_str [of k] parses_rbind [OF parses_str [of v]
          parses_rbind_rreturn [of "read_headers (length xs)"]]])
qed

lemma portal_labels_add_new:
  "length ls < PORTAL_MAX_LABELS \<Longrightarrow> l \<notin> set ls \<Longrightarrow> label_fits l \<Longrightarrow> portal_labels_add ls l = (0, ls @ [l])"
  by (rule portal_labels_add_cases [of ls l]) (auto simp: label_fits_def cstr_simps)

lemma parses_labels:
  assumes "\<forall>l\<in>set xs. wire_str l \<and> label_fits l" "distinct (ls @ xs)" "length (ls @ xs) \<le> PORTAL_MAX_LABELS"
  shows "parses (read_labels (length xs) ls) (concat (map (\<lambda>l. write_str l (len16 l)) xs)) (ls @ xs)"
  using assms
proof (induction xs arbitrary: ls)
  case Nil
  show ?case by (simp add: parses_rreturn)
next
  case (Cons x xs)
  have "portal_labels_add ls x = (0, ls @ [x])" using Cons.prems by (intro portal_labels_add_new) auto
  moreover have "parses (read_labels (length xs) (ls @ [x])) (concat (map (\<lambda>l. write_str l (len16 l)) xs)) (ls @ x # xs)"
    using Cons.IH [of "ls @ [x]"] Cons.prems by simp
  ultimately show ?case
    unfolding length_Cons read_labels.simps list.map concat.simps
    using Cons.prems(1) by (auto intro!: parses_rbind [OF parses_str [of x]])
qed

lemma parses_body:
  assumes "length body < 2 ^ 32"
  shows "parses (read_body []) (write_blob body (word_of_nat (length body))) body"
proof -
  let ?len = "word_of_nat (length body) :: 32 word"
  have len: "unat ?len = length body" using assms by (simp add: unsigned_of_nat take_bit_nat_eq_self)
  have "parses (if 0 < ?len then rbind (WIRE_CHECK (unat ?len)) (\<lambda>_. mem (unat ?len)) else rreturn [])
          (if 0 < ?len then take (unat ?len) body else []) body"
    using len parses_check [of "length body" body "mem (length body)" body] parses_mem parses_rreturn
    by (auto simp: word_greater_zero_iff unat_eq_zero)
  then show ?thesis
    unfolding read_body_def write_blob_def
    by (intro parses_check parses_rbind [OF parses_words(3)]) simp_all
qed

lemma parses_trace:
  "parses read_trace (write_u64 (trace_id t) @ write_u64 (parent_id t) @ write_u64 (timestamp_us t) @ write_u16 (hops t)) t"
proof -
  have "parses (rbind read_u16 (\<lambda>h. rreturn \<lparr>trace_id = trace_id t, parent_id = parent_id t,
          timestamp_us = timestamp_us t, hops = h\<rparr>)) (write_u16 (hops t))
        \<lparr>trace_id = trace_id t, parent_id = parent_id t, timestamp_us = timestamp_us t, hops = hops t\<rparr>"
    by (rule parses_rbind_rreturn) (rule parses_words)
  moreover have "\<lparr>trace_id = trace_id t, parent_id = parent_id t, timestamp_us = timestamp_us t, hops = hops t\<rparr> = t"
    by simp
  ultimately show ?thesis
    unfolding read_trace_def by (intro parses_rbind [OF parses_words(4)]) (simp only:)
qed

definition wire_ctx :: "portal_ctx \<Rightarrow> bool" where
  "wire_ctx c \<longleftrightarrow>
     wire_opt (auth_user (ctx_auth c)) \<and> wire_opt (auth_token (ctx_auth c)) \<and>
     labels_inv (auth_labels (ctx_auth c)) \<and> (\<forall>l\<in>set (auth_labels (ctx_auth c)). wire_str l) \<and>
     source_node c = None \<and> source_module c = None"

lemma parses_ctx:
  assumes "wire_ctx c"
  shows "parses read_ctx (write_ctx c) c"
proof -
  let ?ls = "auth_labels (ctx_auth c)"
  have ls: "length ?ls \<le> PORTAL_MAX_LABELS" "distinct ?ls" "\<forall>l\<in>set ?ls. wire_str l \<and> label_fits l"
    using assms by (auto simp: wire_ctx_def labels_inv_def labels_wf_def label_fits_def)
  then have n: "unat (word_of_nat (length ?ls) :: 16 word) = length ?ls"
    by (simp add: unsigned_of_nat take_bit_nat_eq_self)
  have "ctx_zero\<lparr>ctx_auth := \<lparr>auth_user = auth_user (ctx_auth c), auth_token = auth_token (ctx_auth c),
          auth_labels = ?ls\<rparr>, ctx_trace := ctx_trace c\<rparr> = c"
    using assms by (simp add: ctx_zero_def wire_ctx_def)
  moreover have "parses (read_labels (min (unat (word_of_nat (length ?ls) :: 16 word)) PORTAL_MAX_LABELS) [])
      (concat (map (\<lambda>l. write_str l (len16 l)) ?ls)) ?ls"
    using parses_labels [of ?ls "[]"] ls n by simp
  ultimately have labels: "parses (rbind (WIRE_CHECK 2) (\<lambda>_. rbind read_u16 (\<lambda>label_count.
     rbind (read_labels (min (unat label_count) PORTAL_MAX_LABELS) []) (\<lambda>ls.
       rreturn (ctx_zero\<lparr>ctx_auth := \<lparr>auth_user = auth_user (ctx_auth c), auth_token = auth_token (ctx_auth c),
          auth_labels = ls\<rparr>, ctx_trace := ctx_trace c\<rparr>)))))
      (write_u16 (word_of_nat (length ?ls)) @ concat (map (\<lambda>l. write_str l (len16 l)) ?ls)) c"
    by (auto intro!: parses_check parses_rbind [OF parses_words(2)] dest: parses_rbind_rreturn
        [where f = "\<lambda>ls. ctx_zero\<lparr>ctx_auth := \<lparr>auth_user = auth_user (ctx_auth c), auth_token = auth_token (ctx_auth c),
          auth_labels = ls\<rparr>, ctx_trace := ctx_trace c\<rparr>"])
  have "parses (rbind (WIRE_CHECK (8 + 8 + 8 + 2)) (\<lambda>_. rbind read_trace (\<lambda>tr.
     rbind (WIRE_CHECK 2) (\<lambda>_. rbind read_u16 (\<lambda>label_count.
     rbind (read_labels (min (unat label_count) PORTAL_MAX_LABELS) []) (\<lambda>ls.
       rreturn (ctx_zero\<lparr>ctx_auth := \<lparr>auth_user = auth_user (ctx_auth c), auth_token = auth_token (ctx_auth c),
          auth_labels = ls\<rparr>, ctx_trace := tr\<rparr>)))))))
     ((write_u64 (trace_id (ctx_trace c)) @ write_u64 (parent_id (ctx_trace c)) @
       write_u64 (timestamp_us (ctx_trace c)) @ write_u16 (hops (ctx_trace c))) @
      write_u16 (word_of_nat (length ?ls)) @ concat (map (\<lambda>l. write_str l (len16 l)) ?ls)) c"
    by (intro parses_check parses_rbind [OF parses_trace] labels) simp
  then show ?thesis
    unfolding read_ctx_def write_ctx_def using assms
    by (auto simp: wire_ctx_def intro!: parses_rbind [OF parses_opt])
qed

definition wire_msg :: "portal_msg \<Rightarrow> bool" where
  "wire_msg msg \<longleftrightarrow> wire_opt (msg_path msg) \<and> wire_headers (msg_headers msg) \<and>
     length (msg_body msg) < 2 ^ 32 \<and> (case msg_ctx msg of None \<Rightarrow> True | Some c \<Rightarrow> wire_ctx c)"

definition wire_resp :: "portal_resp \<Rightarrow> bool" where
  "wire_resp resp \<longleftrightarrow> wire_headers (resp_headers resp) \<and> length (resp_body resp) < 2 ^ 32"

lemma unat_length_16: "length xs \<le> 32 \<Longrightarrow> unat (word_of_nat (length xs) :: 16 word) = length xs"
  by (simp add: unsigned_of_nat take_bit_nat_eq_self)

lemma parses_opt_ctx:
  assumes "case msg_ctx msg of None \<Rightarrow> True | Some c \<Rightarrow> wire_ctx c"
  shows "parses (rbind (WIRE_CHECK 1) (\<lambda>_. rbind read_u8 (\<lambda>has_ctx.
       rbind (if has_ctx \<noteq> 0 then rbind read_ctx (\<lambda>c. rreturn (Some c)) else rreturn None) (\<lambda>c. rreturn (f c)))))
     (case msg_ctx msg of None \<Rightarrow> write_u8 0 | Some c \<Rightarrow> write_u8 1 @ write_ctx c) (f (msg_ctx msg))"
proof (cases "msg_ctx msg")
  case None
  have "parses (rbind (rreturn None) (\<lambda>c. rreturn (f c))) [] (f None)"
    by (rule parses_rbind_rreturn) (rule parses_rreturn)
  then have "parses (rbind read_u8 (\<lambda>has_ctx. rbind (if has_ctx \<noteq> 0 then rbind read_ctx (\<lambda>c. rreturn (Some c))
      else rreturn None) (\<lambda>c. rreturn (f c)))) (write_u8 0 @ []) (f None)"
    by (intro parses_rbind [OF parses_words(1)]) simp
  with None show ?thesis by (simp add: parses_check)
next
  case (Some c)
  with assms have "parses (rbind read_ctx (\<lambda>c. rreturn (Some c))) (write_ctx c) (Some c)"
    by (intro parses_rbind_rreturn parses_ctx) simp
  with Some show ?thesis
    by (auto intro!: parses_check parses_rbind [OF parses_words(1)] parses_rbind_rreturn)
qed

lemma parses_count_headers:
  assumes "length xs \<le> PORTAL_MAX_HEADERS" "\<forall>(k, v)\<in>set xs. wire_str k \<and> wire_str v"
    and "parses (k (map (\<lambda>(k, v). (Some k, Some v)) xs)) rest y"
  shows "parses (rbind read_u16 (\<lambda>n. if PORTAL_MAX_HEADERS < unat n then rfail else rbind (read_headers (unat n)) k))
     (write_u16 (word_of_nat (length xs)) @ write_headers xs @ rest) y"
proof (rule parses_rbind [OF parses_words(2)])
  have "parses (rbind (read_headers (length xs)) k) (write_headers xs @ rest) y"
    by (rule parses_rbind [OF parses_headers]) (use assms in auto)
  with assms(1) show "parses (if PORTAL_MAX_HEADERS < unat (word_of_nat (length xs) :: 16 word) then rfail
      else rbind (read_headers (unat (word_of_nat (length xs) :: 16 word))) k) (write_headers xs @ rest) y"
    by (simp add: unat_length_16)
qed

lemma parses_msg:
  assumes "wire_msg msg" and xs: "msg_headers msg = map (\<lambda>(k, v). (Some k, Some v)) xs"
    "length xs \<le> PORTAL_MAX_HEADERS" "\<forall>(k, v)\<in>set xs. wire_str k \<and> wire_str v"
    and m0: "msg_body msg0 = []" "msg_ctx msg0 = None"
  shows "parses (wire_read_msg msg0)
     (write_u32 len @ write_u64 (msg_id msg) @ write_u8 (msg_method msg) @
      write_str (opt_str (msg_path msg)) (len16 (opt_str (msg_path msg))) @
      write_u16 (word_of_nat (length xs)) @ write_headers xs @
      write_blob (msg_body msg) (word_of_nat (length (msg_body msg))) @
      (case msg_ctx msg of None \<Rightarrow> write_u8 0 | Some c \<Rightarrow> write_u8 1 @ write_ctx c)) msg"
proof -
  have eq: "msg0\<lparr>msg_id := msg_id msg, msg_method := msg_method msg, msg_path := msg_path msg,
      msg_headers := map (\<lambda>(k, v). (Some k, Some v)) xs, msg_body := msg_body msg, msg_ctx := msg_ctx msg\<rparr> = msg"
    using xs(1) by simp
  note ctx = parses_opt_ctx [of msg "\<lambda>c. msg0\<lparr>msg_id := msg_id msg, msg_method := msg_method msg,
      msg_path := msg_path msg, msg_headers := map (\<lambda>(k, v). (Some k, Some v)) xs,
      msg_body := msg_body msg, msg_ctx := c\<rparr>", unfolded eq]
  have ok: "wire_opt (msg_path msg)" "length (msg_body msg) < 2 ^ 32"
      "case msg_ctx msg of None \<Rightarrow> True | Some c \<Rightarrow> wire_ctx c"
    using assms(1) by (simp_all add: wire_msg_def)
  show ?thesis
    unfolding wire_read_msg_def m0
    by (rule parses_check, simp, rule parses_rbind [OF parses_words(3)],
        rule parses_check, simp, rule parses_rbind [OF parses_words(4)],
        rule parses_check, simp, rule parses_rbind [OF parses_words(1)],
        rule parses_rbind [OF parses_opt [OF ok(1)]],
        rule parses_check, simp, rule parses_count_headers [OF xs(2,3)],
        rule parses_rbind [OF parses_body [OF ok(2)]], rule ctx [OF ok(3)])
qed

subsection \<open>Sizes\<close>

lemma length_write_len16: "length (write_str s (len16 s)) = 2 + unat (len16 s)"
  using unat_len16_le [of s] by (simp add: length_write_str)

lemma length_write_headers: "length (write_headers hs) \<le> headers_size hs"
  by (induction hs) (auto simp: write_headers_def headers_size_def length_write_len16
      intro!: add_mono unat_len16_le)

lemma length_write_headers_eq:
  "\<forall>(k, v)\<in>set hs. wire_str k \<and> wire_str v \<Longrightarrow> length (write_headers hs) = headers_size hs"
  by (induction hs) (auto simp: write_headers_def headers_size_def length_write_len16 wire_str_len16)

lemma length_write_blob: "length (write_blob d len) = 4 + min (unat len) (length d)"
  by (auto simp: write_blob_def word_greater_zero_iff)

lemma length_write_labels: "length (concat (map (\<lambda>l. write_str l (len16 l)) ls)) \<le> sum_list (map (\<lambda>l. 2 + length l) ls)"
  by (induction ls) (auto simp: length_write_len16 intro!: add_mono unat_len16_le)

lemma length_write_labels_eq: "\<forall>l\<in>set ls. wire_str l \<Longrightarrow>
   length (concat (map (\<lambda>l. write_str l (len16 l)) ls)) = sum_list (map (\<lambda>l. 2 + length l) ls)"
  by (induction ls) (auto simp: length_write_len16 wire_str_len16)

lemma length_write_ctx: "length (write_ctx c) \<le> ctx_size c"
  using length_write_labels [of "auth_labels (ctx_auth c)"]
  by (simp add: write_ctx_def ctx_size_def length_write_len16 del: length_concat)

lemma length_write_ctx_eq: "wire_ctx c \<Longrightarrow> length (write_ctx c) = ctx_size c"
  using length_write_labels_eq [of "auth_labels (ctx_auth c)"]
  by (simp add: write_ctx_def ctx_size_def wire_ctx_def length_write_len16 del: length_concat)

subsection \<open>Properties\<close>

text \<open>
  Property C10. The bounds checks suffice: on every input of any length, whatever its bytes
  say about lengths and counts, neither decoder reads a byte outside the buffer.
\<close>

theorem wire_decode_in_bounds:
  "portal_wire_decode_msg buf msg \<noteq> ROverrun \<and> portal_wire_decode_resp buf resp \<noteq> ROverrun"
  using safe_read_msg [of msg] safe_read_resp [of resp]
  by (auto simp: portal_wire_decode_msg_def portal_wire_decode_resp_def safe_def split: read_result.splits
      dest!: spec [where x = buf] spec [where x = 0])

lemma encode_msg_decodes:
  assumes "wire_msg msg" and m0: "msg_body msg0 = []" "msg_ctx msg0 = None"
  shows "\<exists>bs. portal_wire_encode_msg msg = Some (bs, length bs) \<and>
              portal_wire_decode_msg (bs @ rest) msg0 = ROk msg (length bs)"
proof -
  obtain xs where xs: "msg_headers msg = map (\<lambda>(k, v). (Some k, Some v)) xs" "length xs \<le> PORTAL_MAX_HEADERS"
    "\<forall>(k, v)\<in>set xs. wire_str k \<and> wire_str v"
    using assms wire_headersE [of "msg_headers msg"] by (auto simp: wire_msg_def)
  define n where "n = 4 + (8 + 1) + (2 + unat (len16 (opt_str (msg_path msg)))) + 2 + headers_size xs +
      (4 + length (msg_body msg)) + 1 + (case msg_ctx msg of None \<Rightarrow> 0 | Some c \<Rightarrow> ctx_size c)"
  define bs where "bs = write_u32 (word_of_nat (n - 4)) @ write_u64 (msg_id msg) @ write_u8 (msg_method msg) @
      write_str (opt_str (msg_path msg)) (len16 (opt_str (msg_path msg))) @
      write_u16 (word_of_nat (length xs)) @ write_headers xs @
      write_blob (msg_body msg) (word_of_nat (length (msg_body msg))) @
      (case msg_ctx msg of None \<Rightarrow> write_u8 0 | Some c \<Rightarrow> write_u8 1 @ write_ctx c)"
  have enc: "portal_wire_encode_msg msg = Some (bs, n)"
    by (simp add: portal_wire_encode_msg_def Let_def hdr_strs_Some xs(1) bs_def n_def)
  have len: "length bs = n"
    using assms(1) unfolding bs_def n_def
    by (auto simp: length_write_len16 length_write_headers_eq [OF xs(3)] length_write_blob wire_msg_def
        length_write_ctx_eq unsigned_of_nat take_bit_nat_eq_self split: option.splits)
  have "parses (wire_read_msg msg0) bs msg"
    unfolding bs_def
    by (rule parses_msg [OF assms(1) xs m0])
  then have "wire_read_msg msg0 ([] @ bs @ rest) (length ([] :: string)) = ROk msg (length bs)"
    unfolding parses_def by (metis add_0 list.size(3))
  with enc len show ?thesis by (simp add: portal_wire_decode_msg_def n_def)
qed

text \<open>
  Property C11. Every message that the format can carry (strings that are present are not
  empty, have no NUL and fit 16 bits; at most 32 headers; distinct labels that fit) is
  encoded into exactly the allocated size and decoded back to the same message, also when
  other bytes follow in the buffer.
\<close>

theorem wire_msg_round_trip:
  assumes "wire_msg msg"
  shows "\<exists>bs. portal_wire_encode_msg msg = Some (bs, length bs) \<and>
              portal_wire_decode_msg (bs @ rest) (fst (portal_msg_alloc g)) = ROk msg (length bs)"
  by (rule encode_msg_decodes [OF assms]) (simp_all add: portal_msg_alloc_def portal_msg_next_id_def)

theorem wire_msg_round_trip_witness:
  "\<exists>bs. portal_wire_encode_msg
     \<lparr>msg_id = 7, msg_path = Some ''/core/status'', msg_method = 1, msg_headers = [(Some ''k'', Some ''v'')],
      msg_body = ''x'', msg_ctx = Some (ctx_zero\<lparr>ctx_auth :=
        \<lparr>auth_user = Some ''bob'', auth_token = None, auth_labels = [''dev'']\<rparr>\<rparr>)\<rparr> = Some (bs, length bs)"
  using wire_msg_round_trip [of "\<lparr>msg_id = 7, msg_path = Some ''/core/status'', msg_method = 1,
      msg_headers = [(Some ''k'', Some ''v'')], msg_body = ''x'', msg_ctx = Some (ctx_zero\<lparr>ctx_auth :=
        \<lparr>auth_user = Some ''bob'', auth_token = None, auth_labels = [''dev'']\<rparr>\<rparr>)\<rparr>" "[]" 1]
  by (auto simp: wire_msg_def wire_opt_def wire_str_def wire_headers_def wire_ctx_def ctx_zero_def
      labels_inv_def labels_wf_def)

lemma encode_resp_decodes:
  assumes "wire_resp resp"
  shows "\<exists>bs. portal_wire_encode_resp resp = Some (bs, length bs) \<and>
              portal_wire_decode_resp (bs @ rest) portal_resp_alloc = ROk resp (length bs)"
proof -
  have ok: "wire_headers (resp_headers resp)" "length (resp_body resp) < 2 ^ 32"
    using assms by (simp_all add: wire_resp_def)
  from ok(1) obtain xs where xs: "resp_headers resp = map (\<lambda>(k, v). (Some k, Some v)) xs"
    "length xs \<le> PORTAL_MAX_HEADERS" "\<forall>(k, v)\<in>set xs. wire_str k \<and> wire_str v"
    by (rule wire_headersE)
  define n where "n = 4 + 2 + 2 + headers_size xs + (4 + length (resp_body resp))"
  define tl where "tl = write_headers xs @ write_blob (resp_body resp) (word_of_nat (length (resp_body resp)))"
  define bs where "bs = write_u32 (word_of_nat (n - 4)) @
      (write_u16 (resp_status resp) @ write_u16 (word_of_nat (length xs))) @ tl"
  have enc: "portal_wire_encode_resp resp = Some (bs, n)"
    by (simp add: portal_wire_encode_resp_def Let_def hdr_strs_Some xs(1) bs_def n_def tl_def)
  have len: "length bs = n"
    using ok(2) by (simp add: bs_def n_def tl_def length_write_headers_eq [OF xs(3)] length_write_blob
        unsigned_of_nat take_bit_nat_eq_self)
  have eq: "portal_resp_alloc\<lparr>resp_status := resp_status resp, resp_headers := map (\<lambda>(k, v). (Some k, Some v)) xs,
      resp_body := resp_body resp\<rparr> = resp" using xs(1) by simp
  have b0: "resp_body portal_resp_alloc = []" by (simp add: portal_resp_alloc_def)
  have "parses (rbind (read_headers (length xs)) (\<lambda>hs. rbind (read_body []) (\<lambda>body.
      rreturn (portal_resp_alloc\<lparr>resp_status := resp_status resp, resp_headers := hs, resp_body := body\<rparr>)))) tl
      (portal_resp_alloc\<lparr>resp_status := resp_status resp, resp_headers := map (\<lambda>(k, v). (Some k, Some v)) xs,
        resp_body := resp_body resp\<rparr>)"
    unfolding tl_def
    by (rule parses_rbind [OF parses_headers [OF xs(3)]], rule parses_rbind_rreturn, rule parses_body [OF ok(2)])
  note tail = this [unfolded eq]
  have "parses (wire_read_resp portal_resp_alloc) bs resp"
    unfolding wire_read_resp_def bs_def b0
    by (rule parses_check, simp, rule parses_rbind [OF parses_words(3)], rule parses_check, simp,
        rule parses_rbind, rule parses_rbind [OF parses_words(2)], rule parses_rbind_rreturn,
        rule parses_words(2)) (use tail xs(2) in \<open>simp add: unat_length_16\<close>)
  then have "wire_read_resp portal_resp_alloc ([] @ bs @ rest) (length ([] :: string)) = ROk resp (length bs)"
    unfolding parses_def by (metis add_0 list.size(3))
  with enc len show ?thesis by (simp add: portal_wire_decode_resp_def n_def)
qed

text \<open>
  Every response that the format can carry (header strings that are present are not
  empty, have no NUL and fit 16 bits; at most 32 headers) is encoded into exactly the allocated
  size and decoded back to the same response, also when other bytes follow.
\<close>

lemma wire_resp_round_trip:
  assumes "wire_resp resp"
  shows "\<exists>bs. portal_wire_encode_resp resp = Some (bs, length bs) \<and>
              portal_wire_decode_resp (bs @ rest) portal_resp_alloc = ROk resp (length bs)"
  by (rule encode_resp_decodes [OF assms])

text \<open>
  The encoder never writes more bytes than it allocates, for any message with
  header strings, and for any lengths: where a length does not fit its field, the field and
  the copied bytes are cut in the same way.
\<close>

lemma wire_encode_fits:
  "(case portal_wire_encode_msg msg of None \<Rightarrow> hdr_strs (msg_headers msg) = None
    | Some (bs, n) \<Rightarrow> length bs \<le> n) \<and>
   (case portal_wire_encode_resp resp of None \<Rightarrow> hdr_strs (resp_headers resp) = None
    | Some (bs, n) \<Rightarrow> length bs \<le> n)"
proof -
  have blob: "length (write_blob d (word_of_nat (length d))) \<le> 4 + length d" for d
    by (simp add: length_write_blob)
  have "length bs \<le> n" if "portal_wire_encode_msg msg = Some (bs, n)" for bs n
  proof -
    from that obtain hs where "hdr_strs (msg_headers msg) = Some hs"
      by (auto simp: portal_wire_encode_msg_def split: option.splits)
    with that length_write_headers [of hs] blob [of "msg_body msg"]
      length_write_ctx [of "the (msg_ctx msg)"] show ?thesis
      by (cases "msg_ctx msg") (fastforce simp: portal_wire_encode_msg_def Let_def length_write_len16)+
  qed
  moreover have "length bs \<le> n" if "portal_wire_encode_resp resp = Some (bs, n)" for bs n
  proof -
    from that obtain hs where "hdr_strs (resp_headers resp) = Some hs"
      by (auto simp: portal_wire_encode_resp_def split: option.splits)
    with that length_write_headers [of hs] blob [of "resp_body resp"] show ?thesis
      by (fastforce simp: portal_wire_encode_resp_def Let_def)
  qed
  ultimately show ?thesis
    by (auto simp: portal_wire_encode_msg_def portal_wire_encode_resp_def Let_def split: option.splits)
qed

text \<open>
  The length prefix frames the message: for an encoded message shorter than
  2 GiB, \<open>portal_wire_read_length\<close> returns the number of bytes behind the prefix.
\<close>

lemma wire_read_length_frames:
  assumes "portal_wire_encode_msg msg = Some (bs, n)" and "n < 2 ^ 31"
  shows "portal_wire_read_length bs = int n - 4"
proof -
  have four: "4 \<le> n" using assms(1)
    by (auto simp: portal_wire_encode_msg_def Let_def split: option.splits)
  from assms(1) obtain cs where bs: "bs = write_u32 (word_of_nat (n - 4)) @ cs"
    by (auto simp: portal_wire_encode_msg_def Let_def split: option.splits)
  have "portal_wire_read_length bs = sint (word_of_nat (n - 4) :: 32 word)"
    unfolding portal_wire_read_length_def bs
    using word_values(3) [of "word_of_nat (n - 4)"] by (simp add: nth_append)
  also have "\<dots> = int (n - 4)"
    using assms(2) by (simp add: signed_of_nat signed_take_bit_int_eq_self)
  finally show ?thesis using four by simp
qed

end
