(* ===== verification/Daemon.thy ===== *)
theory Daemon
  imports Requests Wire
begin

section \<open>The daemon (main.c)\<close>

text \<open>
  Start-up, the two network listeners and the periodic work of \<^verbatim>\<open>src/main.c\<close>. A TCP connection is
  the list of the pieces that successive calls of \<open>read\<close> find, an empty piece or the end of the
  list standing for the end of the stream or an error. Descriptors that \<open>socket\<close> and \<open>accept\<close>
  return are arguments, negative when the call fails; bytes written and descriptors closed are
  effects of the instance. The callbacks handed to the event loop are numbered.
\<close>

abbreviation (input) EV_READ :: "32 word" where "EV_READ \<equiv> 1"
abbreviation (input) ON_TCP_CLIENT :: nat where "ON_TCP_CLIENT \<equiv> 1"
abbreviation (input) ON_TCP_ACCEPT :: nat where "ON_TCP_ACCEPT \<equiv> 2"
abbreviation (input) ON_UDP_DATA :: nat where "ON_UDP_DATA \<equiv> 3"
abbreviation (input) SESSION_CLEANUP_CB :: nat where "SESSION_CLEANUP_CB \<equiv> 4"
abbreviation (input) SIGHUP_CB :: nat where "SIGHUP_CB \<equiv> 5"

subsection \<open>Reading from a connection\<close>

fun recv_some :: "nat \<Rightarrow> string list \<Rightarrow> string \<times> string list" where
  "recv_some n [] = ([], [])"
| "recv_some n (c # cs) = (if length c \<le> n then (c, cs) else (take n c, drop n c # cs))"

function recv_body :: "nat \<Rightarrow> string list \<Rightarrow> string option \<times> string list" where
  "recv_body need chunks =
     (if need = 0 then (Some [], chunks)
      else case recv_some need chunks of
        (b, cs) \<Rightarrow>
          if b = [] then (None, cs)
          else (case recv_body (need - length b) cs of (rest, cs) \<Rightarrow> (map_option ((@) b) rest, cs)))"
  by pat_completeness auto
termination
  by (relation "measure fst") auto

declare recv_body.simps [simp del]

subsection \<open>Requests from the network\<close>

definition zero_msg :: portal_msg where
  "zero_msg = \<lparr>msg_id = 0, msg_path = None, msg_method = 0, msg_headers = [], msg_body = [], msg_ctx = None\<rparr>"

definition serve_frame :: "env \<Rightarrow> int \<Rightarrow> string \<Rightarrow> portal_instance \<Rightarrow> portal_instance outcome" where
  "serve_frame env fd frame inst =
     (case portal_wire_decode_msg frame zero_msg of
        RFail \<Rightarrow> Inr inst
      | ROverrun \<Rightarrow> Inl Over_read
      | ROk incoming _ \<Rightarrow>
          obind (api_send env incoming portal_resp_alloc inst) (\<lambda>(rc, incoming, resp, inst).
            case portal_wire_encode_resp resp of
              None \<Rightarrow> Inl Null_deref
            | Some (bs, n) \<Rightarrow> Inr (log_effects [Sent fd (take n bs)] inst)))"

definition drop_client :: "int \<Rightarrow> portal_instance \<Rightarrow> portal_instance" where
  "drop_client fd inst = log_effects [Closed fd] (snd (api_fd_del inst fd))"

text \<open>\<open>EV_ERROR\<close> is the highest bit of the event mask.\<close>

definition on_tcp_client ::
    "env \<Rightarrow> int \<Rightarrow> 32 word \<Rightarrow> string list \<Rightarrow> portal_instance \<Rightarrow> (string list \<times> portal_instance) outcome" where
  "on_tcp_client env fd events chunks inst =
     (if bit events 31 then Inr (chunks, drop_client fd inst)
      else case recv_some 4 chunks of
        (hdr, chunks) \<Rightarrow>
          if length hdr \<noteq> 4 then Inr (chunks, drop_client fd inst)
          else
            let msg_len = portal_wire_read_length hdr
            in if msg_len \<le> 0 \<or> 65536 < msg_len then Inr (chunks, drop_client fd inst)
               else case recv_body (nat msg_len) chunks of
                 (None, chunks) \<Rightarrow> Inr (chunks, log_effects [Closed fd] inst)
               | (Some body, chunks) \<Rightarrow>
                   obind (serve_frame env fd (hdr @ body) inst) (\<lambda>inst. Inr (chunks, inst)))"

definition on_tcp_accept :: "int \<Rightarrow> portal_instance \<Rightarrow> portal_instance" where
  "on_tcp_accept client inst =
     (if client < 0 then inst else snd (api_fd_add inst client EV_READ (Some ON_TCP_CLIENT) None))"

text \<open>One datagram; \<open>None\<close> is an error of \<open>recvfrom\<close>, and what does not fit the buffer is cut.\<close>

definition on_udp_data :: "env \<Rightarrow> int \<Rightarrow> string option \<Rightarrow> portal_instance \<Rightarrow> portal_instance outcome" where
  "on_udp_data env fd datagram inst =
     (case datagram of
        None \<Rightarrow> Inr inst
      | Some bytes \<Rightarrow>
          let buf = take 65536 bytes
          in if length buf \<le> 4 then Inr inst else serve_frame env fd buf inst)"

text \<open>
  \<open>bound\<close> tells whether \<open>bind\<close> succeeds on the descriptor; one that is not bound is closed.
\<close>

definition start_listener :: "int \<Rightarrow> int \<Rightarrow> bool \<Rightarrow> nat \<Rightarrow> portal_instance \<Rightarrow> portal_instance" where
  "start_listener port fd bound callback inst =
     (if port \<le> 0 \<or> fd < 0 then inst
      else if bound then snd (api_fd_add inst fd EV_READ (Some callback) None)
      else log_effects [Closed fd] inst)"

definition start_network_listeners :: "int \<Rightarrow> bool \<Rightarrow> int \<Rightarrow> bool \<Rightarrow> portal_instance \<Rightarrow> portal_instance" where
  "start_network_listeners tcp_fd tcp_bound udp_fd udp_bound inst =
     start_listener (cf_udp_port (in_config inst)) udp_fd udp_bound ON_UDP_DATA
       (start_listener (cf_tcp_port (in_config inst)) tcp_fd tcp_bound ON_TCP_ACCEPT inst)"

subsection \<open>Periodic work\<close>

definition session_cleanup_cb :: "env \<Rightarrow> portal_instance \<Rightarrow> portal_instance" where
  "session_cleanup_cb env inst =
     inst\<lparr>in_auth := snd (portal_auth_cleanup_sessions (in_auth inst) (ev_now env)),
          in_locks := lock_cleanup (in_locks inst) (sint (ev_now env))\<rparr>"

definition load_users_file :: "portal_instance \<Rightarrow> portal_instance" where
  "load_users_file inst =
     (case portal_auth_load_users (in_fs inst) (in_auth inst) (cf_users_file (in_config inst)) (in_rnd inst) of
        (n, auth, rs) \<Rightarrow> inst\<lparr>in_auth := auth, in_rnd := rs\<rparr>)"

definition sighup_cb :: "portal_instance \<Rightarrow> portal_instance" where
  "sighup_cb inst = load_users_file inst"

subsection \<open>Start-up\<close>

text \<open>
  The part of \<open>main\<close> between the command line and the event loop. \<open>instance_name\<close> is the argument of
  the option \<open>-n\<close>; \<open>readdir\<close> gives the names in a directory. Creating the directories of the store,
  the choice between foreground and background and the log level have no effect on the instance.
  The interval of the timer is the number 60.0 as the bits of a \<open>double\<close>.
  The path of the configuration file of a named instance lives in a block that has ended when it
  is used; the model takes it to be still there.
\<close>

definition instance_dir :: "string \<Rightarrow> string" where
  "instance_dir name = csnprintf PORTAL_MAX_PATH_LEN (''/etc/portal/'' @ name)"

definition config_file :: "file_system \<Rightarrow> string \<Rightarrow> string option \<Rightarrow> string" where
  "config_file fs config_path instance_name =
     (case instance_name of
        None \<Rightarrow> config_path
      | Some n \<Rightarrow>
          let conf = csnprintf (PORTAL_MAX_PATH_LEN + 32) (instance_dir n @ ''/portal.conf'')
          in if fs conf \<noteq> None then conf else config_path)"

definition start_config ::
    "(string \<Rightarrow> string list option) \<Rightarrow> file_system \<Rightarrow> string \<Rightarrow> string option \<Rightarrow> bool \<Rightarrow> portal_config \<Rightarrow> portal_config" where
  "start_config readdir fs config_path instance_name debug cfg =
     (let data_dir = (\<lambda>cfg. case instance_name of None \<Rightarrow> cfg | Some n \<Rightarrow> cfg\<lparr>cf_data_dir := instance_dir n\<rparr>);
          cfg = data_dir cfg;
          cfg = snd (portal_config_load fs cfg (config_file fs config_path instance_name));
          cfg = data_dir cfg;
          cfg = snd (portal_config_load_modules_dir readdir fs cfg)
      in if debug then cfg\<lparr>cf_log_level := PORTAL_LOG_DEBUG\<rparr> else cfg)"

definition start_users :: "(string \<Rightarrow> string list option) \<Rightarrow> portal_instance \<Rightarrow> portal_instance" where
  "start_users readdir inst =
     (let dir = csnprintf (PORTAL_MAX_PATH_LEN + 32) (cf_data_dir (in_config inst) @ ''/users'');
          inst = inst\<lparr>in_auth := snd (portal_auth_load_from_store (in_fs inst) (readdir dir) (in_auth inst) (in_store inst))\<rparr>
      in if in_fs inst (cf_users_file (in_config inst)) \<noteq> None then load_users_file inst else inst)"

primrec start_modules :: "env \<Rightarrow> string list \<Rightarrow> portal_instance \<Rightarrow> portal_instance outcome" where
  "start_modules env [] inst = Inr inst"
| "start_modules env (name # names) inst =
     obind (portal_module_do_load env (api_send env) inst name) (\<lambda>(rc, inst). start_modules env names inst)"

definition start_timers :: "portal_instance \<Rightarrow> portal_instance" where
  "start_timers inst =
     inst\<lparr>in_events := portal_event_set_sighup
       (snd (portal_event_add_timer (in_events inst) 0x404E000000000000 SESSION_CLEANUP_CB (Some 0))) SIGHUP_CB (Some 0)\<rparr>"

definition portal_start ::
    "env \<Rightarrow> (string \<Rightarrow> string list option) \<Rightarrow> string \<Rightarrow> string option \<Rightarrow> bool \<Rightarrow> file_system \<Rightarrow> 64 word \<Rightarrow> string option list \<Rightarrow>
     portal_instance outcome" where
  "portal_start env readdir config_path instance_name debug fs g_msg_id rs =
     (let inst = snd (portal_instance_init fs g_msg_id rs);
          inst = inst\<lparr>in_config := start_config readdir fs config_path instance_name debug (in_config inst)\<rparr>;
          inst = inst\<lparr>in_modules := portal_module_registry_init (cf_modules_dir (in_config inst))\<rparr>;
          inst = portal_instance_register_core_paths inst;
          inst = inst\<lparr>in_store := csnprintf PORTAL_MAX_PATH_LEN (cf_data_dir (in_config inst))\<rparr>;
          inst = start_users readdir inst
      in obind (start_modules env (cf_modules (in_config inst)) inst) (\<lambda>inst. Inr (start_timers inst)))"

subsection \<open>Reassembling a frame\<close>

lemma recv_some_progress:
  assumes "recv_some n cs = (b, cs')" "[] \<notin> set cs" "cs \<noteq> []" "0 < n"
  shows "b \<noteq> []" "length b \<le> n" "concat cs = b @ concat cs'" "[] \<notin> set cs'"
  using assms by (cases cs; auto split: if_splits)+

lemma recv_body_chunks:
  assumes "[] \<notin> set cs" "need \<le> length (concat cs)"
  shows "\<exists>cs'. recv_body need cs = (Some (take need (concat cs)), cs') \<and> concat cs' = drop need (concat cs) \<and> [] \<notin> set cs'"
  using assms
proof (induction need cs rule: recv_body.induct)
  case (1 need cs)
  show ?case
  proof (cases "need = 0")
    case False
    obtain b cs' where some: "recv_some need cs = (b, cs')" by (metis surj_pair)
    have "cs \<noteq> []" using 1(3) False by auto
    note b = recv_some_progress [OF some 1(2) this]
    have "\<exists>cs''. recv_body (need - length b) cs' = (Some (take (need - length b) (concat cs')), cs'') \<and>
        concat cs'' = drop (need - length b) (concat cs') \<and> [] \<notin> set cs''"
      using 1 b False by (intro 1(1) [OF False some [symmetric] b(1)]) simp_all
    then show ?thesis using b False some by (auto simp: recv_body.simps [of need cs])
  qed (use 1 in \<open>simp add: recv_body.simps\<close>)
qed

lemma serve_frame_sends:
  assumes "wire_msg msg" "portal_wire_encode_msg msg = Some (frame, n)"
    and "api_send env msg portal_resp_alloc inst = Inr (rc, msg', resp, inst')" "wire_resp resp"
  shows "\<exists>reply. serve_frame env fd (frame @ rest) inst = Inr (log_effects [Sent fd reply] inst') \<and>
    portal_wire_decode_resp reply portal_resp_alloc = ROk resp (length reply)"
proof -
  have "portal_wire_decode_msg (frame @ rest) zero_msg = ROk msg (length frame)"
    using encode_msg_decodes [OF assms(1), of zero_msg rest] assms(2) by (simp add: zero_msg_def)
  moreover obtain reply where "portal_wire_encode_resp resp = Some (reply, length reply)"
    "portal_wire_decode_resp (reply @ []) portal_resp_alloc = ROk resp (length reply)"
    using encode_resp_decodes [OF assms(4), of "[]"] by blast
  ultimately show ?thesis using assms(3) by (intro exI [of _ reply]) (simp add: serve_frame_def)
qed

lemma encode_msg_length:
  assumes "wire_msg msg" "portal_wire_encode_msg msg = Some (frame, n)"
  shows "length frame = n" "4 < n"
proof -
  show "length frame = n" using encode_msg_decodes [OF assms(1), of zero_msg "[]"] assms(2) by (simp add: zero_msg_def)
  show "4 < n" using assms(2) by (auto simp: portal_wire_encode_msg_def Let_def split: option.splits)
qed

lemma tcp_served:
  assumes "wire_msg msg" and "portal_wire_encode_msg msg = Some (frame, n)" and "n \<le> 65540"
    and "api_send env msg portal_resp_alloc inst = Inr (rc, msg', resp, inst')" and "wire_resp resp"
    and "4 \<le> length c" and "[] \<notin> set cs" and "concat (c # cs) = frame @ rest" and "\<not> bit events 31"
  shows "\<exists>reply cs'. on_tcp_client env fd events (c # cs) inst = Inr (cs', log_effects [Sent fd reply] inst') \<and>
    concat cs' = rest \<and> [] \<notin> set cs' \<and> portal_wire_decode_resp reply portal_resp_alloc = ROk resp (length reply)"
proof -
  obtain hdr cs1 where hdr: "recv_some 4 (c # cs) = (hdr, cs1)" by (metis surj_pair)
  have "c \<noteq> []" using assms(6) by auto
  with assms(7) have "[] \<notin> set (c # cs)" by simp
  note some = recv_some_progress [OF hdr this]
  have len: "length hdr = 4" using hdr assms(6) by (auto split: if_splits)
  have fr: "length frame = n" and "4 < n" using encode_msg_length [OF assms(1,2)] by simp_all
  then have split: "hdr = take 4 frame" "concat cs1 = drop 4 frame @ rest"
    using arg_cong [OF some(3), of "take 4"] arg_cong [OF some(3), of "drop 4"] len fr unfolding assms(8) by simp_all
  have "portal_wire_read_length hdr = portal_wire_read_length frame" by (simp add: portal_wire_read_length_def split(1))
  also have "\<dots> = int n - 4" using assms(2,3) by (intro wire_read_length_frames) simp_all
  finally have msg_len: "portal_wire_read_length hdr = int n - 4" .
  have need: "n - 4 \<le> length (concat cs1)" using fr by (simp add: split(2))
  obtain cs' where body: "recv_body (n - 4) cs1 = (Some (drop 4 frame), cs')" "concat cs' = rest" "[] \<notin> set cs'"
    using recv_body_chunks [OF some(4) need] fr \<open>4 < n\<close> unfolding split(2) by auto
  obtain reply where "serve_frame env fd frame inst = Inr (log_effects [Sent fd reply] inst')"
    "portal_wire_decode_resp reply portal_resp_alloc = ROk resp (length reply)"
    using serve_frame_sends [OF assms(1,2,4,5), of fd "[]"] by auto
  moreover have "hdr @ drop 4 frame = frame" by (simp add: split(1))
  moreover have "nat (int n - 4) = n - 4" by simp
  ultimately have "on_tcp_client env fd events (c # cs) inst = Inr (cs', log_effects [Sent fd reply] inst')"
    using assms(3,9) \<open>4 < n\<close> hdr len msg_len body(1) by (simp add: on_tcp_client_def del: recv_some.simps)
  with body(2,3) \<open>portal_wire_decode_resp reply portal_resp_alloc = ROk resp (length reply)\<close> show ?thesis by blast
qed

text \<open>
  Property C2. A request over TCP: however the network splits the stream behind the four bytes of
  the length, a frame that carries a message is read whole and no byte more, the message is sent
  through the router as it was encoded, and the client receives exactly one frame, which decodes
  to the response of the router.
\<close>

theorem tcp_request_reply:
  assumes "wire_msg msg" and "portal_wire_encode_msg msg = Some (frame, n)" and "n \<le> 65540"
    and "api_send env msg portal_resp_alloc inst = Inr (rc, msg', resp, inst')" and "wire_resp resp"
    and "4 \<le> length c" and "[] \<notin> set cs" and "concat (c # cs) = frame @ rest" and "\<not> bit events 31"
  shows "\<exists>reply cs'. on_tcp_client env fd events (c # cs) inst = Inr (cs', log_effects [Sent fd reply] inst') \<and>
    concat cs' = rest \<and> portal_wire_decode_resp reply portal_resp_alloc = ROk resp (length reply)"
  using tcp_served [OF assms] by blast


theorem tcp_request_reply_witness:
  "\<exists>c cs cs' reply inst'. on_tcp_client demo_env 7 EV_READ (c # cs) demo_inst = Inr (cs', log_effects [Sent 7 reply] inst') \<and>
     (\<exists>r. portal_wire_decode_resp reply portal_resp_alloc = ROk r (length reply) \<and> resp_status r = 200)"
proof -
  let ?m = "request ''/auth/logout'' [(Some ''token'', Some ''abc'')]"
  have wire: "wire_msg ?m" by (simp add: request_def wire_msg_def wire_opt_def wire_str_def wire_headers_def)
  have "open_core_path demo_inst ''/auth/logout''"
    using demo_strip
    by (simp add: open_core_path_def find_route_def access_denied_def core_prefix_def under_def strncmp_eq_def demo_inst_def demo_lookup)
  then obtain m i where send: "api_send demo_env ?m portal_resp_alloc demo_inst =
      Inr (0, m, portal_resp_alloc\<lparr>resp_status := 200, resp_body := ''Logged out'' @ NL @ [NUL]\<rparr>, i)"
    by (rule logout_request) (erule that)
  have resp: "wire_resp (portal_resp_alloc\<lparr>resp_status := 200, resp_body := ''Logged out'' @ NL @ [NUL]\<rparr>)"
    by (simp add: wire_resp_def wire_headers_def portal_resp_alloc_def)
  have "case portal_wire_encode_msg ?m of None \<Rightarrow> False | Some (frame, n) \<Rightarrow> n \<le> 200" by code_simp
  then obtain frame n where enc: "portal_wire_encode_msg ?m = Some (frame, n)" "n \<le> 65540" by (auto split: option.splits)
  have "4 \<le> length frame" using encode_msg_length [OF wire enc(1)] by simp
  from tcp_request_reply [OF wire enc send resp this, of "[]" "[]" EV_READ 7] show ?thesis by force
qed

subsection \<open>The identity of a network client\<close>

text \<open>The message that names \<open>root\<close> as its sender; nothing in it proves who sent it.\<close>

definition forged_msg :: portal_msg where
  "forged_msg =
     \<lparr>msg_id = 0, msg_path = Some ''/users/eve'', msg_method = PORTAL_METHOD_SET,
      msg_headers = [(Some ''password'', Some ''x''), (Some ''groups'', Some ''hub-admin'')], msg_body = [],
      msg_ctx = Some (ctx_zero\<lparr>ctx_auth := \<lparr>auth_user = Some ''root'', auth_token = None, auth_labels = []\<rparr>\<rparr>)\<rparr>"

lemma forged_msg_wire: "wire_msg forged_msg"
  by (simp add: forged_msg_def wire_msg_def wire_opt_def wire_str_def wire_headers_def wire_ctx_def ctx_zero_def
      labels_inv_def labels_wf_def)

lemma forged_msg_encode: "\<exists>frame n. portal_wire_encode_msg forged_msg = Some (frame, n) \<and> n \<le> 65540"
proof -
  have "case portal_wire_encode_msg forged_msg of None \<Rightarrow> False | Some (frame, n) \<Rightarrow> n \<le> 200" by code_simp
  then show ?thesis by (auto split: option.splits)
qed

lemma forged_msg_handled:
  assumes "stamped forged_msg m" "length (ar_users (in_auth i)) < 128" "portal_auth_find_user (in_auth i) ''eve'' = None"
  shows "\<exists>i' u. core_handle_message env s i ''/users/eve'' m resp = Inr (0, resp\<lparr>resp_status := 201\<rparr>, i') \<and>
    portal_auth_find_user (in_auth i') ''eve'' = Some u \<and> au_password u = ''x'' \<and> au_labels u = [''hub-admin'']"
proof -
  let ?u = "\<lparr>au_username = ''eve'', au_password = ''x'', au_api_key = [], au_labels = [''hub-admin'']\<rparr>"
  let ?auth = "(in_auth i)\<lparr>ar_users := ar_users (in_auth i) @ [?u]\<rparr>"
  have "caller_is_admin m" using assms(1) by (auto simp: caller_is_admin_def stamped_def forged_msg_def)
  moreover have "split_name ''eve'' = (''eve'', None)" by (simp add: split_name_def strchr_split_def csnprintf_def)
  moreover have "add_labels (strtok CHR '','' (csnprintf 512 ''hub-admin'')) [] = [''hub-admin'']" by code_simp
  moreover have "msg_method m = PORTAL_METHOD_SET"
      "msg_headers m = [(Some ''password'', Some ''x''), (Some ''groups'', Some ''hub-admin'')]"
    using assms(1) by (simp_all add: stamped_def forged_msg_def)
  moreover have "portal_auth_add_user (in_auth i) ''eve'' ''x'' (Some [''hub-admin'']) = (0, ?auth)"
    using assms(2,3) by (simp add: portal_auth_add_user_def csnprintf_def)
  ultimately have "core_handle_message env s i ''/users/eve'' m resp =
      Inr (0, resp\<lparr>resp_status := 201\<rparr>, save_user_dual env ''eve'' (i\<lparr>in_auth := ?auth\<rparr>))"
    by (simp add: core_handle_message_def under_def strncmp_eq_def handle_auth_path_def handle_data_path_def handle_users_path_def
        handle_user_set_def get_header_def answer_defs portal_resp_set_status_def)
  moreover have "portal_auth_find_user ?auth ''eve'' = Some ?u"
    using assms(3) by (simp add: portal_auth_find_user_def find_append_single)
  ultimately show ?thesis by auto
qed

text \<open>
  Property C36. The daemon believes what a network client says about itself: a single frame whose
  context names \<open>root\<close>, sent without any login, creates an account with a password and the
  administrator group of the sender's choice.
\<close>

theorem network_identity_forged:
  assumes "strip_own (in_config inst) ''/users/eve'' = ''/users/eve''" and "find_route (in_paths inst) ''/users/eve'' = Some ''core''"
    and "length (ar_users (in_auth inst)) < 128" and "portal_auth_find_user (in_auth inst) ''eve'' = None" and "\<not> bit events 31"
  shows "\<exists>frame n inst' u. portal_wire_encode_msg forged_msg = Some (frame, n) \<and>
    on_tcp_client env fd events [frame] inst = Inr ([], inst') \<and>
    portal_auth_find_user (in_auth inst') ''eve'' = Some u \<and> au_password u = ''x'' \<and> au_labels u = [''hub-admin'']"
proof -
  obtain frame n where enc: "portal_wire_encode_msg forged_msg = Some (frame, n)" "n \<le> 65540" using forged_msg_encode by blast
  have fields: "msg_path forged_msg = Some ''/users/eve''" by (simp add: forged_msg_def)
  have "\<not> access_denied (in_paths inst) ''/users/eve'' (msg_ctx forged_msg)"
    by (auto simp: access_denied_def check_access_rule access_rule_def ctx_is_root_def forged_msg_def portal_path_lookup_def
        split: option.splits)
  then obtain m i where send: "same_state inst i" "stamped forged_msg m"
    "api_send env forged_msg portal_resp_alloc inst = obind (core_handle_message env (api_send_rec 1 env) i ''/users/eve'' m portal_resp_alloc)
       (\<lambda>(rc, resp, inst). Inr (rc, m, resp, trace_inst env m (Some resp) inst))"
    by (rule api_send_routed [OF assms(1,2) _ fields])
  obtain i' u where handled: "core_handle_message env (api_send_rec 1 env) i ''/users/eve'' m portal_resp_alloc =
      Inr (0, portal_resp_alloc\<lparr>resp_status := 201\<rparr>, i')"
    and u: "portal_auth_find_user (in_auth i') ''eve'' = Some u" "au_password u = ''x''" "au_labels u = [''hub-admin'']"
    using forged_msg_handled [OF send(2), of i env "api_send_rec 1 env" portal_resp_alloc] send(1) assms(3,4)
    by (auto simp: same_state_def)
  let ?r = "portal_resp_alloc\<lparr>resp_status := 201\<rparr>"
  have "api_send env forged_msg portal_resp_alloc inst = Inr (0, m, ?r, trace_inst env m (Some ?r) i')"
    using send(3) handled by simp
  moreover have "wire_resp ?r" by (simp add: wire_resp_def wire_headers_def portal_resp_alloc_def)
  moreover have "4 \<le> length frame" using encode_msg_length [OF forged_msg_wire enc(1)] by simp
  ultimately obtain reply cs' where "on_tcp_client env fd events [frame] inst =
      Inr (cs', log_effects [Sent fd reply] (trace_inst env m (Some ?r) i'))" "concat cs' = []" "[] \<notin> set cs'"
    using tcp_served [OF forged_msg_wire enc, of env inst 0 m ?r _ frame "[]" "[]" events fd] assms(5) by auto
  moreover from this(2,3) have "cs' = []" by (cases cs') auto
  ultimately show ?thesis using enc(1) u by (auto simp: log_effects_def)
qed

theorem network_identity_forged_witness:
  "\<exists>frame inst' u. on_tcp_client demo_env 7 EV_READ [frame] demo_inst = Inr ([], inst') \<and>
     portal_auth_find_user (in_auth inst') ''eve'' = Some u \<and> au_labels u = [''hub-admin'']"
proof -
  have "find_route (in_paths demo_inst) ''/users/eve'' = Some ''core''"
    by (simp add: find_route_def core_prefix_def under_def strncmp_eq_def demo_inst_def demo_lookup)
  moreover have "length (ar_users (in_auth demo_inst)) < 128" "portal_auth_find_user (in_auth demo_inst) ''eve'' = None"
    by (simp_all add: demo_inst_def portal_auth_find_user_def portal_instance_init_def portal_auth_init_def portal_auth_zero_def
        generate_token_def draw_def api_path_register_def on_paths_def Let_def split: prod.splits)
  ultimately show ?thesis using network_identity_forged [of demo_inst EV_READ demo_env 7] demo_strip by auto
qed

subsection \<open>Locks of a holder that is gone\<close>

text \<open>
  Property C28. A lock outlives its holder only until the next tick: when every lock on a
  resource has missed its keep-alive for longer than the timeout, the periodic work releases
  it, and whoever asks for the resource next gets it, at any later time.
\<close>

theorem expired_lock_released:
  assumes "lock_reach (in_locks inst)"
    and "l \<in> set (lt_locks (in_locks inst))" and "lk_active l" and "lk_resource l = r"
    and "\<forall>l\<in>set (lt_locks (in_locks inst)). lk_active l \<and> lk_resource l = r \<longrightarrow> LOCK_TIMEOUT_SEC < sint (ev_now env) - lk_last_keepalive l"
  shows "find_lock (in_locks (session_cleanup_cb env inst)) r = None \<and>
    fst (api_resource_lock (in_locks (session_cleanup_cb env inst)) r owner now) = 0"
proof -
  let ?lt = "in_locks inst" and ?now = "sint (ev_now env)"
  let ?lt' = "lock_cleanup ?lt ?now"
  have eq: "in_locks (session_cleanup_cb env inst) = ?lt'" by (simp add: session_cleanup_cb_def)
  have ok: "locks_ok ?lt'" by (rule lock_reach_ok [OF lock_reach.step [OF assms(1) lock_step.cleanup]])
  have none: "\<not> (lk_active l \<and> lk_resource l = r)" if "l \<in> set (lt_locks ?lt')" for l
    using that assms(5) by (auto simp: lock_cleanup_def lock_expired_def split: if_splits)
  then have free: "find_lock ?lt' r = None"
    by (auto simp: find_lock_def find_index_None_iff dest: in_set_takeD)
  have "lock_expired ?now l" using assms(2-5) by (simp add: lock_expired_def)
  then have "l\<lparr>lk_active := False\<rparr> \<in> set (lt_locks ?lt')" using assms(2) by (force simp: lock_cleanup_def)
  then have "\<exists>k\<in>set (lt_locks ?lt'). \<not> lk_active k" by force
  then obtain i where i: "find_index (\<lambda>k. \<not> lk_active k) (lt_locks ?lt') = Some i"
    by (cases "find_index (\<lambda>k. \<not> lk_active k) (lt_locks ?lt')") (auto simp: find_index_None_iff)
  have "length (filter lk_active (lt_locks ?lt')) < length (lt_locks ?lt')"
    using \<open>\<exists>k\<in>set (lt_locks ?lt'). \<not> lk_active k\<close> by (auto intro: length_filter_less)
  then have "lt_count ?lt' < int LOCK_MAX" using ok by (simp add: locks_ok_def)
  with free i show ?thesis by (simp add: eq api_resource_lock_def)
qed

theorem expired_lock_released_witness:
  "\<exists>inst env. find_lock (in_locks inst) ''/dev/a'' \<noteq> None \<and>
     fst (api_resource_lock (in_locks (session_cleanup_cb env inst)) ''/dev/a'' ''bob'' 500) = 0"
proof -
  let ?lt = "snd (api_resource_lock locks_init ''/dev/a'' ''alice'' 0)"
  let ?l = "\<lparr>lk_resource = ''/dev/a'', lk_owner = ''alice'', lk_locked_at = 0, lk_last_keepalive = 0, lk_active = True\<rparr>"
  let ?inst = "demo_inst\<lparr>in_locks := ?lt\<rparr>" and ?env = "demo_env\<lparr>ev_now := 400\<rparr>"
  have lt: "?lt = locks_init\<lparr>lt_locks := ?l # replicate 63 lock_zero, lt_count := 1\<rparr>"
    using replicate_Suc [of 63 lock_zero]
    by (simp add: api_resource_lock_def locks_init_def find_lock_def csnprintf_def) (simp add: lock_zero_def)
  have "lock_reach (in_locks ?inst)" using lock_reach.step [OF lock_reach.init lock_step.lock] by simp
  moreover have "?l \<in> set (lt_locks (in_locks ?inst))" by (simp add: lt)
  moreover have "\<forall>l\<in>set (lt_locks (in_locks ?inst)). lk_active l \<and> lk_resource l = ''/dev/a'' \<longrightarrow>
      LOCK_TIMEOUT_SEC < sint (ev_now ?env) - lk_last_keepalive l" by (auto simp: lt lock_zero_def)
  ultimately have "fst (api_resource_lock (in_locks (session_cleanup_cb ?env ?inst)) ''/dev/a'' ''bob'' 500) = 0"
    using expired_lock_released [of ?inst ?l "''/dev/a''" ?env "''bob''" 500] by simp
  moreover have "find_lock (in_locks ?inst) ''/dev/a'' \<noteq> None" by (simp add: lt find_lock_def)
  ultimately show ?thesis by blast
qed

subsection \<open>After start-up\<close>

lemma register_all:
  fixes inst :: portal_instance and ps :: "string list" and m :: string
  assumes "tree_ok (in_paths inst)"
  defines "inst' \<equiv> fold (\<lambda>path inst. snd (api_path_register inst path m)) ps inst"
  shows "tree_ok (in_paths inst') \<and>
    paths (in_paths inst') = (\<lambda>p. if paths (in_paths inst) p = None \<and> p \<in> set ps then Some (path_entry_new p m) else paths (in_paths inst) p) \<and>
    inst' = inst\<lparr>in_paths := in_paths inst'\<rparr>"
  using assms(1) unfolding inst'_def
proof (induction ps arbitrary: inst)
  case (Cons p ps)
  let ?i = "snd (api_path_register inst p m)"
  have i: "?i = inst\<lparr>in_paths := snd (portal_path_register (in_paths inst) p m)\<rparr>"
    by (simp add: api_path_register_def on_paths_def split: prod.splits)
  have reg: "tree_ok (in_paths ?i) \<and> paths (in_paths ?i) =
      (if paths (in_paths inst) p = None then (paths (in_paths inst))(p \<mapsto> path_entry_new p m) else paths (in_paths inst))"
    using portal_path_register_fresh [OF Cons.prems, of p m] portal_path_register_taken [of "in_paths inst" p m] Cons.prems
    by (auto simp: i)
  with Cons.IH [of ?i] show ?case by (auto simp: i fun_eq_iff)
qed auto

lemma start_modules_none:
  "\<forall>p. ev_dlopen env p = None \<Longrightarrow> start_modules env names inst = Inr inst"
  by (induction names) (simp_all add: portal_module_do_load_def)

lemma start_users_fields:
  "in_paths (start_users readdir inst) = in_paths inst" "in_config (start_users readdir inst) = in_config inst"
  "in_modules (start_users readdir inst) = in_modules inst"
  by (simp_all add: start_users_def load_users_file_def Let_def split: prod.splits)

lemma portal_start_state:
  assumes "\<forall>p. ev_dlopen env p = None"
  obtains inst where "portal_start env readdir config_path instance_name debug fs g rs = Inr inst"
    "in_config inst = start_config readdir fs config_path instance_name debug portal_config_defaults"
    "tree_ok (in_paths inst)" "mr_entries (in_modules inst) = []"
    "paths (in_paths inst) = (\<lambda>p. if p \<in> insert ''/events/acl/bypass'' (set core_paths) then Some (path_entry_new p ''core'') else None)"
proof -
  let ?cfg = "start_config readdir fs config_path instance_name debug portal_config_defaults"
  define i0 where "i0 = snd (portal_instance_init fs g rs)"
  have tree0: "tree_ok (in_paths i0)" "paths (in_paths i0) = [''/events/acl/bypass'' \<mapsto> path_entry_new ''/events/acl/bypass'' ''core'']"
    and cfg0: "in_config i0 = portal_config_defaults"
    using portal_path_register_fresh [OF tree_ok_init(1), of "''/events/acl/bypass''" "''core''"] tree_ok_init(2)
    by (simp_all add: i0_def portal_instance_init_def api_path_register_def on_paths_def Let_def case_prod_beta)
  define i1 where "i1 = i0\<lparr>in_config := ?cfg, in_modules := portal_module_registry_init (cf_modules_dir ?cfg)\<rparr>"
  define i2 where "i2 = portal_instance_register_core_paths i1"
  have reg: "tree_ok (in_paths i2)" "i2 = i1\<lparr>in_paths := in_paths i2\<rparr>"
    "paths (in_paths i2) = (\<lambda>p. if paths (in_paths i1) p = None \<and> p \<in> set core_paths then Some (path_entry_new p ''core'') else paths (in_paths i1) p)"
    using register_all [of i1 "''core''" core_paths] tree0(1)
    unfolding i2_def portal_instance_register_core_paths_def by (simp_all add: i1_def)
  have i1: "in_config i1 = ?cfg" "in_modules i1 = portal_module_registry_init (cf_modules_dir ?cfg)" "in_paths i1 = in_paths i0"
    by (simp_all add: i1_def)
  have fields: "in_config i2 = ?cfg" "in_modules i2 = portal_module_registry_init (cf_modules_dir ?cfg)"
    by (subst reg(2), simp add: i1)+
  have all: "paths (in_paths i2) = (\<lambda>p. if p \<in> insert ''/events/acl/bypass'' (set core_paths) then Some (path_entry_new p ''core'') else None)"
    unfolding reg(3) i1(3) tree0(2) by auto
  let ?i = "start_timers (start_users readdir (i2\<lparr>in_store := csnprintf PORTAL_MAX_PATH_LEN (cf_data_dir (in_config i2))\<rparr>))"
  have "portal_start env readdir config_path instance_name debug fs g rs = Inr ?i"
    by (simp add: portal_start_def start_modules_none [OF assms] i0_def [symmetric] cfg0 i1_def [symmetric] i2_def [symmetric] Let_def)
  then show thesis
    by (rule that) (use fields reg(1) all in \<open>simp_all add: start_timers_def start_users_fields portal_module_registry_init_def\<close>)
qed

text \<open>
  Property C27. The daemon comes up and serves: whatever the configuration files, the account
  files and the random source hold, and although no module can be loaded, start-up ends, every
  core path is routed to the core, and a request for the status is answered with 200 and the
  number of registered paths. The configuration must not name the node \<open>core\<close>.
\<close>

theorem startup_serves_status:
  assumes "\<forall>p. ev_dlopen env p = None"
    and "strip_own (start_config readdir fs config_path instance_name debug portal_config_defaults) ''/core/status'' = ''/core/status''"
  shows "\<exists>inst m i r. portal_start env readdir config_path instance_name debug fs g rs = Inr inst \<and>
    (\<forall>p\<in>set core_paths. find_route (in_paths inst) p = Some ''core'') \<and>
    api_send env2 (request ''/core/status'' []) portal_resp_alloc inst = Inr (0, m, r, i) \<and> resp_status r = 200 \<and>
    resp_body r = ''Portal v1.0.0'' @ NL @ ''Status: running'' @ NL @ ''Modules loaded: 0'' @ NL @ ''Paths registered: 18'' @ NL @ [NUL]"
proof -
  obtain inst where start: "portal_start env readdir config_path instance_name debug fs g rs = Inr inst"
    "in_config inst = start_config readdir fs config_path instance_name debug portal_config_defaults"
    "tree_ok (in_paths inst)" "mr_entries (in_modules inst) = []"
    and paths: "paths (in_paths inst) = (\<lambda>p. if p \<in> insert ''/events/acl/bypass'' (set core_paths) then Some (path_entry_new p ''core'') else None)"
    by (rule portal_start_state [OF assms(1)])
  have route: "find_route (in_paths inst) p = Some ''core''" if "p \<in> set core_paths" for p
    using that by (simp add: find_route_def portal_path_lookup_def paths path_entry_new_def csnprintf_def)
  have "dom (paths (in_paths inst)) = set (''/events/acl/bypass'' # core_paths)" unfolding paths by (auto simp: dom_def)
  moreover have "distinct (''/events/acl/bypass'' # core_paths)" by (simp add: core_paths_def)
  moreover have "length core_paths = 17" by (simp add: core_paths_def)
  ultimately have n: "tree_count (in_paths inst) = 18" using start(3) distinct_card [of core_paths] by (simp add: tree_ok_def)
  let ?text = "''Portal v1.0.0'' @ NL @ ''Status: running'' @ NL @ ''Modules loaded: 0'' @ NL @ ''Paths registered: 18'' @ NL"
  have "''/core/status'' \<in> set core_paths" by (simp add: core_paths_def)
  moreover from this have "\<not> access_denied (in_paths inst) ''/core/status'' None"
    by (simp add: access_denied_def check_access_rule access_rule_def paths path_entry_new_def)
  ultimately have "open_core_path inst ''/core/status''" using route assms(2) start(2) by (simp add: open_core_path_def)
  then obtain m i where "api_send env2 (request ''/core/status'' []) portal_resp_alloc inst =
      Inr (0, m, portal_resp_alloc\<lparr>resp_status := 200, resp_body := ?text @ [NUL]\<rparr>, i)"
  proof (rule core_request [where a = "in_auth inst" and f = id])
    have "dec 0 = ''0''" "dec 18 = ''18''" by code_simp+
    then show "core_handle_message env2 (api_send_rec 1 env2) i ''/core/status'' m portal_resp_alloc =
        Inr (0, portal_resp_alloc\<lparr>resp_status := 200, resp_body := ?text @ [NUL]\<rparr>, id i)" if "same_state inst i" for m i
      using that n start(4) buf_bytes_fits [of ?text 512]
      by (simp add: core_simps handle_status_def)
  qed (auto simp: same_state_def intro: that)
  with start(1) route show ?thesis by (intro exI [of _ inst]) auto
qed

theorem startup_serves_status_witness:
  "\<exists>inst m i r. portal_start (demo_env\<lparr>ev_dlopen := \<lambda>_. None\<rparr>) (\<lambda>_. None) ''/etc/portal.conf'' None False (\<lambda>_. None) 1 [] = Inr inst \<and>
     api_send demo_env (request ''/core/status'' []) portal_resp_alloc inst = Inr (0, m, r, i) \<and> resp_status r = 200"
proof -
  have cfg: "start_config (\<lambda>_. None) (\<lambda>_. None) ''/etc/portal.conf'' None False portal_config_defaults = portal_config_defaults"
    by (simp add: start_config_def config_file_def portal_config_load_def portal_config_load_modules_dir_def load_module_conf_dir_def Let_def)
  have "strip_own portal_config_defaults ''/core/status'' = ''/core/status''"
    by (rule strip_own_unset [of _ 64]) (simp add: portal_config_defaults_def)
  moreover have "\<forall>p. ev_dlopen (demo_env\<lparr>ev_dlopen := \<lambda>_. None\<rparr>) p = None" by simp
  ultimately show ?thesis
    using startup_serves_status [of "demo_env\<lparr>ev_dlopen := \<lambda>_. None\<rparr>" "\<lambda>_. None" "\<lambda>_. None" "''/etc/portal.conf''" None False 1 "[]" demo_env]
    by (auto simp: cfg)
qed

end
