(* ===== verification/Hosted.thy ===== *)
theory Hosted
  imports Router
begin

section \<open>Modules behind the router\<close>

text \<open>
  How the core runs a module: \<open>portal_module_load\<close> registers its paths, and \<open>portal_module_handle\<close> is
  called with a message that the router has addressed to it. The module data lives in the
  instance. A handler that faults is what the crash guard of the router catches; the events it emits
  go through the event registry of the core.
\<close>

subsection \<open>Loading\<close>

definition declare_path :: "string \<Rightarrow> path_decl \<Rightarrow> portal_instance \<Rightarrow> portal_instance" where
  "declare_path name d inst =
     (case d of (path, mode, description) \<Rightarrow>
        let inst = snd (api_path_register inst path name);
            inst = snd (api_path_set_access inst path mode)
        in case description of None \<Rightarrow> inst | Some t \<Rightarrow> snd (api_path_set_description inst path t))"

definition queue_module_load :: "env \<Rightarrow> portal_instance \<Rightarrow> int \<times> portal_instance" where
  "queue_module_load env inst =
     (0, fold (declare_path ''queue'') queue_paths
           (inst\<lparr>in_statics := (in_statics inst)\<lparr>st_queue :=
              queue_load (api_config_get env inst ''queue'' ''max_depth'') (st_queue (in_statics inst))\<rparr>\<rparr>))"

definition cache_module_load :: "env \<Rightarrow> portal_instance \<Rightarrow> int \<times> portal_instance" where
  "cache_module_load env inst =
     (0, fold (declare_path ''cache'') cache_paths
           (inst\<lparr>in_statics := (in_statics inst)\<lparr>st_cache :=
              cache_load (api_config_get env inst ''cache'' ''max_entries'') (st_cache (in_statics inst))\<rparr>\<rparr>))"

definition fw_module_load :: "env \<Rightarrow> portal_instance \<Rightarrow> int \<times> portal_instance" where
  "fw_module_load env inst =
     (0, snd (api_path_add_label
           (fold (declare_path ''firewall'') fw_paths
             (inst\<lparr>in_statics := (in_statics inst)\<lparr>st_firewall :=
                fw_load (api_config_get env inst ''firewall'' ''rate_limit'') (api_config_get env inst ''firewall'' ''rate_window'')
                  (st_firewall (in_statics inst))\<rparr>\<rparr>))
           ''/firewall/functions/clear'' ''admin''))"

definition kv_module_load :: "env \<Rightarrow> portal_instance \<Rightarrow> int \<times> portal_instance" where
  "kv_module_load env inst =
     (0, fold (declare_path ''kv'') kv_paths
           (inst\<lparr>in_statics := (in_statics inst)\<lparr>st_kv :=
              kv_load (api_config_get env inst ''kv'' ''data_dir'') (api_config_get env inst ''kv'' ''max_value_size'')
                (st_kv (in_statics inst))\<rparr>\<rparr>))"

definition tpl_module_load :: "env \<Rightarrow> portal_instance \<Rightarrow> int \<times> portal_instance" where
  "tpl_module_load env inst =
     (0, fold (declare_path ''template'') tpl_paths
           (inst\<lparr>in_statics := (in_statics inst)\<lparr>st_template :=
              tpl_load (api_config_get env inst ''template'' ''template_dir'') (api_config_get env inst ''template'' ''max_templates'')
                (st_template (in_statics inst))\<rparr>\<rparr>))"

definition withdraw_paths :: "path_decl list \<Rightarrow> portal_instance \<Rightarrow> portal_instance" where
  "withdraw_paths decls inst = fold (\<lambda>(path, mode, description) inst. snd (api_path_unregister inst path)) decls inst"

definition queue_module_unload :: "portal_instance \<Rightarrow> portal_instance" where
  "queue_module_unload = withdraw_paths queue_paths"

definition cache_module_unload :: "portal_instance \<Rightarrow> portal_instance" where
  "cache_module_unload inst =
     withdraw_paths cache_paths
       (inst\<lparr>in_statics := (in_statics inst)\<lparr>st_cache := (cache_flush (st_cache (in_statics inst)))\<lparr>cm_entries := []\<rparr>\<rparr>\<rparr>)"

definition fw_module_unload :: "portal_instance \<Rightarrow> portal_instance" where
  "fw_module_unload = withdraw_paths fw_paths"

definition kv_module_unload :: "portal_instance \<Rightarrow> portal_instance" where
  "kv_module_unload = withdraw_paths kv_paths"

definition tpl_module_unload :: "portal_instance \<Rightarrow> portal_instance" where
  "tpl_module_unload = withdraw_paths tpl_paths"

subsection \<open>Handling\<close>

definition deliver :: "env \<Rightarrow> (string \<times> string) list \<Rightarrow> portal_instance \<Rightarrow> portal_instance" where
  "deliver env evs = fold (\<lambda>(path, data) inst. snd (api_event_emit env inst path data)) evs"

definition serve :: "env \<Rightarrow> ('s \<Rightarrow> portal_instance \<Rightarrow> portal_instance) \<Rightarrow> 's mod_result \<Rightarrow> portal_resp \<Rightarrow> portal_instance \<Rightarrow> handled" where
  "serve env put result resp inst =
     (case result of
        Inl fault \<Rightarrow> Crashed False resp inst
      | Inr (rc, resp, s, evs) \<Rightarrow> Returned rc resp (deliver env evs (put s inst)))"

definition get_queue :: "portal_instance \<Rightarrow> queue_module" where
  "get_queue inst = st_queue (in_statics inst)"

definition put_queue :: "queue_module \<Rightarrow> portal_instance \<Rightarrow> portal_instance" where
  "put_queue s inst = inst\<lparr>in_statics := (in_statics inst)\<lparr>st_queue := s\<rparr>\<rparr>"

definition get_cache :: "portal_instance \<Rightarrow> cache_module" where
  "get_cache inst = st_cache (in_statics inst)"

definition put_cache :: "cache_module \<Rightarrow> portal_instance \<Rightarrow> portal_instance" where
  "put_cache s inst = inst\<lparr>in_statics := (in_statics inst)\<lparr>st_cache := s\<rparr>\<rparr>"

definition get_firewall :: "portal_instance \<Rightarrow> fw_module" where
  "get_firewall inst = st_firewall (in_statics inst)"

definition put_firewall :: "fw_module \<Rightarrow> portal_instance \<Rightarrow> portal_instance" where
  "put_firewall s inst = inst\<lparr>in_statics := (in_statics inst)\<lparr>st_firewall := s\<rparr>\<rparr>"

definition get_kv :: "portal_instance \<Rightarrow> kv_state" where
  "get_kv inst = (st_kv (in_statics inst), in_fs inst)"

definition put_kv :: "kv_state \<Rightarrow> portal_instance \<Rightarrow> portal_instance" where
  "put_kv s inst = inst\<lparr>in_statics := (in_statics inst)\<lparr>st_kv := fst s\<rparr>, in_fs := snd s\<rparr>"

definition get_template :: "portal_instance \<Rightarrow> tpl_state" where
  "get_template inst = (st_template (in_statics inst), in_fs inst)"

definition put_template :: "tpl_state \<Rightarrow> portal_instance \<Rightarrow> portal_instance" where
  "put_template s inst = inst\<lparr>in_statics := (in_statics inst)\<lparr>st_template := fst s\<rparr>, in_fs := snd s\<rparr>"

definition queue_module_handle :: "env \<Rightarrow> portal_msg \<Rightarrow> portal_resp \<Rightarrow> portal_instance \<Rightarrow> handled" where
  "queue_module_handle env msg resp inst = serve env put_queue (queue_handle msg resp (get_queue inst)) resp inst"

definition cache_module_handle ::
    "(int \<Rightarrow> int \<Rightarrow> string) \<Rightarrow> env \<Rightarrow> portal_msg \<Rightarrow> portal_resp \<Rightarrow> portal_instance \<Rightarrow> handled" where
  "cache_module_handle rate env msg resp inst =
     serve env put_cache (cache_handle (uint (ev_now env)) rate msg resp (get_cache inst)) resp inst"

definition fw_module_handle :: "env \<Rightarrow> portal_msg \<Rightarrow> portal_resp \<Rightarrow> portal_instance \<Rightarrow> handled" where
  "fw_module_handle env msg resp inst =
     serve env put_firewall (fw_handle (uint (ev_now env)) msg resp (get_firewall inst)) resp inst"

definition kv_module_handle :: "kv_os \<Rightarrow> env \<Rightarrow> portal_msg \<Rightarrow> portal_resp \<Rightarrow> portal_instance \<Rightarrow> handled" where
  "kv_module_handle os env msg resp inst = serve env put_kv (kv_handle os msg resp (get_kv inst)) resp inst"

definition tpl_module_handle :: "string list option \<Rightarrow> env \<Rightarrow> portal_msg \<Rightarrow> portal_resp \<Rightarrow> portal_instance \<Rightarrow> handled" where
  "tpl_module_handle names env msg resp inst =
     serve env put_template (tpl_handle (ev_can_write env) names msg resp (get_template inst)) resp inst"

subsection \<open>The contract between the router and a module\<close>

text \<open>
  \<open>hosts name ps ctx i lib inst\<close>: the module \<open>name\<close> is entry \<open>i\<close> of the registry, loaded from \<open>lib\<close>, and the
  paths \<open>ps\<close> belong to it and are open to the sender \<open>ctx\<close>.
\<close>

definition hosts :: "string \<Rightarrow> string list \<Rightarrow> portal_ctx option \<Rightarrow> nat \<Rightarrow> nat \<Rightarrow> portal_instance \<Rightarrow> bool" where
  "hosts name ps ctx i lib inst \<longleftrightarrow>
     name \<noteq> ''core'' \<and> portal_module_find (in_modules inst) name = Some i \<and>
     me_loaded (mr_entries (in_modules inst) ! i) \<and> \<not> me_unloading (mr_entries (in_modules inst) ! i) \<and>
     me_lib (mr_entries (in_modules inst) ! i) = Some lib \<and>
     list_all (\<lambda>p. strip_own (in_config inst) p = p \<and> portal_path_lookup (in_paths inst) p = Some name \<and>
       \<not> access_denied (in_paths inst) p ctx) ps"

lemma find_mark:
  assumes "\<And>e. me_name (f e) = me_name e" "\<And>e. me_loaded (f e) = me_loaded e"
  shows "portal_module_find (module_mark reg i f) name = portal_module_find reg name"
  by (simp add: portal_module_find_def module_mark_def find_index_update_same assms split: option.split)

lemma nth_mark: "(\<And>e. g (f e) = g e) \<Longrightarrow> g (mr_entries (module_mark reg i f) ! j) = g (mr_entries reg ! j)"
  by (cases "i = j"; cases "i < length (mr_entries reg)") (simp_all add: module_mark_def list_update_beyond)

lemma hosts_mark:
  assumes "\<And>e. me_name (f e) = me_name e" "\<And>e. me_loaded (f e) = me_loaded e" "\<And>e. me_unloading (f e) = me_unloading e"
    "\<And>e. me_lib (f e) = me_lib e"
  shows "hosts name ps ctx j lib (mark_inst i f inst) = hosts name ps ctx j lib inst"
  using nth_mark [of me_loaded f, OF assms(2)] nth_mark [of me_unloading f, OF assms(3)] nth_mark [of me_lib f, OF assms(4)]
  by (simp add: hosts_def mark_inst_def find_mark assms)

lemma hosts_cong:
  "in_modules inst' = in_modules inst \<Longrightarrow> in_config inst' = in_config inst \<Longrightarrow> in_paths inst' = in_paths inst \<Longrightarrow>
     hosts name ps ctx i lib inst' = hosts name ps ctx i lib inst"
  by (simp add: hosts_def)

lemma deliver_same: "same_state inst (deliver env evs inst)"
proof (induction evs arbitrary: inst)
  case Nil
  then show ?case by (simp add: deliver_def same_state_def)
next
  case (Cons ev evs)
  obtain p d where ev: "ev = (p, d)" by fastforce
  have "same_state inst (snd (api_event_emit env inst p d))"
    by (simp add: same_state_def api_event_emit_def log_effects_def split: prod.splits)
  from same_state_trans [OF this Cons.IH] show ?case by (simp add: deliver_def ev)
qed

lemma same_state_statics: "same_state inst inst' \<Longrightarrow> in_statics inst' = in_statics inst"
  by (simp add: same_state_def)

lemma mark_inst_statics: "in_statics (mark_inst i f inst) = in_statics inst"
  by (simp add: mark_inst_def)

text \<open>
  What the router relies on: the data can be put into the instance and taken out, putting it touches
  nothing that routes messages, taking it depends on the parts of the instance that routing keeps,
  and the handler reads of a message the path, the headers and the body.
\<close>

locale module_data =
  fixes take_data :: "portal_instance \<Rightarrow> 's"
    and put_data :: "'s \<Rightarrow> portal_instance \<Rightarrow> portal_instance"
    and handle :: "env \<Rightarrow> portal_msg \<Rightarrow> portal_resp \<Rightarrow> 's \<Rightarrow> 's mod_result"
  assumes take_put: "take_data (put_data s inst) = s"
    and put_routes: "in_modules (put_data s inst) = in_modules inst" "in_config (put_data s inst) = in_config inst"
      "in_paths (put_data s inst) = in_paths inst"
    and put_statics: "in_statics inst' = in_statics inst \<Longrightarrow> in_statics (put_data s inst') = in_statics (put_data s inst)"
    and take_cong: "in_statics inst' = in_statics inst \<Longrightarrow> in_fs inst' = in_fs inst \<Longrightarrow> take_data inst' = take_data inst"
    and handle_cong: "msg_path msg' = msg_path msg \<Longrightarrow> msg_headers msg' = msg_headers msg \<Longrightarrow> msg_body msg' = msg_body msg \<Longrightarrow>
      handle env msg' resp s = handle env msg resp s"
begin

lemma take_mark: "take_data (mark_inst i f inst) = take_data inst"
  by (rule take_cong) (simp_all add: mark_inst_def)

lemma take_same: "same_state inst inst' \<Longrightarrow> take_data inst' = take_data inst"
  by (rule take_cong) (simp_all add: same_state_def)

lemma served:
  assumes h: "hosts name ps (msg_ctx msg) i lib inst" and p: "msg_path msg = Some p" "p \<in> set ps"
    and lib: "ev_handle env lib = (\<lambda>msg resp inst. serve env put_data (handle env msg resp (take_data inst)) resp inst)"
    and res: "handle env msg resp (take_data inst) = Inr (rc, r, s, evs)"
  obtains msg' inst' where "api_send env msg resp inst = Inr (rc, msg', r, inst')" "take_data inst' = s"
    "in_statics inst' = in_statics (put_data s inst)"
    "\<And>ctx. hosts name ps ctx i lib inst \<Longrightarrow> hosts name ps ctx i lib inst'"
proof -
  have own: "strip_own (in_config inst) p = p" "portal_path_lookup (in_paths inst) p = Some name" "\<not> access_denied (in_paths inst) p (msg_ctx msg)"
    using h p(2) by (auto simp: hosts_def list_all_iff)
  then have route: "find_route (in_paths inst) p = Some name" by (simp add: find_route_def)
  have e: "name \<noteq> ''core''" "portal_module_find (in_modules inst) name = Some i" "me_loaded (mr_entries (in_modules inst) ! i)"
    "\<not> me_unloading (mr_entries (in_modules inst) ! i)" "me_lib (mr_entries (in_modules inst) ! i) = Some lib"
    using h by (simp_all add: hosts_def)
  obtain msg' inst1 where prep: "same_state inst inst1" "stamped msg msg'" "msg_path msg' = Some p"
    "api_send_with env (api_send_rec 1 env) msg resp inst =
       obind (call_module env i msg' resp inst1) (\<lambda>(rc, resp, inst). Inr (rc, msg', resp, trace_inst env msg' (Some resp) inst))"
    by (rule api_send_module [OF p(1) own(1) route e(1-4) own(3)])
  let ?in = "enter_module env i inst1"
  let ?out = "deliver env evs (put_data s ?in)"
  let ?fin = "mark_inst i (\<lambda>e. e\<lparr>me_use_count := me_use_count e - 1\<rparr>) ?out"
  have "take_data ?in = take_data inst" using take_same [OF prep(1)] by (simp add: enter_module_def take_mark)
  moreover have "handle env msg' resp (take_data inst) = handle env msg resp (take_data inst)"
    using prep(2,3) p(1) by (intro handle_cong) (simp_all add: stamped_def)
  ultimately have "ev_handle env lib msg' resp ?in = Returned rc r ?out" by (simp add: lib serve_def res)
  moreover have "me_lib (mr_entries (in_modules inst1) ! i) = Some lib" using e(5) prep(1) by (simp add: same_state_def)
  ultimately have "call_module env i msg' resp inst1 = Inr (rc, r, ?fin)" by (intro call_module_eq(1))
  then have send: "api_send env msg resp inst = Inr (rc, msg', r, trace_inst env msg' (Some r) ?fin)"
    unfolding api_send_unfold prep(4) by simp
  have "take_data (trace_inst env msg' (Some r) ?fin) = s"
    using take_same [OF same_state_trace] take_mark take_same [OF deliver_same] take_put by simp
  moreover have "in_statics (trace_inst env msg' (Some r) ?fin) = in_statics (put_data s inst)"
  proof -
    have "in_statics ?in = in_statics inst" unfolding enter_module_def mark_inst_statics by (rule same_state_statics [OF prep(1)])
    from put_statics [OF this] have "in_statics ?out = in_statics (put_data s inst)" using same_state_statics [OF deliver_same] by (rule trans [rotated])
    then show ?thesis using same_state_statics [OF same_state_trace] by (simp only: mark_inst_statics)
  qed
  moreover have "hosts name ps ctx i lib (trace_inst env msg' (Some r) ?fin)" if "hosts name ps ctx i lib inst" for ctx
  proof -
    have same: "hosts name ps ctx i lib b = hosts name ps ctx i lib a" if "same_state a b" for a b
      using that by (intro hosts_cong) (simp_all add: same_state_def)
    have "hosts name ps ctx i lib ?in" using that same [OF prep(1)] by (simp add: enter_module_def hosts_mark)
    then have "hosts name ps ctx i lib ?out" using same [OF deliver_same] hosts_cong [OF put_routes] by simp
    then show ?thesis using same [OF same_state_trace] by (simp add: hosts_mark)
  qed
  ultimately show thesis using that [OF send] by blast
qed

end

text \<open>The handlers read the path, the headers and the body.\<close>

lemma queue_handle_cong:
  assumes "msg_path msg' = msg_path msg" "msg_headers msg' = msg_headers msg" "msg_body msg' = msg_body msg"
  shows "queue_handle msg' resp s = queue_handle msg resp s"
  by (unfold queue_handle_def handle_push_def with_header_def assms) (rule refl)

lemma cache_handle_cong:
  assumes "msg_path msg' = msg_path msg" "msg_headers msg' = msg_headers msg" "msg_body msg' = msg_body msg"
  shows "cache_handle now rate msg' resp s = cache_handle now rate msg resp s"
  by (unfold cache_handle_def handle_set_def with_header_def assms) (rule refl)

lemma fw_handle_cong:
  assumes "msg_path msg' = msg_path msg" "msg_headers msg' = msg_headers msg" "msg_body msg' = msg_body msg"
  shows "fw_handle now msg' resp s = fw_handle now msg resp s"
  by (unfold fw_handle_def handle_rule_def handle_remove_def handle_check_def need_source_def with_header_def assms) (rule refl)

lemma kv_handle_cong:
  assumes "msg_path msg' = msg_path msg" "msg_headers msg' = msg_headers msg" "msg_body msg' = msg_body msg"
  shows "kv_handle os msg' resp s = kv_handle os msg resp s"
  by (unfold kv_handle_def kv_get_def kv_set_def kv_del_def kv_exists_def with_key_def assms) (rule refl)

lemma tpl_handle_cong:
  assumes "msg_path msg' = msg_path msg" "msg_headers msg' = msg_headers msg" "msg_body msg' = msg_body msg"
  shows "tpl_handle can_write names msg' resp s = tpl_handle can_write names msg resp s"
  by (unfold tpl_handle_def handle_render_def handle_store_def assms) (rule refl)

interpretation hq: module_data get_queue put_queue "\<lambda>env. queue_handle"
  by unfold_locales (simp_all add: get_queue_def put_queue_def, rule queue_handle_cong)

interpretation hc: module_data get_cache put_cache "\<lambda>env. cache_handle (uint (ev_now env)) rate" for rate
  by unfold_locales (simp_all add: get_cache_def put_cache_def, rule cache_handle_cong)

interpretation hf: module_data get_firewall put_firewall "\<lambda>env. fw_handle (uint (ev_now env))"
  by unfold_locales (simp_all add: get_firewall_def put_firewall_def, rule fw_handle_cong)

interpretation hk: module_data get_kv put_kv "\<lambda>env. kv_handle os" for os
  by unfold_locales (simp_all add: get_kv_def put_kv_def, rule kv_handle_cong)

interpretation ht: module_data get_template put_template "\<lambda>env. tpl_handle (ev_can_write env) names" for names
  by unfold_locales (simp_all add: get_template_def put_template_def, rule tpl_handle_cong)

subsection \<open>A loaded module is reachable\<close>

definition belongs :: "string \<Rightarrow> portal_path_tree \<Rightarrow> string \<Rightarrow> bool" where
  "belongs name tree p \<longleftrightarrow> (\<exists>e. paths tree p = Some e \<and> pe_module_name e = csnprintf PORTAL_MAX_MODULE_NAME name \<and> pe_labels e = [])"

lemma declare_path_belongs:
  assumes "tree_ok (in_paths inst)" "paths (in_paths inst) p = None"
  obtains tree where "declare_path name (p, mode, d) inst = inst\<lparr>in_paths := tree\<rparr>" "tree_ok tree" "belongs name tree p"
    "\<And>q. q \<noteq> p \<Longrightarrow> paths tree q = paths (in_paths inst) q"
proof -
  let ?t1 = "snd (portal_path_register (in_paths inst) p name)"
  let ?t2 = "path_modify ?t1 p (\<lambda>e. e\<lparr>pe_access_mode := mode\<rparr>)"
  let ?t3 = "\<lambda>t. path_modify ?t2 p (\<lambda>e. e\<lparr>pe_description := csnprintf 256 t\<rparr>)"
  note reg = portal_path_register_fresh [OF assms, of name]
  note mode = path_modify_ok [OF reg(2), of p "\<lambda>e. e\<lparr>pe_access_mode := mode\<rparr>"]
  have desc: "tree_ok (?t3 t)" "paths (?t3 t) = (paths ?t2)(p := map_option (\<lambda>e. e\<lparr>pe_description := csnprintf 256 t\<rparr>) (paths ?t2 p))" for t
    using path_modify_ok [OF mode(1)] by simp_all
  have at: "paths ?t1 p = Some (path_entry_new p name)" "paths ?t2 p = Some ((path_entry_new p name)\<lparr>pe_access_mode := mode\<rparr>)"
    by (simp_all add: reg(3) mode(2))
  have "declare_path name (p, mode, d) inst = inst\<lparr>in_paths := (case d of None \<Rightarrow> ?t2 | Some t \<Rightarrow> ?t3 t)\<rparr>"
    using at by (auto simp: declare_path_def api_path_register_def api_path_set_access_def api_path_set_description_def on_paths_def
        portal_path_lookup_entry_def portal_path_set_description_def Let_def split: prod.splits option.splits)
  moreover have "tree_ok (case d of None \<Rightarrow> ?t2 | Some t \<Rightarrow> ?t3 t)" using mode(1) desc(1) by (simp split: option.split)
  moreover have "belongs name (case d of None \<Rightarrow> ?t2 | Some t \<Rightarrow> ?t3 t) p"
    using at desc(2) by (auto simp: belongs_def path_entry_new_def split: option.split)
  moreover have "paths (case d of None \<Rightarrow> ?t2 | Some t \<Rightarrow> ?t3 t) q = paths (in_paths inst) q" if "q \<noteq> p" for q
    using that reg(3) mode(2) desc(2) by (simp split: option.split)
  ultimately show thesis by (rule that)
qed

lemma declare_paths_belong:
  assumes "tree_ok (in_paths inst)" "distinct (map fst ds)" "list_all (\<lambda>d. paths (in_paths inst) (fst d) = None) ds"
  shows "\<exists>tree. fold (declare_path name) ds inst = inst\<lparr>in_paths := tree\<rparr> \<and> tree_ok tree \<and> list_all (\<lambda>d. belongs name tree (fst d)) ds \<and>
    (\<forall>q. q \<notin> fst ` set ds \<longrightarrow> paths tree q = paths (in_paths inst) q)"
  using assms
proof (induction ds arbitrary: inst)
  case Nil
  then show ?case by (auto intro: exI [of _ "in_paths inst"])
next
  case (Cons d ds)
  obtain p mode why where d: "d = (p, mode, why)" by (metis prod_cases3)
  have "paths (in_paths inst) p = None" using Cons.prems(3) by (simp add: d)
  from declare_path_belongs [OF Cons.prems(1) this, of name mode why] obtain t1 where
    t1: "declare_path name (p, mode, why) inst = inst\<lparr>in_paths := t1\<rparr>" "tree_ok t1" "belongs name t1 p"
      "\<And>q. q \<noteq> p \<Longrightarrow> paths t1 q = paths (in_paths inst) q" by metis
  let ?i = "inst\<lparr>in_paths := t1\<rparr>"
  have "fst x \<noteq> p" if "x \<in> set ds" for x using Cons.prems(2) that by (force simp: d)
  then have "list_all (\<lambda>d. paths (in_paths ?i) (fst d) = None) ds"
    using Cons.prems(3) t1(4) by (simp add: list_all_iff)
  with Cons.IH [of ?i] Cons.prems(2) t1(2) obtain t2 where
    t2: "fold (declare_path name) ds ?i = ?i\<lparr>in_paths := t2\<rparr>" "tree_ok t2" "list_all (\<lambda>d. belongs name t2 (fst d)) ds"
      "\<forall>q. q \<notin> fst ` set ds \<longrightarrow> paths t2 q = paths t1 q"
    by auto
  have "p \<notin> fst ` set ds" using Cons.prems(2) by (simp add: d)
  then have "belongs name t2 p" using t1(3) t2(4) by (simp add: belongs_def)
  with t1 t2 show ?case by (intro exI [of _ t2]) (auto simp: d)
qed

lemma belongs_open:
  assumes "belongs name tree p" "length name < PORTAL_MAX_MODULE_NAME"
  shows "portal_path_lookup tree p = Some name" "\<not> access_denied tree p ctx"
  using assms by (auto simp: belongs_def portal_path_lookup_def access_denied_def check_access_rule access_rule_def csnprintf_fits)

lemma hosts_declared:
  assumes "tree_ok (in_paths inst)" "distinct (map fst ds)" "list_all (\<lambda>d. paths (in_paths inst) (fst d) = None) ds"
    "list_all (\<lambda>d. strip_own (in_config inst) (fst d) = fst d) ds" "length name < PORTAL_MAX_MODULE_NAME" "name \<noteq> ''core''"
    "portal_module_find (in_modules inst) name = Some i" "me_loaded (mr_entries (in_modules inst) ! i)"
    "\<not> me_unloading (mr_entries (in_modules inst) ! i)" "me_lib (mr_entries (in_modules inst) ! i) = Some lib"
  obtains tree where "fold (declare_path name) ds inst = inst\<lparr>in_paths := tree\<rparr>"
    "\<And>ctx. hosts name (map fst ds) ctx i lib (inst\<lparr>in_paths := tree\<rparr>)"
proof -
  obtain tree where tree: "fold (declare_path name) ds inst = inst\<lparr>in_paths := tree\<rparr>" "list_all (\<lambda>d. belongs name tree (fst d)) ds"
    using declare_paths_belong [OF assms(1-3)] by blast
  have "hosts name (map fst ds) ctx i lib (inst\<lparr>in_paths := tree\<rparr>)" for ctx
    using tree(2) assms(4-10) belongs_open [of name tree] by (auto simp: hosts_def list_all_iff)
  with tree(1) show thesis by (rule that)
qed

subsection \<open>The queue as a service of the core\<close>

fun send_all :: "env \<Rightarrow> portal_msg list \<Rightarrow> portal_instance \<Rightarrow> (portal_resp list \<times> portal_instance) outcome" where
  "send_all env [] inst = Inr ([], inst)"
| "send_all env (m # ms) inst =
     obind (api_send env m portal_resp_alloc inst) (\<lambda>(rc, m', r, inst). obind (send_all env ms inst) (\<lambda>(rs, inst). Inr (r # rs, inst)))"

definition queue_msg :: "portal_ctx option \<Rightarrow> queue_op \<Rightarrow> portal_msg" where
  "queue_msg ctx p = (queue_request p)\<lparr>msg_ctx := ctx\<rparr>"

lemma queue_msg_simps:
  "msg_ctx (queue_msg ctx p) = ctx" "\<exists>path\<in>set (map fst queue_paths). msg_path (queue_msg ctx p) = Some path"
  "queue_handle (queue_msg ctx p) portal_resp_alloc s = queue_step p s"
proof -
  show "msg_ctx (queue_msg ctx p) = ctx" by (simp add: queue_msg_def)
  show "\<exists>path\<in>set (map fst queue_paths). msg_path (queue_msg ctx p) = Some path"
    by (cases p) (simp_all add: queue_msg_def queue_request_def queue_paths_def)
  show "queue_handle (queue_msg ctx p) portal_resp_alloc s = queue_step p s"
    unfolding queue_step_def by (rule queue_handle_cong) (simp_all add: queue_msg_def)
qed

lemma queue_routed:
  assumes "hosts ''queue'' (map fst queue_paths) ctx i lib inst" "ev_handle env lib = queue_module_handle env"
    "queue_run ops (get_queue inst) = Inr (tr, s)"
  shows "\<exists>inst'. send_all env (map (queue_msg ctx) ops) inst = Inr (map (fst \<circ> snd) tr, inst') \<and> get_queue inst' = s"
  using assms(1,3)
proof (induction ops arbitrary: inst tr)
  case Nil
  then show ?case by simp
next
  case (Cons p ops)
  then obtain rc r s1 ev tr1 where step: "queue_step p (get_queue inst) = Inr (rc, r, s1, ev)" "queue_run ops s1 = Inr (tr1, s)"
    "tr = (p, r, ev) # tr1" by (auto simp: obind_Inr)
  obtain path where path: "msg_path (queue_msg ctx p) = Some path" "path \<in> set (map fst queue_paths)" using queue_msg_simps(2) by blast
  have lib: "ev_handle env lib = (\<lambda>msg resp inst. serve env put_queue (queue_handle msg resp (get_queue inst)) resp inst)"
    by (simp add: assms(2) queue_module_handle_def fun_eq_iff)
  have res: "queue_handle (queue_msg ctx p) portal_resp_alloc (get_queue inst) = Inr (rc, r, s1, ev)"
    by (simp add: queue_msg_simps step(1))
  have host: "hosts ''queue'' (map fst queue_paths) (msg_ctx (queue_msg ctx p)) i lib inst" using Cons.prems(1) by (simp add: queue_msg_simps)
  obtain msg' inst1 where sent: "api_send env (queue_msg ctx p) portal_resp_alloc inst = Inr (rc, msg', r, inst1)" "get_queue inst1 = s1"
    "\<And>ctx. hosts ''queue'' (map fst queue_paths) ctx i lib inst \<Longrightarrow> hosts ''queue'' (map fst queue_paths) ctx i lib inst1"
    by (rule hq.served [OF host path lib res]) blast
  from Cons.IH [OF sent(3) [OF Cons.prems(1)], of tr1] step(2) sent(2) obtain inst' where
    "send_all env (map (queue_msg ctx) ops) inst1 = Inr (map (fst \<circ> snd) tr1, inst')" "get_queue inst' = s" by auto
  with sent(1) step(3) show ?case by simp
qed

lemma queue_loaded_ok: "qm_default_depth (queue_load d s) < 2 ^ 31 \<Longrightarrow> queue_ok (queue_load d s)"
  by (simp add: queue_ok_def queue_load_def)

lemma queue_loaded_empty: "waiting (queue_load d s) n = []"
  by (simp add: waiting_def find_queue_def queue_load_def)

text \<open>
  Property C3. The queue module as a service of the core, from its loading to its answers. Loading
  it into an instance where its paths are free registers them, and from then on every sequence of
  create, push and pop requests, sent through the router by any sender, is answered as the queue
  module alone would answer it: each queue hands out what it accepted, in order, followed by what
  still waits.
\<close>

theorem queue_service:
  assumes "tree_ok (in_paths inst)" "list_all (\<lambda>d. paths (in_paths inst) (fst d) = None) queue_paths"
    "list_all (\<lambda>d. strip_own (in_config inst) (fst d) = fst d) queue_paths"
    "portal_module_find (in_modules inst) ''queue'' = Some i" "me_loaded (mr_entries (in_modules inst) ! i)"
    "\<not> me_unloading (mr_entries (in_modules inst) ! i)" "me_lib (mr_entries (in_modules inst) ! i) = Some lib"
    "ev_handle env lib = queue_module_handle env" "queue_module_load env inst = (rc, inst1)"
    "qm_default_depth (get_queue inst1) < 2 ^ 31" "list_all short_op ops"
  shows "rc = 0 \<and> (\<exists>tr inst2. send_all env (map (queue_msg ctx) ops) inst1 = Inr (map (fst \<circ> snd) tr, inst2) \<and> map fst tr = ops \<and>
    queue_run ops (get_queue inst1) = Inr (tr, get_queue inst2) \<and>
    (\<forall>n. concat (map (handed_out n) tr) @ waiting (get_queue inst2) n = concat (map (accepted n) tr)))"
proof -
  let ?q = "queue_load (api_config_get env inst ''queue'' ''max_depth'') (st_queue (in_statics inst))"
  let ?i = "inst\<lparr>in_statics := (in_statics inst)\<lparr>st_queue := ?q\<rparr>\<rparr>"
  have dis: "distinct (map fst queue_paths)" by (simp add: queue_paths_def)
  obtain tree where tree: "fold (declare_path ''queue'') queue_paths ?i = ?i\<lparr>in_paths := tree\<rparr>"
    "hosts ''queue'' (map fst queue_paths) ctx i lib (?i\<lparr>in_paths := tree\<rparr>)"
    by (rule hosts_declared [of ?i queue_paths "''queue''" i lib]) (use assms(1-7) dis in simp_all)
  then have i1: "inst1 = ?i\<lparr>in_paths := tree\<rparr>" "rc = 0" using assms(9) by (simp_all add: queue_module_load_def)
  then have q: "get_queue inst1 = ?q" by (simp add: get_queue_def)
  then have "queue_ok (get_queue inst1)" using assms(10) queue_loaded_ok by simp
  from queue_run_fifo [OF this assms(11)] obtain tr s where run: "queue_run ops (get_queue inst1) = Inr (tr, s)" "map fst tr = ops" by blast
  have "concat (map (handed_out n) tr) @ waiting s n = concat (map (accepted n) tr)" for n
    using queue_run_fifo [OF \<open>queue_ok (get_queue inst1)\<close> assms(11), of n] run(1) q queue_loaded_empty by simp
  with queue_routed [OF _ assms(8) run(1), of ctx i] tree(2) i1 run show ?thesis by auto
qed

text \<open>An instance with the queue module in its registry, and an environment whose library 3 is its code.\<close>

definition queue_inst :: portal_instance where
  "queue_inst = demo_inst\<lparr>in_modules :=
     \<lparr>mr_entries = [entry_fill ''queue'' 3 \<lparr>mi_name = ''queue'', mi_version = ''1.0.0'', mi_description = ''Message queues (FIFO)''\<rparr> entry_new],
      mr_dir = []\<rparr>\<rparr>"

definition queue_env :: env where
  "queue_env = demo_env\<lparr>ev_handle := (\<lambda>lib. queue_module_handle demo_env)\<rparr>"

lemma queue_env_handle: "ev_handle queue_env 3 = queue_module_handle queue_env"
proof -
  have emit: "api_event_emit queue_env = api_event_emit demo_env" by (simp add: fun_eq_iff api_event_emit_def queue_env_def)
  have "queue_module_handle queue_env = queue_module_handle demo_env"
    by (intro ext) (unfold queue_module_handle_def serve_def deliver_def emit, rule refl)
  then show ?thesis by (simp add: queue_env_def)
qed

lemma queue_inst_config: "api_config_get queue_env queue_inst ''queue'' ''max_depth'' = None" "in_statics queue_inst = statics_zero"
  by (simp_all add: api_config_get_def queue_inst_def queue_env_def demo_inst_def demo_env_def portal_instance_init_def
      api_path_register_def on_paths_def portal_config_defaults_def portal_config_get_def ht_ok_init portal_storage_init_def Let_def
      split: prod.splits)

theorem queue_service_witness:
  "\<exists>tr inst2. send_all queue_env (map (queue_msg None) [Create ''jobs'', Push ''jobs'' ''a'', Push ''jobs'' ''b'', Pop ''jobs''])
     (snd (queue_module_load queue_env queue_inst)) = Inr (map (fst \<circ> snd) tr, inst2) \<and>
     concat (map (handed_out ''jobs'') tr) @ waiting (get_queue inst2) ''jobs'' = concat (map (accepted ''jobs'') tr)"
proof -
  let ?ops = "[Create ''jobs'', Push ''jobs'' ''a'', Push ''jobs'' ''b'', Pop ''jobs'']"
  obtain inst1 where load: "queue_module_load queue_env queue_inst = (0, inst1)" by (simp add: queue_module_load_def)
  have tree: "tree_ok (in_paths queue_inst)" "list_all (\<lambda>d. paths (in_paths queue_inst) (fst d) = None) queue_paths"
    by (simp_all add: queue_inst_def demo_inst_def demo_paths queue_paths_def)
  have strip: "list_all (\<lambda>d. strip_own (in_config queue_inst) (fst d) = fst d) queue_paths"
    using demo_strip by (simp add: queue_inst_def list_all_iff)
  have entry: "portal_module_find (in_modules queue_inst) ''queue'' = Some 0" "me_loaded (mr_entries (in_modules queue_inst) ! 0)"
    "\<not> me_unloading (mr_entries (in_modules queue_inst) ! 0)" "me_lib (mr_entries (in_modules queue_inst) ! 0) = Some 3"
    by (simp_all add: queue_inst_def portal_module_find_def entry_fill_def entry_new_def csnprintf_def)
  have "in_statics (fold (declare_path ''queue'') ds inst) = in_statics inst" for ds inst
    by (induction ds arbitrary: inst)
       (auto simp: declare_path_def api_path_register_def api_path_set_access_def api_path_set_description_def on_paths_def Let_def
         split: prod.splits option.splits)
  then have "get_queue inst1 = queue_load None queue_zero"
    using load by (auto simp: queue_module_load_def get_queue_def queue_inst_config statics_zero_def)
  then have "qm_default_depth (get_queue inst1) < 2 ^ 31" by (simp add: queue_load_def queue_zero_def)
  from queue_service [OF tree strip entry queue_env_handle load this, of ?ops None] load show ?thesis by auto
qed

end
