(* ===== verification/Services.thy ===== *)
theory Services
  imports Hosted
begin

section \<open>More services behind the router (mod_crypto, mod_validator, mod_audit)\<close>

text \<open>
  Loading, unloading and request handling of three more modules on the instance, and what their clients see
  through the router. The audit module also subscribes to every event; its handler is the number \<open>ao_handler\<close>.
\<close>

subsection \<open>Loading\<close>

definition get_crypto :: "portal_instance \<Rightarrow> int" where
  "get_crypto inst = st_crypto (in_statics inst)"

definition put_crypto :: "int \<Rightarrow> portal_instance \<Rightarrow> portal_instance" where
  "put_crypto s inst = inst\<lparr>in_statics := (in_statics inst)\<lparr>st_crypto := s\<rparr>\<rparr>"

definition get_validator :: "portal_instance \<Rightarrow> validator_module" where
  "get_validator inst = st_validator (in_statics inst)"

definition put_validator :: "validator_module \<Rightarrow> portal_instance \<Rightarrow> portal_instance" where
  "put_validator s inst = inst\<lparr>in_statics := (in_statics inst)\<lparr>st_validator := s\<rparr>\<rparr>"

definition get_audit :: "portal_instance \<Rightarrow> audit_module" where
  "get_audit inst = st_audit (in_statics inst)"

definition put_audit :: "audit_module \<Rightarrow> portal_instance \<Rightarrow> portal_instance" where
  "put_audit s inst = inst\<lparr>in_statics := (in_statics inst)\<lparr>st_audit := s\<rparr>\<rparr>"

definition crypto_module_load :: "portal_instance \<Rightarrow> int \<times> portal_instance" where
  "crypto_module_load inst = (0, fold (declare_path ''crypto'') crypto_paths (put_crypto 0 inst))"

definition crypto_module_unload :: "portal_instance \<Rightarrow> portal_instance" where
  "crypto_module_unload = withdraw_paths crypto_paths"

definition validator_module_load :: "portal_instance \<Rightarrow> int \<times> portal_instance" where
  "validator_module_load inst = (0, fold (declare_path ''validator'') validator_paths (put_validator validator_zero inst))"

definition validator_module_unload :: "portal_instance \<Rightarrow> portal_instance" where
  "validator_module_unload = withdraw_paths validator_paths"

definition audit_module_load :: "audit_os \<Rightarrow> env \<Rightarrow> portal_instance \<Rightarrow> int \<times> portal_instance" where
  "audit_module_load os env inst =
     (let m = audit_load (ev_can_write env) (api_config_get env inst ''audit'' ''max_entries'') (api_config_get env inst ''audit'' ''log_file'') (get_audit inst);
          inst = fold (declare_path ''audit'') audit_paths (put_audit m inst);
          inst = snd (api_path_add_label inst ''/audit/functions/clear'' ''admin'')
      in (0, snd (api_subscribe inst ''/events/*'' (ao_handler os) None)))"

definition audit_module_unload :: "audit_os \<Rightarrow> portal_instance \<Rightarrow> portal_instance" where
  "audit_module_unload os inst =
     (let inst = snd (api_unsubscribe inst ''/events/*'' (ao_handler os))
      in withdraw_paths audit_paths (put_audit (audit_unload (get_audit inst)) inst))"

subsection \<open>Handling\<close>

definition crypto_module_handle :: "env \<Rightarrow> portal_msg \<Rightarrow> portal_resp \<Rightarrow> portal_instance \<Rightarrow> handled" where
  "crypto_module_handle env msg resp inst = serve env put_crypto (crypto_handle msg resp (get_crypto inst)) resp inst"

definition validator_module_handle :: "validator_os \<Rightarrow> env \<Rightarrow> portal_msg \<Rightarrow> portal_resp \<Rightarrow> portal_instance \<Rightarrow> handled" where
  "validator_module_handle os env msg resp inst =
     serve env put_validator (validator_handle os msg resp (get_validator inst)) resp inst"

definition audit_module_handle :: "audit_os \<Rightarrow> env \<Rightarrow> portal_msg \<Rightarrow> portal_resp \<Rightarrow> portal_instance \<Rightarrow> handled" where
  "audit_module_handle os env msg resp inst =
     serve env put_audit (audit_handle os (in_events_reg inst) msg resp (get_audit inst)) resp inst"

lemma crypto_handle_cong:
  assumes "msg_path msg' = msg_path msg" "msg_headers msg' = msg_headers msg" "msg_body msg' = msg_body msg"
  shows "crypto_handle msg' resp s = crypto_handle msg resp s"
  by (unfold crypto_handle_def crypto_data_def assms) (rule refl)

lemma validator_handle_cong:
  assumes "msg_path msg' = msg_path msg" "msg_headers msg' = msg_headers msg" "msg_body msg' = msg_body msg"
  shows "validator_handle os msg' resp s = validator_handle os msg resp s"
  by (unfold validator_handle_def check_json_def check_number_def check_regex_def with_header_def assms) (rule refl)

interpretation hy: module_data get_crypto put_crypto "\<lambda>env. crypto_handle"
  by unfold_locales (simp_all add: get_crypto_def put_crypto_def, rule crypto_handle_cong)

interpretation hv: module_data get_validator put_validator "\<lambda>env. validator_handle os" for os
  by unfold_locales (simp_all add: get_validator_def put_validator_def, rule validator_handle_cong)

subsection \<open>What the clients see\<close>

definition client_msg :: "portal_ctx option \<Rightarrow> string \<Rightarrow> (string \<times> string) list \<Rightarrow> portal_msg" where
  "client_msg ctx path headers = (call_msg path headers)\<lparr>msg_ctx := ctx\<rparr>"

lemma client_msg_simps [simp]: "msg_path (client_msg ctx p hs) = Some p" "msg_ctx (client_msg ctx p hs) = ctx"
  by (simp_all add: client_msg_def)

lemma crypto_client: "crypto_handle (client_msg ctx p hs) resp s = crypto_handle (call_msg p hs) resp s"
  by (rule crypto_handle_cong) (simp_all add: client_msg_def)

lemma crypto_answers:
  assumes "hosts ''crypto'' (map fst crypto_paths) ctx i lib inst" "ev_handle env lib = crypto_module_handle env" "p \<in> set (map fst crypto_paths)"
    "crypto_handle (call_msg p hs) portal_resp_alloc (get_crypto inst) = ok_reply portal_resp_alloc body n"
  obtains msg' inst' where "api_send env (client_msg ctx p hs) portal_resp_alloc inst =
      Inr (0, msg', portal_resp_set_body (portal_resp_set_status portal_resp_alloc PORTAL_OK) body, inst')"
    "get_crypto inst' = n" "\<And>ctx. hosts ''crypto'' (map fst crypto_paths) ctx i lib inst \<Longrightarrow> hosts ''crypto'' (map fst crypto_paths) ctx i lib inst'"
proof -
  have lib: "ev_handle env lib = (\<lambda>msg resp inst. serve env put_crypto (crypto_handle msg resp (get_crypto inst)) resp inst)"
    by (simp add: assms(2) crypto_module_handle_def fun_eq_iff)
  have host: "hosts ''crypto'' (map fst crypto_paths) (msg_ctx (client_msg ctx p hs)) i lib inst" using assms(1) by simp
  have res: "crypto_handle (client_msg ctx p hs) portal_resp_alloc (get_crypto inst) =
      Inr (0, portal_resp_set_body (portal_resp_set_status portal_resp_alloc PORTAL_OK) body, n, [])"
    using assms(4) by (simp add: crypto_client ok_reply_def)
  show thesis
    by (rule hy.served [OF host client_msg_simps(1) assms(3) lib res]) (use that in blast)
qed

text \<open>
  Property C4. Encoding as a service of the core: once the crypto module is loaded, a text of less than 4096 bytes that one
  client has encoded through the router can be decoded by any other one, and the module has counted both requests.
\<close>

theorem crypto_service:
  assumes "tree_ok (in_paths inst)" "list_all (\<lambda>d. paths (in_paths inst) (fst d) = None) crypto_paths"
    "list_all (\<lambda>d. strip_own (in_config inst) (fst d) = fst d) crypto_paths"
    "portal_module_find (in_modules inst) ''crypto'' = Some i" "me_loaded (mr_entries (in_modules inst) ! i)"
    "\<not> me_unloading (mr_entries (in_modules inst) ! i)" "me_lib (mr_entries (in_modules inst) ! i) = Some lib"
    "ev_handle env lib = crypto_module_handle env" "crypto_module_load inst = (rc, inst1)" "length d < 4096"
  shows "rc = 0 \<and> (\<exists>e m1 r1 inst2 m2 r2 inst3.
    api_send env (client_msg ctx ''/crypto/functions/base64enc'' [(''data'', d)]) portal_resp_alloc inst1 = Inr (0, m1, r1, inst2) \<and>
    resp_body r1 = e @ NL \<and>
    api_send env (client_msg ctx' ''/crypto/functions/base64dec'' [(''data'', e)]) portal_resp_alloc inst2 = Inr (0, m2, r2, inst3) \<and>
    resp_body r2 = d \<and> get_crypto inst3 = 2)"
proof -
  let ?i = "put_crypto 0 inst"
  have dis: "distinct (map fst crypto_paths)" by (simp add: crypto_paths_def)
  obtain tree where tree: "fold (declare_path ''crypto'') crypto_paths ?i = ?i\<lparr>in_paths := tree\<rparr>"
    "\<And>ctx. hosts ''crypto'' (map fst crypto_paths) ctx i lib (?i\<lparr>in_paths := tree\<rparr>)"
    by (rule hosts_declared [of ?i crypto_paths "''crypto''" i lib]) (use assms(1-7) dis in \<open>simp_all add: put_crypto_def\<close>)
  have "get_crypto (?i\<lparr>in_paths := tree\<rparr>) = 0" by (simp add: get_crypto_def put_crypto_def)
  moreover have i1: "inst1 = ?i\<lparr>in_paths := tree\<rparr>" "rc = 0" using assms(9) tree(1) by (simp_all add: crypto_module_load_def)
  ultimately have zero: "get_crypto inst1 = 0" by simp
  note host = tree(2) [folded i1(1)]
  have paths: "''/crypto/functions/base64enc'' \<in> set (map fst crypto_paths)" "''/crypto/functions/base64dec'' \<in> set (map fst crypto_paths)"
    by (simp_all add: crypto_paths_def)
  note answers = encode_answers [OF assms(10)]
  obtain m1 inst2 where one: "api_send env (client_msg ctx ''/crypto/functions/base64enc'' [(''data'', d)]) portal_resp_alloc inst1 =
      Inr (0, m1, portal_resp_set_body (portal_resp_set_status portal_resp_alloc PORTAL_OK) (base64_text d @ NL), inst2)"
    "get_crypto inst2 = 1" "\<And>ctx. hosts ''crypto'' (map fst crypto_paths) ctx i lib inst1 \<Longrightarrow> hosts ''crypto'' (map fst crypto_paths) ctx i lib inst2"
    by (rule crypto_answers [OF host assms(8) paths(1) answers(1)]) (use zero in auto)
  obtain m2 inst3 where "api_send env (client_msg ctx' ''/crypto/functions/base64dec'' [(''data'', base64_text d)]) portal_resp_alloc inst2 =
      Inr (0, m2, portal_resp_set_body (portal_resp_set_status portal_resp_alloc PORTAL_OK) d, inst3)" "get_crypto inst3 = 2"
    by (rule crypto_answers [OF one(3) [OF host] assms(8) paths(2) answers(2)]) (use one(2) in auto)
  with one(1) i1(2) show ?thesis by (auto simp: portal_resp_set_body_def)
qed

definition crypto_inst :: portal_instance where
  "crypto_inst = demo_inst\<lparr>in_modules :=
     \<lparr>mr_entries = [entry_fill ''crypto'' 3 \<lparr>mi_name = ''crypto'', mi_version = ''1.0.0'', mi_description = ''Cryptographic utilities (hash, base64, hex)''\<rparr> entry_new],
      mr_dir = []\<rparr>\<rparr>"

definition crypto_env :: env where
  "crypto_env = demo_env\<lparr>ev_handle := (\<lambda>lib. crypto_module_handle demo_env)\<rparr>"

lemma crypto_env_handle: "ev_handle crypto_env 3 = crypto_module_handle crypto_env"
proof -
  have emit: "api_event_emit crypto_env = api_event_emit demo_env" by (simp add: fun_eq_iff api_event_emit_def crypto_env_def)
  have "crypto_module_handle crypto_env = crypto_module_handle demo_env"
    by (intro ext) (unfold crypto_module_handle_def serve_def deliver_def emit, rule refl)
  then show ?thesis by (simp add: crypto_env_def)
qed

theorem crypto_service_witness:
  "\<exists>e m1 r1 inst2 m2 r2 inst3.
    api_send crypto_env (client_msg None ''/crypto/functions/base64enc'' [(''data'', ''Port'')]) portal_resp_alloc (snd (crypto_module_load crypto_inst)) =
      Inr (0, m1, r1, inst2) \<and> resp_body r1 = e @ NL \<and>
    api_send crypto_env (client_msg None ''/crypto/functions/base64dec'' [(''data'', e)]) portal_resp_alloc inst2 = Inr (0, m2, r2, inst3) \<and>
    resp_body r2 = ''Port''"
proof -
  obtain inst1 where load: "crypto_module_load crypto_inst = (0, inst1)" by (simp add: crypto_module_load_def)
  have tree: "tree_ok (in_paths crypto_inst)" "list_all (\<lambda>d. paths (in_paths crypto_inst) (fst d) = None) crypto_paths"
    by (simp_all add: crypto_inst_def demo_inst_def demo_paths crypto_paths_def)
  have strip: "list_all (\<lambda>d. strip_own (in_config crypto_inst) (fst d) = fst d) crypto_paths"
    using demo_strip by (simp add: crypto_inst_def list_all_iff)
  have entry: "portal_module_find (in_modules crypto_inst) ''crypto'' = Some 0" "me_loaded (mr_entries (in_modules crypto_inst) ! 0)"
    "\<not> me_unloading (mr_entries (in_modules crypto_inst) ! 0)" "me_lib (mr_entries (in_modules crypto_inst) ! 0) = Some 3"
    by (simp_all add: crypto_inst_def portal_module_find_def entry_fill_def entry_new_def csnprintf_def)
  have "length ''Port'' < 4096" by simp
  from crypto_service [OF tree strip entry crypto_env_handle load this, of None None] load show ?thesis by auto
qed

end
