(* ===== verification/Jobs.thy ===== *)
theory Jobs
  imports Hosted
begin

section \<open>Modules that send messages (mod_cron, mod_scheduler, mod_json)\<close>

text \<open>
  The handlers of these modules send messages through the core while they answer a request. The function that
  sends is a parameter, as it is for the handlers of the core: the router gives them \<open>api_send\<close>, and a message can
  come back to the module that sent it. What is sent carries no context, so it has the rights of an
  anonymous caller, whoever made the request.
\<close>

definition nested_send :: "send_fn \<Rightarrow> string \<Rightarrow> 8 word \<Rightarrow> portal_instance \<Rightarrow> (int \<times> portal_resp \<times> portal_instance) outcome" where
  "nested_send send path meth inst =
     (let (msg, g) = portal_msg_alloc (in_msg_id inst);
          msg = snd (portal_msg_set_path msg path);
          msg = snd (portal_msg_set_method msg meth)
      in obind (send msg portal_resp_alloc (inst\<lparr>in_msg_id := g\<rparr>)) (\<lambda>(rc, msg, resp, inst). Inr (rc, resp, inst)))"

text \<open>The part of an answer that needs no message; its events go through the core.\<close>

definition answered :: "env \<Rightarrow> ('s \<Rightarrow> portal_instance \<Rightarrow> portal_instance) \<Rightarrow> 's mod_result \<Rightarrow> portal_instance \<Rightarrow> handler_result" where
  "answered env put result inst = obind result (\<lambda>(rc, resp, s, evs). Inr (rc, resp, deliver env evs (put s inst)))"

subsection \<open>Periodic jobs\<close>

definition get_cron :: "portal_instance \<Rightarrow> cron_module" where
  "get_cron inst = st_cron (in_statics inst)"

definition put_cron :: "cron_module \<Rightarrow> portal_instance \<Rightarrow> portal_instance" where
  "put_cron s inst = inst\<lparr>in_statics := (in_statics inst)\<lparr>st_cron := s\<rparr>\<rparr>"

text \<open>One due job: it is marked before its message is sent.\<close>

definition cron_run :: "env \<Rightarrow> send_fn \<Rightarrow> nat \<Rightarrow> portal_instance \<Rightarrow> portal_instance outcome" where
  "cron_run env send i inst =
     (let m = get_cron inst; j = cr_jobs m ! i
      in obind (nested_send send (cj_path j) PORTAL_METHOD_CALL
                  (put_cron (m\<lparr>cr_jobs := (cr_jobs m)[i := job_started (uint (ev_now env)) j]\<rparr>) inst)) (\<lambda>(rc, resp, inst).
         let jobs = cr_jobs (get_cron inst)
         in Inr (snd (api_event_emit env inst ''/events/cron/execute'' (if i < length jobs then cj_name (jobs ! i) else [])))))"

text \<open>
  The loop over the table, which is read anew after each message: \<open>k\<close> bounds the rounds, and the size of
  the array is enough.
\<close>

fun cron_loop :: "env \<Rightarrow> send_fn \<Rightarrow> nat \<Rightarrow> nat \<Rightarrow> portal_instance \<Rightarrow> portal_instance outcome" where
  "cron_loop env send 0 i inst = Inr inst"
| "cron_loop env send (Suc k) i inst =
     (if length (cr_jobs (get_cron inst)) \<le> i then Inr inst
      else if \<not> job_due (uint (ev_now env)) (cr_jobs (get_cron inst) ! i) then cron_loop env send k (Suc i) inst
      else obind (cron_run env send i inst) (cron_loop env send k (Suc i)))"

definition cron_tick :: "env \<Rightarrow> send_fn \<Rightarrow> portal_instance \<Rightarrow> portal_instance outcome" where
  "cron_tick env send inst = cron_loop env send CRON_MAX_JOBS 0 inst"

definition cron_trigger :: "env \<Rightarrow> send_fn \<Rightarrow> portal_msg \<Rightarrow> portal_resp \<Rightarrow> portal_instance \<Rightarrow> handler_result" where
  "cron_trigger env send msg resp inst =
     obind (get_header (msg_headers msg) ''name'') (\<lambda>name.
       case name of
         None \<Rightarrow> Inr (-1, portal_resp_set_status resp PORTAL_BAD_REQUEST, inst)
       | Some n \<Rightarrow>
           (let m = get_cron inst
            in case find_job m n of
                 None \<Rightarrow> Inr (-1, portal_resp_set_status resp PORTAL_NOT_FOUND, inst)
               | Some i \<Rightarrow>
                   obind (cron_tick env send (put_cron (m\<lparr>cr_jobs := (cr_jobs m)[i := (cr_jobs m ! i)\<lparr>cj_last_run := 0\<rparr>]\<rparr>) inst)) (\<lambda>inst.
                     answered env put_cron (m_text 8192 PORTAL_OK (''Triggered '' @ APOS @ n @ APOS @ NL) 0 resp (get_cron inst) []) inst)))"

definition cron_handle :: "env \<Rightarrow> send_fn \<Rightarrow> portal_msg \<Rightarrow> portal_resp \<Rightarrow> portal_instance \<Rightarrow> handler_result" where
  "cron_handle env send msg resp inst =
     obind (cron_tick env send inst) (\<lambda>inst.
       case msg_path msg of
         None \<Rightarrow> Inl Null_deref
       | Some path \<Rightarrow>
           if path = ''/cron/functions/trigger'' then cron_trigger env send msg resp inst
           else answered env put_cron (cron_request (uint (ev_now env)) path msg resp (get_cron inst)) inst)"

text \<open>The interval of the timer is the number 1.0 as the bits of a \<open>double\<close>.\<close>

definition cron_module_load :: "env \<Rightarrow> nat \<Rightarrow> portal_instance \<Rightarrow> int \<times> portal_instance" where
  "cron_module_load env tick inst =
     (0, snd (api_timer_add
           (fold (declare_path ''cron'') cron_paths
              (put_cron (cron_load (api_config_get env inst ''cron'' ''max_jobs'') (get_cron inst)) inst)) 0x3FF0000000000000 tick None))"

definition cron_module_unload :: "portal_instance \<Rightarrow> portal_instance" where
  "cron_module_unload = withdraw_paths cron_paths"

subsection \<open>One-shot tasks\<close>

definition get_sched :: "portal_instance \<Rightarrow> sched_module" where
  "get_sched inst = st_sched (in_statics inst)"

definition put_sched :: "sched_module \<Rightarrow> portal_instance \<Rightarrow> portal_instance" where
  "put_sched s inst = inst\<lparr>in_statics := (in_statics inst)\<lparr>st_sched := s\<rparr>\<rparr>"

definition task_due :: "int \<Rightarrow> sched_task \<Rightarrow> bool" where
  "task_due now t \<longleftrightarrow> tk_status t = SCHED_PENDING \<and> tk_run_at t \<le> now"

definition task_ended :: "nat \<Rightarrow> int \<Rightarrow> sched_module \<Rightarrow> sched_module" where
  "task_ended i rc m =
     (set_task_status i (if rc = 0 then SCHED_DONE else SCHED_FAILED) m)\<lparr>sm_executed := sm_executed m + 1\<rparr>"

definition sched_run :: "env \<Rightarrow> send_fn \<Rightarrow> nat \<Rightarrow> portal_instance \<Rightarrow> portal_instance outcome" where
  "sched_run env send i inst =
     (let m = get_sched inst
      in obind (nested_send send (tk_path (sm_tasks m ! i)) PORTAL_METHOD_CALL (put_sched (set_task_status i SCHED_RUNNING m) inst)) (\<lambda>(rc, resp, inst).
         let m = task_ended i rc (get_sched inst)
         in Inr (snd (api_event_emit env (put_sched m inst) ''/events/scheduler/execute''
                        (if i < length (sm_tasks m) then tk_name (sm_tasks m ! i) else [])))))"

fun sched_loop :: "env \<Rightarrow> send_fn \<Rightarrow> nat \<Rightarrow> nat \<Rightarrow> portal_instance \<Rightarrow> portal_instance outcome" where
  "sched_loop env send 0 i inst = Inr inst"
| "sched_loop env send (Suc k) i inst =
     (if length (sm_tasks (get_sched inst)) \<le> i then Inr inst
      else if \<not> task_due (uint (ev_now env)) (sm_tasks (get_sched inst) ! i) then sched_loop env send k (Suc i) inst
      else obind (sched_run env send i inst) (sched_loop env send k (Suc i)))"

definition scheduler_tick :: "env \<Rightarrow> send_fn \<Rightarrow> portal_instance \<Rightarrow> portal_instance outcome" where
  "scheduler_tick env send inst = sched_loop env send SCHED_MAX_TASKS 0 inst"

definition sched_handle :: "env \<Rightarrow> send_fn \<Rightarrow> portal_msg \<Rightarrow> portal_resp \<Rightarrow> portal_instance \<Rightarrow> handler_result" where
  "sched_handle env send msg resp inst =
     obind (scheduler_tick env send inst) (\<lambda>inst.
       case msg_path msg of
         None \<Rightarrow> Inl Null_deref
       | Some path \<Rightarrow>
           if path = ''/scheduler/functions/check''
           then obind (scheduler_tick env send inst) (\<lambda>inst. answered env put_sched (sched_checked resp (get_sched inst)) inst)
           else answered env put_sched (sched_request (uint (ev_now env)) path msg resp (get_sched inst)) inst)"

definition sched_module_load :: "env \<Rightarrow> portal_instance \<Rightarrow> int \<times> portal_instance" where
  "sched_module_load env inst =
     (0, fold (declare_path ''scheduler'') sched_paths
           (put_sched (sched_load (api_config_get env inst ''scheduler'' ''max_tasks'') (get_sched inst)) inst))"

definition sched_module_unload :: "portal_instance \<Rightarrow> portal_instance" where
  "sched_module_unload = withdraw_paths sched_paths"

subsection \<open>Responses as JSON\<close>

definition get_json :: "portal_instance \<Rightarrow> bool" where
  "get_json inst = st_json (in_statics inst)"

definition put_json :: "bool \<Rightarrow> portal_instance \<Rightarrow> portal_instance" where
  "put_json s inst = inst\<lparr>in_statics := (in_statics inst)\<lparr>st_json := s\<rparr>\<rparr>"

definition json_handle :: "env \<Rightarrow> send_fn \<Rightarrow> portal_msg \<Rightarrow> portal_resp \<Rightarrow> portal_instance \<Rightarrow> handler_result" where
  "json_handle env send msg resp inst =
     (case msg_path msg of
        None \<Rightarrow> Inl Null_deref
      | Some path \<Rightarrow>
          if path = ''/json/resources/status'' then answered env put_json (json_status resp (get_json inst)) inst
          else if path = ''/json/functions/format''
          then answered env put_json (json_format (uint (ev_now env)) msg resp (get_json inst)) inst
          else if path = ''/json/functions/wrap'' then
            obind (get_header (msg_headers msg) ''path'') (\<lambda>target.
              case target of
                None \<Rightarrow> answered env put_json (json_no_path resp (get_json inst)) inst
              | Some p \<Rightarrow>
                  obind (nested_send send p PORTAL_METHOD_GET inst) (\<lambda>(rc, answer, inst).
                    answered env put_json (json_answer (uint (ev_now env)) p answer resp (get_json inst)) inst))
          else answered env put_json (m_status PORTAL_NOT_FOUND (-1) resp (get_json inst)) inst)"

definition json_module_load :: "env \<Rightarrow> portal_instance \<Rightarrow> int \<times> portal_instance" where
  "json_module_load env inst =
     (0, fold (declare_path ''json'') json_paths
           (put_json (json_load (api_config_get env inst ''json'' ''pretty'') (get_json inst)) inst))"

definition json_module_unload :: "portal_instance \<Rightarrow> portal_instance" where
  "json_module_unload = withdraw_paths json_paths"

subsection \<open>What a message does to the tables\<close>

text \<open>\<open>sends P send\<close>: whatever is sent, when the sending returns, \<open>P\<close> relates the instances before and after.\<close>

definition sends :: "(portal_instance \<Rightarrow> portal_instance \<Rightarrow> bool) \<Rightarrow> send_fn \<Rightarrow> bool" where
  "sends P send \<longleftrightarrow> (\<forall>msg resp inst rc msg' resp' inst'. send msg resp inst = Inr (rc, msg', resp', inst') \<longrightarrow> P inst inst')"

lemma sendsD: "sends P send \<Longrightarrow> send msg resp inst = Inr (rc, msg', resp', inst') \<Longrightarrow> P inst inst'"
  unfolding sends_def by blast

lemma nested_send_eq:
  "nested_send send path meth inst =
     obind (send \<lparr>msg_id = in_msg_id inst, msg_path = Some path, msg_method = meth, msg_headers = [], msg_body = [], msg_ctx = None\<rparr>
       portal_resp_alloc (inst\<lparr>in_msg_id := in_msg_id inst + 1\<rparr>)) (\<lambda>(rc, msg, resp, inst). Inr (rc, resp, inst))"
  by (simp add: nested_send_def portal_msg_alloc_def portal_msg_next_id_def portal_msg_set_path_def portal_msg_set_method_def)

lemma nested_sendE:
  assumes "nested_send send path meth inst = Inr (rc, resp, inst')" "sends P send"
  obtains g where "P (inst\<lparr>in_msg_id := g\<rparr>) inst'"
  using assms by (auto simp: nested_send_def obind_Inr split: prod.splits dest: sendsD)

lemma event_statics [simp]: "in_statics (snd (api_event_emit env inst p d)) = in_statics inst"
  by (simp add: api_event_emit_def log_effects_def split: prod.split)

lemma deliver_statics [simp]: "in_statics (deliver env evs inst) = in_statics inst"
  using deliver_same [of inst env evs] by (simp add: same_state_def)

lemma table_simps [simp]:
  "get_cron (put_cron m inst) = m" "get_cron (inst\<lparr>in_msg_id := g\<rparr>) = get_cron inst" "get_cron (snd (api_event_emit env inst p d)) = get_cron inst"
  "get_cron (deliver env evs inst) = get_cron inst"
  "get_sched (put_sched s inst) = s" "get_sched (inst\<lparr>in_msg_id := g\<rparr>) = get_sched inst" "get_sched (snd (api_event_emit env inst p d)) = get_sched inst"
  "get_sched (deliver env evs inst) = get_sched inst"
  by (simp_all add: get_cron_def put_cron_def get_sched_def put_sched_def)

lemma answered_Inr: "answered env put result inst = Inr (rc, r, inst') \<longleftrightarrow> (\<exists>s evs. result = Inr (rc, r, s, evs) \<and> inst' = deliver env evs (put s inst))"
  by (auto simp: answered_def obind_Inr)

subsection \<open>A task runs once\<close>

text \<open>
  The life of a task: a place in the table always belongs to the same task, and its status changes only while it is
  pending.
\<close>

definition same_task :: "sched_task \<Rightarrow> sched_task \<Rightarrow> bool" where
  "same_task t t' \<longleftrightarrow>
     tk_id t' = tk_id t \<and> tk_name t' = tk_name t \<and> tk_path t' = tk_path t \<and> tk_run_at t' = tk_run_at t \<and>
     (tk_status t' = tk_status t \<or> tk_status t = SCHED_PENDING)"

definition finished :: "sched_task \<Rightarrow> bool" where
  "finished t \<longleftrightarrow> tk_status t = SCHED_DONE \<or> tk_status t = SCHED_FAILED"

definition finished_count :: "sched_module \<Rightarrow> int" where
  "finished_count m = int (length (filter finished (sm_tasks m)))"

definition advances :: "sched_module \<Rightarrow> sched_module \<Rightarrow> bool" where
  "advances m m' \<longleftrightarrow>
     length (sm_tasks m) \<le> length (sm_tasks m') \<and> (\<forall>i<length (sm_tasks m). same_task (sm_tasks m ! i) (sm_tasks m' ! i)) \<and>
     sm_executed m' - sm_executed m = finished_count m' - finished_count m"

lemma same_task_trans: "same_task a b \<Longrightarrow> same_task b c \<Longrightarrow> same_task a c"
  by (auto simp: same_task_def)

lemma advances_refl [simp]: "advances m m"
  by (simp add: advances_def same_task_def)

lemma advancesD:
  assumes "advances m m'"
  shows "length (sm_tasks m) \<le> length (sm_tasks m')" "i < length (sm_tasks m) \<Longrightarrow> same_task (sm_tasks m ! i) (sm_tasks m' ! i)"
    "sm_executed m' = sm_executed m + finished_count m' - finished_count m"
  using assms unfolding advances_def by (blast, blast, linarith)

lemma advancesI:
  assumes "length (sm_tasks m) \<le> length (sm_tasks m')" "\<And>i. i < length (sm_tasks m) \<Longrightarrow> same_task (sm_tasks m ! i) (sm_tasks m' ! i)"
    "sm_executed m' = sm_executed m + finished_count m' - finished_count m"
  shows "advances m m'"
  using assms unfolding advances_def by (intro conjI) (blast, blast, linarith)

lemma advances_trans:
  assumes "advances a b" "advances b c"
  shows "advances a c"
proof (rule advancesI)
  show "length (sm_tasks a) \<le> length (sm_tasks c)" using advancesD(1) [OF assms(1)] advancesD(1) [OF assms(2)] by (rule order_trans)
  show "sm_executed c = sm_executed a + finished_count c - finished_count a"
    using advancesD(3) [OF assms(1)] advancesD(3) [OF assms(2)] by linarith
  fix i assume i: "i < length (sm_tasks a)"
  then have "i < length (sm_tasks b)" using advancesD(1) [OF assms(1)] by linarith
  then show "same_task (sm_tasks a ! i) (sm_tasks c ! i)"
    by (rule same_task_trans [OF advancesD(2) [OF assms(1) i] advancesD(2) [OF assms(2)]])
qed

text \<open>The number of finished tasks around an update.\<close>

lemma finished_update:
  "i < length ts \<Longrightarrow> int (length (filter finished (ts[i := t]))) =
     int (length (filter finished ts)) - (if finished (ts ! i) then 1 else 0) + (if finished t then 1 else 0)"
proof (induction ts arbitrary: i)
  case (Cons x xs)
  show ?case
  proof (cases i)
    case (Suc n)
    with Cons.IH [of n] Cons.prems show ?thesis by (auto split: if_splits)
  qed simp
qed simp

lemma finished_set_status:
  "i < length (sm_tasks m) \<Longrightarrow> finished_count (set_task_status i s m) =
     finished_count m - (if finished (sm_tasks m ! i) then 1 else 0) + (if s = SCHED_DONE \<or> s = SCHED_FAILED then 1 else 0)"
proof -
  assume i: "i < length (sm_tasks m)"
  have new: "finished (t\<lparr>tk_status := s\<rparr>) \<longleftrightarrow> s = SCHED_DONE \<or> s = SCHED_FAILED" for t by (simp add: finished_def)
  show ?thesis unfolding finished_count_def set_task_status_def using finished_update [OF i] by (simp add: new)
qed

lemma advances_running:
  assumes "i < length (sm_tasks m)" "tk_status (sm_tasks m ! i) = SCHED_PENDING"
    and nested: "advances (set_task_status i SCHED_RUNNING m) n"
  shows "advances m (task_ended i rc n)"
proof -
  let ?s = "if rc = 0 then SCHED_DONE else SCHED_FAILED"
  let ?r = "set_task_status i SCHED_RUNNING m" and ?n = "(set_task_status i ?s n)\<lparr>sm_executed := sm_executed n + 1\<rparr>"
  have len: "length (sm_tasks ?r) = length (sm_tasks m)" "length (sm_tasks m) \<le> length (sm_tasks n)" "length (sm_tasks ?n) = length (sm_tasks n)"
    using advancesD(1) [OF nested] by (simp_all add: set_task_status_def)
  have at: "same_task (sm_tasks ?r ! j) (sm_tasks n ! j)" if "j < length (sm_tasks m)" for j
    using advancesD(2) [OF nested] that len(1) by simp
  have slot: "tk_status (sm_tasks n ! i) = SCHED_RUNNING"
    using at [OF assms(1)] assms(1) by (simp add: same_task_def set_task_status_def)
  have "same_task (sm_tasks m ! j) (sm_tasks ?n ! j)" if "j < length (sm_tasks m)" for j
    using at [OF that] that len(2) assms(2) by (cases "j = i") (auto simp: same_task_def set_task_status_def)
  moreover have "finished_count ?n = finished_count n + 1"
  proof -
    have "finished_count ?n = finished_count (set_task_status i ?s n)" by (simp add: finished_count_def)
    then show ?thesis using finished_set_status [of i n ?s] slot assms(1) len(2) by (auto simp: finished_def)
  qed
  moreover have "finished_count ?r = finished_count m"
    using finished_set_status [of i m SCHED_RUNNING] assms(1,2) by (simp add: finished_def)
  moreover have "sm_executed ?n = sm_executed n + 1" "sm_executed ?r = sm_executed m" by (simp_all add: set_task_status_def)
  ultimately show ?thesis using advancesD(3) [OF nested] len unfolding task_ended_def by (intro advancesI) (linarith, blast, linarith)
qed

lemma sched_run_advances:
  assumes "sends (\<lambda>a b. advances (get_sched a) (get_sched b)) send" "sched_run env send i inst = Inr inst'"
    "i < length (sm_tasks (get_sched inst))" "tk_status (sm_tasks (get_sched inst) ! i) = SCHED_PENDING"
  shows "advances (get_sched inst) (get_sched inst')"
proof -
  let ?m = "get_sched inst"
  obtain rc r inst1 where sent: "nested_send send (tk_path (sm_tasks ?m ! i)) PORTAL_METHOD_CALL (put_sched (set_task_status i SCHED_RUNNING ?m) inst) = Inr (rc, r, inst1)"
    and out: "get_sched inst' = task_ended i rc (get_sched inst1)"
    using assms(2) by (auto simp: sched_run_def obind_Inr Let_def)
  obtain g where "advances (get_sched ((put_sched (set_task_status i SCHED_RUNNING ?m) inst)\<lparr>in_msg_id := g\<rparr>)) (get_sched inst1)"
    by (rule nested_sendE [OF sent assms(1)])
  then show ?thesis unfolding out by (intro advances_running assms(3,4)) simp
qed

lemma sched_loop_advances:
  assumes "sends (\<lambda>a b. advances (get_sched a) (get_sched b)) send"
  shows "sched_loop env send k i inst = Inr inst' \<Longrightarrow> advances (get_sched inst) (get_sched inst')"
proof (induction k arbitrary: i inst)
  case (Suc k)
  show ?case
  proof (cases "i < length (sm_tasks (get_sched inst)) \<and> task_due (uint (ev_now env)) (sm_tasks (get_sched inst) ! i)")
    case True
    with Suc.prems obtain inst1 where "sched_run env send i inst = Inr inst1" "sched_loop env send k (Suc i) inst1 = Inr inst'"
      by (auto simp: obind_Inr)
    with sched_run_advances [OF assms] Suc.IH True show ?thesis by (metis advances_trans task_due_def)
  next
    case False
    with Suc show ?thesis by (auto split: if_splits)
  qed
qed simp

lemma advances_append: "\<not> finished t \<Longrightarrow> advances m (m\<lparr>sm_tasks := sm_tasks m @ [t], sm_next_id := k\<rparr>)"
  by (rule advancesI) (simp_all add: nth_append same_task_def finished_count_def)

lemma advances_cancel:
  assumes "find_pending m name = Some i"
  shows "advances m (set_task_status i SCHED_CANCELLED m)"
proof -
  have i: "i < length (sm_tasks m)" "tk_status (sm_tasks m ! i) = SCHED_PENDING"
    using assms by (auto simp: find_pending_def dest: find_index_SomeD)
  have "finished_count (set_task_status i SCHED_CANCELLED m) = finished_count m"
    using finished_set_status [OF i(1)] i(2) by (simp add: finished_def)
  moreover have "same_task (sm_tasks m ! j) (sm_tasks (set_task_status i SCHED_CANCELLED m) ! j)" if "j < length (sm_tasks m)" for j
    using i that by (cases "j = i") (auto simp: same_task_def set_task_status_def)
  ultimately show ?thesis by (intro advancesI) (simp_all add: set_task_status_def)
qed

lemma sched_request_advances: "keeps (advances m) (sched_request now path msg resp m)"
proof -
  have add: "keeps (advances m) (sched_add now msg resp m)" unfolding sched_add_def Let_def
    by (intro keeps_obind) (auto split: option.split prod.split intro!: keeps_text advances_append simp: finished_def)
  have cancel: "keeps (advances m) (sched_cancel msg resp m)" unfolding sched_cancel_def
    by (intro keeps_header keeps_option keeps_text advances_cancel) simp_all
  show ?thesis unfolding sched_request_def sched_status_reply_def sched_list_def
    by (intro keeps_if keeps_obind keeps_text add cancel) simp_all
qed

lemma sched_handle_advances:
  assumes "sends (\<lambda>a b. advances (get_sched a) (get_sched b)) send" "sched_handle env send msg resp inst = Inr (rc, r, inst')"
  shows "advances (get_sched inst) (get_sched inst')"
proof -
  have tick: "advances (get_sched a) (get_sched b)" if "scheduler_tick env send a = Inr b" for a b
    using that sched_loop_advances [OF assms(1)] by (simp add: scheduler_tick_def)
  obtain inst1 path where one: "scheduler_tick env send inst = Inr inst1" "msg_path msg = Some path"
    using assms(2) by (auto simp: sched_handle_def obind_Inr split: option.splits)
  show ?thesis
  proof (cases "path = ''/scheduler/functions/check''")
    case True
    with one assms(2) obtain inst2 where "scheduler_tick env send inst1 = Inr inst2" "get_sched inst' = get_sched inst2"
      by (auto simp: sched_handle_def obind_Inr answered_Inr sched_checked_def dest!: m_text_Inr)
    with tick one(1) show ?thesis by (metis advances_trans)
  next
    case False
    with one assms(2) obtain evs where "sched_request (uint (ev_now env)) path msg resp (get_sched inst1) = Inr (rc, r, get_sched inst', evs)"
      by (auto simp: sched_handle_def answered_Inr)
    from keepsD [OF sched_request_advances this] tick [OF one(1)] show ?thesis by (metis advances_trans)
  qed
qed

text \<open>
  Messages that come back: \<open>reenter handle decls other n\<close> gives a message for one of the paths \<open>decls\<close> to the module, at
  most \<open>n\<close> calls deep, and every other message to \<open>other\<close>, which stands for the rest of the core.
\<close>

fun reenter :: "(send_fn \<Rightarrow> portal_msg \<Rightarrow> portal_resp \<Rightarrow> portal_instance \<Rightarrow> handler_result) \<Rightarrow> path_decl list \<Rightarrow> send_fn \<Rightarrow> nat \<Rightarrow> send_fn" where
  "reenter handle decls other 0 = (\<lambda>msg resp inst. Inl Too_deep)"
| "reenter handle decls other (Suc n) =
     (\<lambda>msg resp inst.
        if msg_path msg \<in> Some ` fst ` set decls
        then obind (handle (reenter handle decls other n) msg resp inst) (\<lambda>(rc, resp, inst). Inr (rc, msg, resp, inst))
        else other msg resp inst)"

lemma reenter_advances:
  assumes "sends (\<lambda>a b. get_sched b = get_sched a) other"
  shows "sends (\<lambda>a b. advances (get_sched a) (get_sched b)) (reenter (sched_handle env) sched_paths other n)"
proof (induction n)
  case 0
  show ?case by (simp add: sends_def)
next
  case (Suc n)
  show ?case unfolding sends_def
  proof (intro allI impI)
    fix msg resp inst rc msg' resp' inst'
    assume sent: "reenter (sched_handle env) sched_paths other (Suc n) msg resp inst = Inr (rc, msg', resp', inst')"
    show "advances (get_sched inst) (get_sched inst')"
    proof (cases "msg_path msg \<in> Some ` fst ` set sched_paths")
      case True
      with sent have "sched_handle env (reenter (sched_handle env) sched_paths other n) msg resp inst = Inr (rc, resp', inst')"
        by (auto simp: obind_Inr)
      then show ?thesis by (rule sched_handle_advances [OF Suc.IH])
    next
      case False
      with sent have "other msg resp inst = Inr (rc, msg', resp', inst')" by simp
      from sendsD [OF assms this] show ?thesis by simp
    qed
  qed
qed

fun sched_history :: "send_fn \<Rightarrow> nat \<Rightarrow> (env \<times> portal_msg) list \<Rightarrow> portal_instance \<Rightarrow> portal_instance outcome" where
  "sched_history other n [] inst = Inr inst"
| "sched_history other n ((env, msg) # rest) inst =
     obind (reenter (sched_handle env) sched_paths other n msg portal_resp_alloc inst) (\<lambda>(rc, msg, resp, inst). sched_history other n rest inst)"

lemma sched_history_advances:
  assumes "sends (\<lambda>a b. get_sched b = get_sched a) other"
  shows "sched_history other n reqs inst = Inr inst' \<Longrightarrow> advances (get_sched inst) (get_sched inst')"
proof (induction reqs arbitrary: inst)
  case (Cons req reqs)
  obtain env msg where req: "req = (env, msg)" by fastforce
  with Cons.prems obtain rc msg' r inst1 where "reenter (sched_handle env) sched_paths other n msg portal_resp_alloc inst = Inr (rc, msg', r, inst1)"
    "sched_history other n reqs inst1 = Inr inst'" by (auto simp: obind_Inr)
  with sendsD [OF reenter_advances [OF assms]] Cons.IH show ?case by (blast intro: advances_trans)
qed simp

text \<open>
  Property C5. A scheduled task runs at most once. Whatever sequence of requests reaches the scheduler, at whatever
  times, and however deep the messages of its tasks come back to it, a task that is running, done,
  failed or cancelled stays as it is, so that it is not sent again, and the counter of executions has grown by the
  number of tasks that have ended.
\<close>

theorem sched_task_once:
  assumes "sends (\<lambda>a b. get_sched b = get_sched a) other" "sched_history other n reqs inst = Inr inst'"
  shows "(\<forall>i<length (sm_tasks (get_sched inst)). tk_status (sm_tasks (get_sched inst) ! i) \<noteq> SCHED_PENDING \<longrightarrow>
      sm_tasks (get_sched inst') ! i = sm_tasks (get_sched inst) ! i) \<and>
    sm_executed (get_sched inst') - sm_executed (get_sched inst) = finished_count (get_sched inst') - finished_count (get_sched inst)"
proof -
  have adv: "advances (get_sched inst) (get_sched inst')" by (rule sched_history_advances [OF assms])
  have same: "t' = t" if "same_task t t'" "tk_status t \<noteq> SCHED_PENDING" for t t' :: sched_task
    using that by (intro sched_task.equality) (auto simp: same_task_def)
  show ?thesis using advancesD(3) [OF adv] by (auto intro: same advancesD(2) [OF adv])
qed

subsection \<open>A due task runs\<close>

definition returns :: "send_fn \<Rightarrow> bool" where
  "returns send \<longleftrightarrow> (\<forall>msg resp inst. \<exists>rc msg' resp' inst'. send msg resp inst = Inr (rc, msg', resp', inst'))"

lemma nested_returns:
  assumes "returns send"
  obtains rc resp inst' where "nested_send send path meth inst = Inr (rc, resp, inst')"
proof -
  obtain msg g where alloc: "portal_msg_alloc (in_msg_id inst) = (msg, g)" by fastforce
  let ?m = "snd (portal_msg_set_method (snd (portal_msg_set_path msg path)) meth)"
  obtain rc m r i where "send ?m portal_resp_alloc (inst\<lparr>in_msg_id := g\<rparr>) = Inr (rc, m, r, i)"
    using assms unfolding returns_def by meson
  then show thesis by (intro that) (simp add: nested_send_def alloc Let_def)
qed

definition none_due :: "int \<Rightarrow> nat \<Rightarrow> sched_module \<Rightarrow> bool" where
  "none_due now n m \<longleftrightarrow> (\<forall>i<min n (length (sm_tasks m)). \<not> task_due now (sm_tasks m ! i))"

lemma none_due_advances:
  assumes "none_due now n m" "advances m m'" "n \<le> length (sm_tasks m)"
  shows "none_due now n m'"
  unfolding none_due_def
proof (intro allI impI)
  fix i assume "i < min n (length (sm_tasks m'))"
  then have i: "i < n" "i < length (sm_tasks m)" using assms(3) by simp_all
  then have "\<not> task_due now (sm_tasks m ! i)" using assms(1) by (simp add: none_due_def)
  with advancesD(2) [OF assms(2) i(2)] show "\<not> task_due now (sm_tasks m' ! i)" by (auto simp: task_due_def same_task_def)
qed

lemma none_due_Suc: "none_due now n m \<Longrightarrow> (n < length (sm_tasks m) \<longrightarrow> \<not> task_due now (sm_tasks m ! n)) \<Longrightarrow> none_due now (Suc n) m"
  by (auto simp: none_due_def less_Suc_eq)

lemma sched_loop_complete:
  assumes adv: "sends (\<lambda>a b. advances (get_sched a) (get_sched b)) send" and ret: "returns send"
  shows "none_due (uint (ev_now env)) i (get_sched inst) \<Longrightarrow>
    \<exists>inst'. sched_loop env send k i inst = Inr inst' \<and> none_due (uint (ev_now env)) (i + k) (get_sched inst')"
proof (induction k arbitrary: i inst)
  case (Suc k)
  let ?now = "uint (ev_now env)" and ?m = "get_sched inst"
  show ?case
  proof (cases "i < length (sm_tasks ?m)")
    case False
    then have "none_due ?now (Suc (i + k)) ?m" using Suc.prems by (auto simp: none_due_def)
    with False show ?thesis by simp
  next
    case in_range: True
    show ?thesis
    proof (cases "task_due ?now (sm_tasks ?m ! i)")
      case False
      with Suc.prems have "none_due ?now (Suc i) ?m" by (intro none_due_Suc) simp_all
      with Suc.IH [of "Suc i" inst] in_range False show ?thesis by simp
    next
      case True
      obtain rc r inst1 where sent: "nested_send send (tk_path (sm_tasks ?m ! i)) PORTAL_METHOD_CALL (put_sched (set_task_status i SCHED_RUNNING ?m) inst) = Inr (rc, r, inst1)"
        by (rule nested_returns [OF ret])
      then obtain inst2 where run: "sched_run env send i inst = Inr inst2" "get_sched inst2 = task_ended i rc (get_sched inst1)"
        by (simp add: sched_run_def Let_def)
      have "tk_status (sm_tasks ?m ! i) = SCHED_PENDING" using True by (simp add: task_due_def)
      then have adv2: "advances ?m (get_sched inst2)" by (rule sched_run_advances [OF adv run(1) in_range])
      have "none_due ?now i (get_sched inst2)" using none_due_advances [OF Suc.prems adv2] in_range by simp
      moreover have "\<not> task_due ?now (sm_tasks (get_sched inst2) ! i)" if "i < length (sm_tasks (get_sched inst2))"
        using that by (simp add: run(2) task_ended_def set_task_status_def task_due_def)
      ultimately have "none_due ?now (Suc i) (get_sched inst2)" by (intro none_due_Suc) simp_all
      with Suc.IH [of "Suc i" inst2] in_range True run(1) show ?thesis by simp
    qed
  qed
qed auto


subsection \<open>Due jobs run, and a job without an interval never ends\<close>

lemma cron_run_returns:
  assumes "sends (\<lambda>a b. get_cron b = get_cron a) send" "returns send"
  obtains inst' where "cron_run env send i inst = Inr inst'"
    "get_cron inst' = (get_cron inst)\<lparr>cr_jobs := (cr_jobs (get_cron inst))[i := job_started (uint (ev_now env)) (cr_jobs (get_cron inst) ! i)]\<rparr>"
proof -
  let ?m = "get_cron inst" and ?p = "cj_path (cr_jobs (get_cron inst) ! i)"
  let ?in = "put_cron (?m\<lparr>cr_jobs := (cr_jobs ?m)[i := job_started (uint (ev_now env)) (cr_jobs ?m ! i)]\<rparr>) inst"
  obtain rc r inst1 where sent: "nested_send send ?p PORTAL_METHOD_CALL ?in = Inr (rc, r, inst1)" by (rule nested_returns [OF assms(2)])
  obtain g where "get_cron inst1 = get_cron (?in\<lparr>in_msg_id := g\<rparr>)" by (rule nested_sendE [OF sent assms(1)])
  with sent show thesis
    by (intro that [of "snd (api_event_emit env inst1 ''/events/cron/execute''
          (if i < length (cr_jobs (get_cron inst1)) then cj_name (cr_jobs (get_cron inst1) ! i) else []))"])
       (simp_all add: cron_run_def Let_def)
qed

lemma cron_loop_jobs:
  assumes "sends (\<lambda>a b. get_cron b = get_cron a) send" "returns send"
  shows "length (cr_jobs (get_cron inst)) \<le> i + k \<Longrightarrow>
    \<exists>inst'. cron_loop env send k i inst = Inr inst' \<and>
      get_cron inst' = (get_cron inst)\<lparr>cr_jobs := take i (cr_jobs (get_cron inst)) @
        map (\<lambda>j. if job_due (uint (ev_now env)) j then job_started (uint (ev_now env)) j else j) (drop i (cr_jobs (get_cron inst)))\<rparr>"
proof (induction k arbitrary: i inst)
  case 0
  then show ?case by simp
next
  case (Suc k)
  let ?now = "uint (ev_now env)" and ?m = "get_cron inst" and ?js = "cr_jobs (get_cron inst)"
  show ?case
  proof (cases "i < length ?js")
    case False
    then show ?thesis by simp
  next
    case in_range: True
    then have d: "drop i ?js = ?js ! i # drop (Suc i) ?js" "take (Suc i) ?js = take i ?js @ [?js ! i]"
      by (simp_all add: Cons_nth_drop_Suc take_Suc_conv_app_nth)
    show ?thesis
    proof (cases "job_due ?now (?js ! i)")
      case False
      with Suc.IH [of inst "Suc i"] Suc.prems in_range show ?thesis by (simp add: d)
    next
      case True
      obtain inst1 where run: "cron_run env send i inst = Inr inst1" "get_cron inst1 = ?m\<lparr>cr_jobs := ?js[i := job_started ?now (?js ! i)]\<rparr>"
        by (rule cron_run_returns [OF assms])
      have "take (Suc i) (?js[i := job_started ?now (?js ! i)]) = take i ?js @ [job_started ?now (?js ! i)]"
        "drop (Suc i) (?js[i := job_started ?now (?js ! i)]) = drop (Suc i) ?js"
        using in_range by (simp_all add: take_Suc_conv_app_nth)
      with Suc.IH [of inst1 "Suc i"] Suc.prems in_range True run show ?thesis by (simp add: d)
    qed
  qed
qed

text \<open>
  What the timer of the cron module does: when the messages of the jobs return and leave its table
  alone, the check returns, every enabled job whose interval has passed has been started once and carries the
  current time, and all other jobs are as before.
\<close>

lemma cron_tick_runs_due:
  assumes "sends (\<lambda>a b. get_cron b = get_cron a) send" "returns send" "cron_ok (get_cron inst)"
  shows "\<exists>inst'. cron_tick env send inst = Inr inst' \<and>
    cr_jobs (get_cron inst') =
      map (\<lambda>j. if job_due (uint (ev_now env)) j then job_started (uint (ev_now env)) j else j) (cr_jobs (get_cron inst))"
proof -
  have "length (cr_jobs (get_cron inst)) \<le> 0 + CRON_MAX_JOBS" using assms(3) by (simp add: cron_ok_def)
  from cron_loop_jobs [OF assms(1,2) this, of env] show ?thesis by (auto simp: cron_tick_def)
qed

text \<open>A job of the module itself that is due again as soon as it has started.\<close>

definition self_job :: "int \<Rightarrow> nat \<Rightarrow> cron_module \<Rightarrow> bool" where
  "self_job now i m \<longleftrightarrow>
     cron_ok m \<and> i < length (cr_jobs m) \<and> job_due now (cr_jobs m ! i) \<and> cj_interval (cr_jobs m ! i) \<le> 0 \<and>
     cj_path (cr_jobs m ! i) \<in> fst ` set cron_paths \<and> (\<forall>j<i. \<not> job_due now (cr_jobs m ! j))"

lemma self_job_started:
  assumes "self_job now i m"
  shows "self_job now i (m\<lparr>cr_jobs := (cr_jobs m)[i := job_started now (cr_jobs m ! i)]\<rparr>)"
  using assms by (auto simp: self_job_def cron_ok_def job_started_def job_due_def)

lemma cron_loop_self:
  assumes "\<And>msg resp inst. self_job (uint (ev_now env)) i (get_cron inst) \<Longrightarrow> msg_path msg \<in> Some ` fst ` set cron_paths \<Longrightarrow> send msg resp inst = Inl Too_deep"
  shows "self_job (uint (ev_now env)) i (get_cron inst) \<Longrightarrow> j \<le> i \<Longrightarrow> i < j + k \<Longrightarrow> cron_loop env send k j inst = Inl Too_deep"
proof (induction k arbitrary: j)
  case (Suc k)
  let ?now = "uint (ev_now env)" and ?m = "get_cron inst"
  show ?case
  proof (cases "j = i")
    case False
    with Suc.prems have "\<not> job_due ?now (cr_jobs ?m ! j)" "j < length (cr_jobs ?m)" by (auto simp: self_job_def)
    with Suc.IH [of "Suc j"] Suc.prems False show ?thesis by simp
  next
    case True
    let ?in = "put_cron (?m\<lparr>cr_jobs := (cr_jobs ?m)[i := job_started ?now (cr_jobs ?m ! i)]\<rparr>) inst"
    let ?in' = "?in\<lparr>in_msg_id := in_msg_id ?in + 1\<rparr>"
    have "self_job ?now i (get_cron ?in')" using self_job_started [OF Suc.prems(1)] by simp
    moreover have "cj_path (cr_jobs ?m ! i) \<in> fst ` set cron_paths" using Suc.prems(1) by (simp add: self_job_def)
    ultimately have "nested_send send (cj_path (cr_jobs ?m ! i)) PORTAL_METHOD_CALL ?in = Inl Too_deep"
      unfolding nested_send_eq by (subst assms) simp_all
    then have "cron_run env send i inst = Inl Too_deep" by (simp add: cron_run_def Let_def)
    with True Suc.prems show ?thesis by (simp add: self_job_def)
  qed
qed simp

text \<open>
  Property C38. A job of the cron module whose interval is not positive and which names a path of the module itself
  never ends: running it sends a message to the module, whose handler finds the job due again and sends
  the next one. No depth of calls is enough, and nothing checks the interval: a header that is no number gives 0.
\<close>

theorem zero_interval_never_returns:
  assumes "self_job (uint (ev_now env)) i (get_cron inst)" "msg_path msg \<in> Some ` fst ` set cron_paths"
  shows "reenter (cron_handle env) cron_paths other n msg resp inst = Inl Too_deep"
  using assms
proof (induction n arbitrary: msg resp inst)
  case (Suc n)
  let ?send = "reenter (cron_handle env) cron_paths other n"
  have "i < CRON_MAX_JOBS" using Suc.prems(1) by (simp add: self_job_def cron_ok_def)
  then have "cron_tick env ?send inst = Inl Too_deep" unfolding cron_tick_def
    using Suc by (intro cron_loop_self [of env i ?send inst 0 CRON_MAX_JOBS]) simp_all
  then have "cron_handle env ?send msg resp inst = Inl Too_deep" by (simp add: cron_handle_def)
  with Suc.prems(2) show ?case by simp
qed simp

text \<open>A job on the path of its own module that is due at time 9, with the interval 0 of a header that is no number.\<close>

definition loop_inst :: portal_instance where
  "loop_inst = put_cron \<lparr>cr_jobs = [\<lparr>cj_name = ''j'', cj_path = ''/cron/resources/status'', cj_interval = atoi ''often'', cj_last_run = 5,
     cj_enabled = True, cj_run_count = 0\<rparr>], cr_max = 100\<rparr> demo_inst"

theorem zero_interval_never_returns_witness:
  "\<forall>n. reenter (cron_handle (demo_env\<lparr>ev_now := 9\<rparr>)) cron_paths (\<lambda>msg resp inst. Inr (0, msg, resp, inst)) n
     (call_msg ''/cron/resources/jobs'' []) portal_resp_alloc loop_inst = Inl Too_deep"
proof -
  have "atoi ''often'' = 0" by code_simp
  then have "self_job (uint (ev_now (demo_env\<lparr>ev_now := 9\<rparr>))) 0 (get_cron loop_inst)"
    by (simp add: self_job_def loop_inst_def cron_ok_def job_due_def cron_paths_def)
  moreover have "msg_path (call_msg ''/cron/resources/jobs'' []) \<in> Some ` fst ` set cron_paths" by (simp add: cron_paths_def)
  ultimately show ?thesis using zero_interval_never_returns by blast
qed

text \<open>A core that answers every message and changes nothing, for the examples.\<close>

definition quiet_send :: send_fn where
  "quiet_send msg resp inst = Inr (0, msg, portal_resp_set_status resp PORTAL_OK, inst)"

lemma quiet_send_laws: "returns quiet_send" "sends (\<lambda>a b. get_cron b = get_cron a) quiet_send" "sends (\<lambda>a b. get_sched b = get_sched a) quiet_send"
  by (simp_all add: returns_def sends_def quiet_send_def)

definition task_inst :: portal_instance where
  "task_inst = put_sched \<lparr>sm_tasks =
     [\<lparr>tk_id = 1, tk_name = ''a'', tk_path = ''/x'', tk_run_at = 5, tk_status = SCHED_PENDING\<rparr>,
      \<lparr>tk_id = 2, tk_name = ''b'', tk_path = ''/x'', tk_run_at = 5, tk_status = SCHED_CANCELLED\<rparr>], sm_max = 256, sm_next_id = 2, sm_executed = 0\<rparr> demo_inst"

lemma task_inst_sched: "get_sched task_inst = \<lparr>sm_tasks =
     [\<lparr>tk_id = 1, tk_name = ''a'', tk_path = ''/x'', tk_run_at = 5, tk_status = SCHED_PENDING\<rparr>,
      \<lparr>tk_id = 2, tk_name = ''b'', tk_path = ''/x'', tk_run_at = 5, tk_status = SCHED_CANCELLED\<rparr>], sm_max = 256, sm_next_id = 2, sm_executed = 0\<rparr>"
  by (simp add: task_inst_def)


lemma sched_loop_idle: "\<forall>t\<in>set (sm_tasks (get_sched inst)). \<not> task_due (uint (ev_now env)) t \<Longrightarrow> sched_loop env send k i inst = Inr inst"
  by (induction k arbitrary: i) simp_all

lemma sched_tick_first:
  assumes "sm_tasks (get_sched inst) \<noteq> []" "task_due (uint (ev_now env)) (sm_tasks (get_sched inst) ! 0)" "sched_run env send 0 inst = Inr inst1"
    "\<forall>t\<in>set (sm_tasks (get_sched inst1)). \<not> task_due (uint (ev_now env)) t"
  shows "scheduler_tick env send inst = Inr inst1"
proof -
  have "sched_loop env send (Suc k) 0 inst = Inr inst1" for k using assms(1-3) sched_loop_idle [OF assms(4)] by simp
  from this [of 255] show ?thesis by (simp add: scheduler_tick_def)
qed

theorem sched_task_once_witness:
  "\<exists>inst'. sched_history quiet_send 2 [(demo_env\<lparr>ev_now := 9\<rparr>, call_msg ''/scheduler/functions/cancel'' [])] task_inst = Inr inst' \<and>
     tk_status (sm_tasks (get_sched inst') ! 1) = SCHED_CANCELLED"
proof -
  let ?h = "sched_history quiet_send 2 [(demo_env\<lparr>ev_now := 9\<rparr>, call_msg ''/scheduler/functions/cancel'' [])] task_inst"
  let ?env = "demo_env\<lparr>ev_now := 9\<rparr>" and ?send = "reenter (sched_handle (demo_env\<lparr>ev_now := 9\<rparr>)) sched_paths quiet_send 1"
  let ?m = "task_ended 0 0 (set_task_status 0 SCHED_RUNNING (get_sched task_inst))"
  obtain inst1 where run: "sched_run ?env ?send 0 task_inst = Inr inst1" "get_sched inst1 = ?m"
    by (simp add: sched_run_def nested_send_eq task_inst_sched sched_paths_def quiet_send_def set_task_status_def Let_def)
  have "scheduler_tick ?env ?send task_inst = Inr inst1"
    by (rule sched_tick_first [OF _ _ run(1)]) (simp_all add: run(2) task_ended_def set_task_status_def task_inst_sched task_due_def)
  then have "\<exists>inst'. ?h = Inr inst'"
    by (simp add: numeral_2_eq_2 sched_paths_def sched_handle_def answered_def sched_request_def sched_cancel_def with_header_def m_status_def)
  then obtain inst' where "?h = Inr inst'" ..
  with sched_task_once [OF quiet_send_laws(3) this] show ?thesis by (auto simp: task_inst_sched)
qed

subsection \<open>A module that calls itself\<close>

text \<open>\<open>ends P m\<close>: the depth of calls is enough for \<open>m\<close>, and when it returns, it is with a result in \<open>P\<close>.\<close>

definition ends :: "('a \<Rightarrow> bool) \<Rightarrow> 'a outcome \<Rightarrow> bool" where
  "ends P m = (case m of Inl e \<Rightarrow> e \<noteq> Too_deep | Inr x \<Rightarrow> P x)"

lemma ends_simps [simp]: "ends P (Inr x) \<longleftrightarrow> P x" "ends P (Inl e) \<longleftrightarrow> e \<noteq> Too_deep"
  by (simp_all add: ends_def)

lemma ends_obind: "ends Q m \<Longrightarrow> (\<And>x. Q x \<Longrightarrow> ends P (f x)) \<Longrightarrow> ends P (obind m f)"
  by (cases m) simp_all

lemma ends_text: "P s \<Longrightarrow> ends (\<lambda>(rc, r, s, ev). P s) (m_text n status t rc resp s evs)"
  by (simp add: m_defs buf_bytes_def)

lemma ends_append: "ends (\<lambda>t. True) t \<Longrightarrow> ends (\<lambda>t. True) (off_append n piece t)" "ends (\<lambda>t. True) t \<Longrightarrow> ends (\<lambda>t. True) (off_append_below l n piece t)"
  by (cases t; simp add: off_append_def off_append_below_def)+

lemma ends_fold: "(\<And>x t. ends P t \<Longrightarrow> ends P (g x t)) \<Longrightarrow> ends P t \<Longrightarrow> ends P (fold g xs t)"
  by (induction xs arbitrary: t) simp_all

text \<open>
  \<open>calm N\<close> says of an instance that at most \<open>N\<close> calls of the module to itself are left in it. \<open>settles calm N send\<close>: a
  message without headers, which is all that the modules send, ends and leaves no more of them, as long as there
  are less than \<open>N\<close>.
\<close>

definition settles :: "(nat \<Rightarrow> portal_instance \<Rightarrow> bool) \<Rightarrow> nat \<Rightarrow> send_fn \<Rightarrow> bool" where
  "settles calm N send \<longleftrightarrow>
     (\<forall>M<N. \<forall>msg resp inst. msg_headers msg = [] \<longrightarrow> calm M inst \<longrightarrow> ends (\<lambda>(rc, msg, resp, inst). calm M inst) (send msg resp inst))"

lemma settlesD: "settles calm N send \<Longrightarrow> M < N \<Longrightarrow> msg_headers msg = [] \<Longrightarrow> calm M inst \<Longrightarrow> ends (\<lambda>(rc, msg, resp, inst). calm M inst) (send msg resp inst)"
  unfolding settles_def by blast

lemma settles_less: "settles calm N send \<Longrightarrow> M \<le> N \<Longrightarrow> settles calm M send"
  unfolding settles_def by (meson less_le_trans)

locale self_calls =
  fixes handle :: "send_fn \<Rightarrow> portal_msg \<Rightarrow> portal_resp \<Rightarrow> portal_instance \<Rightarrow> handler_result"
    and decls :: "path_decl list"
    and calm :: "nat \<Rightarrow> portal_instance \<Rightarrow> bool"
  assumes handle_calm: "settles calm N send \<Longrightarrow> msg_headers msg = [] \<Longrightarrow> calm N inst \<Longrightarrow>
      ends (\<lambda>(rc, resp, inst). calm N inst) (handle send msg resp inst)"
begin

text \<open>As many calls deep as there are calls left is enough.\<close>

lemma reenter_settles:
  assumes "\<And>N. settles calm N other"
  shows "settles calm n (reenter handle decls other n)"
proof (induction n)
  case (Suc n)
  show ?case unfolding settles_def
  proof (intro allI impI)
    fix M and msg :: portal_msg and resp :: portal_resp and inst :: portal_instance
    assume M: "M < Suc n" "msg_headers msg = []" "calm M inst"
    then have "settles calm M (reenter handle decls other n)" by (intro settles_less [OF Suc.IH]) simp
    note here = handle_calm [OF this M(2,3), of resp]
    have there: "ends (\<lambda>(rc, msg, resp, inst). calm M inst) (other msg resp inst)" by (rule settlesD [OF assms lessI M(2,3)])
    show "ends (\<lambda>(rc, msg, resp, inst). calm M inst) (reenter handle decls other (Suc n) msg resp inst)"
      using there by (auto intro!: ends_obind [OF here])
  qed
qed (simp add: settles_def)

end

text \<open>The jobs of a table that are due; with positive intervals a started job is not.\<close>

definition cron_calm :: "int \<Rightarrow> nat \<Rightarrow> portal_instance \<Rightarrow> bool" where
  "cron_calm now N inst \<longleftrightarrow>
     list_all (\<lambda>j. 0 < cj_interval j) (cr_jobs (get_cron inst)) \<and> length (filter (job_due now) (cr_jobs (get_cron inst))) \<le> N"

definition sched_calm :: "int \<Rightarrow> nat \<Rightarrow> portal_instance \<Rightarrow> bool" where
  "sched_calm now N inst \<longleftrightarrow> length (filter (task_due now) (sm_tasks (get_sched inst))) \<le> N"

lemma filter_off:
  "i < length xs \<Longrightarrow> P (xs ! i) \<Longrightarrow> \<not> P x \<Longrightarrow> Suc (length (filter P (xs[i := x]))) = length (filter P xs)"
  by (induction xs arbitrary: i) (auto split: nat.split simp: nth_Cons')

lemma filter_off_le: "\<not> P x \<Longrightarrow> length (filter P (xs[i := x])) \<le> length (filter P xs)"
  by (induction xs arbitrary: i) (auto split: nat.split simp: le_SucI)

lemma nested_settles:
  assumes "settles calm N send" "M < N" "\<And>g. calm M (inst\<lparr>in_msg_id := g\<rparr>)"
  shows "ends (\<lambda>(rc, resp, inst). calm M inst) (nested_send send path meth inst)"
  unfolding nested_send_eq by (rule ends_obind [OF settlesD [OF assms(1,2) _ assms(3)]]) auto

lemma cron_run_calm:
  assumes "settles (cron_calm (uint (ev_now env))) N send" "cron_calm (uint (ev_now env)) N inst"
    "i < length (cr_jobs (get_cron inst))" "job_due (uint (ev_now env)) (cr_jobs (get_cron inst) ! i)"
  shows "ends (cron_calm (uint (ev_now env)) N) (cron_run env send i inst)"
proof -
  let ?now = "uint (ev_now env)" and ?js = "cr_jobs (get_cron inst)"
  let ?js' = "?js[i := job_started ?now (?js ! i)]"
  have pos: "list_all (\<lambda>j. 0 < cj_interval j) ?js" using assms(2) by (simp add: cron_calm_def)
  then have "0 < cj_interval (?js ! i)" using assms(3) by (simp add: list_all_length)
  then have "\<not> job_due ?now (job_started ?now (?js ! i))" by (simp add: job_due_def job_started_def)
  then have less: "Suc (length (filter (job_due ?now) ?js')) = length (filter (job_due ?now) ?js)"
    by (intro filter_off assms(3,4))
  have "list_all (\<lambda>j. 0 < cj_interval j) ?js'"
    using pos assms(3) by (auto simp: list_all_length nth_list_update job_started_def)
  moreover have bound: "length (filter (job_due ?now) ?js') \<le> N - 1" "N - 1 < N"
    using less assms(2) unfolding cron_calm_def by linarith+
  ultimately have "cron_calm ?now (N - 1) ((put_cron ((get_cron inst)\<lparr>cr_jobs := ?js'\<rparr>) inst)\<lparr>in_msg_id := g\<rparr>)" for g
    by (simp add: cron_calm_def)
  with bound(2) show ?thesis unfolding cron_run_def Let_def
    by (intro ends_obind [OF nested_settles [OF assms(1)]]) (auto simp: cron_calm_def)
qed

lemma cron_tick_calm:
  assumes "settles (cron_calm (uint (ev_now env))) N send" "cron_calm (uint (ev_now env)) N inst"
  shows "ends (cron_calm (uint (ev_now env)) N) (cron_tick env send inst)"
proof -
  have "cron_calm (uint (ev_now env)) N inst \<Longrightarrow> ends (cron_calm (uint (ev_now env)) N) (cron_loop env send k i inst)" for k i
  proof (induction k arbitrary: i inst)
    case (Suc k)
    then show ?case by (auto intro!: ends_obind [OF cron_run_calm [OF assms(1)]])
  qed simp
  with assms(2) show ?thesis by (simp add: cron_tick_def)
qed

lemma ends_answered: "ends (\<lambda>(rc, r, s, ev). s = s0) m \<Longrightarrow> P (put s0 inst) \<Longrightarrow> (\<And>evs i. P (deliver env evs i) = P i) \<Longrightarrow>
    ends (\<lambda>(rc, r, inst). P inst) (answered env put m inst)"
  unfolding answered_def by (rule ends_obind, assumption) auto

lemma no_header [simp]: "get_header [] key = Inr None"
  by (simp add: get_header_def)

lemma ends_if: "(c \<Longrightarrow> ends P a) \<Longrightarrow> (\<not> c \<Longrightarrow> ends P b) \<Longrightarrow> ends P (if c then a else b)"
  by simp

lemma ends_status: "P s \<Longrightarrow> ends (\<lambda>(rc, r, s, ev). P s) (m_status status rc resp s)"
  by (simp add: m_status_def)

lemma ends_listing: "ends (\<lambda>t. True) t \<Longrightarrow> (\<And>t. ends P (f t)) \<Longrightarrow> ends P (obind t f)"
  by (rule ends_obind)

lemmas plain_rules = ends_if ends_text ends_status ends_listing ends_fold ends_append

lemma cron_plain: "msg_headers msg = [] \<Longrightarrow> ends (\<lambda>(rc, r, s, ev). s = m) (cron_request now path msg resp m)"
proof -
  assume none: "msg_headers msg = []"
  have "ends (\<lambda>(rc, r, s, ev). s = m) (cron_add now msg resp m)" "ends (\<lambda>(rc, r, s, ev). s = m) (cron_remove msg resp m)"
    by (simp_all add: none cron_add_def cron_remove_def with_header_def ends_text ends_status)
  then show ?thesis unfolding cron_request_def cron_status_def cron_list_def
    by (intro plain_rules) simp_all
qed

lemma cron_handle_calm:
  assumes "settles (cron_calm (uint (ev_now env))) N send" "msg_headers msg = []" "cron_calm (uint (ev_now env)) N inst"
  shows "ends (\<lambda>(rc, resp, inst). cron_calm (uint (ev_now env)) N inst) (cron_handle env send msg resp inst)"
  unfolding cron_handle_def
proof (rule ends_obind [OF cron_tick_calm [OF assms(1,3)]])
  fix inst assume calm: "cron_calm (uint (ev_now env)) N inst"
  have "ends (\<lambda>(rc, resp, inst). cron_calm (uint (ev_now env)) N inst)
      (answered env put_cron (cron_request (uint (ev_now env)) path msg resp (get_cron inst)) inst)" for path
    using calm by (intro ends_answered [OF cron_plain [OF assms(2)]]) (simp_all add: cron_calm_def)
  with calm assms(2) show "ends (\<lambda>(rc, resp, inst). cron_calm (uint (ev_now env)) N inst)
      (case msg_path msg of None \<Rightarrow> Inl Null_deref | Some path \<Rightarrow>
         if path = ''/cron/functions/trigger'' then cron_trigger env send msg resp inst
         else answered env put_cron (cron_request (uint (ev_now env)) path msg resp (get_cron inst)) inst)"
    by (simp add: cron_trigger_def split: option.split)
qed

interpretation cs: self_calls "cron_handle env" cron_paths "cron_calm (uint (ev_now env))" for env
  by unfold_locales (rule cron_handle_calm)

lemma sched_run_calm:
  assumes "settles (sched_calm (uint (ev_now env))) N send" "sched_calm (uint (ev_now env)) N inst"
    "i < length (sm_tasks (get_sched inst))" "task_due (uint (ev_now env)) (sm_tasks (get_sched inst) ! i)"
  shows "ends (sched_calm (uint (ev_now env)) N) (sched_run env send i inst)"
proof -
  let ?now = "uint (ev_now env)" and ?m = "get_sched inst"
  have off: "\<not> task_due ?now (t\<lparr>tk_status := st\<rparr>)" if "st \<noteq> SCHED_PENDING" for t :: sched_task and st using that by (simp add: task_due_def)
  have less: "Suc (length (filter (task_due ?now) (sm_tasks (set_task_status i SCHED_RUNNING ?m)))) = length (filter (task_due ?now) (sm_tasks ?m))"
    using filter_off [OF assms(3), of "task_due ?now"] assms(4) off by (simp add: set_task_status_def)
  then have bound: "length (filter (task_due ?now) (sm_tasks (set_task_status i SCHED_RUNNING ?m))) \<le> N - 1" "N - 1 < N"
    using assms(2) unfolding sched_calm_def by linarith+
  then have "sched_calm ?now (N - 1) ((put_sched (set_task_status i SCHED_RUNNING ?m) inst)\<lparr>in_msg_id := g\<rparr>)" for g
    by (simp add: sched_calm_def)
  moreover have "sched_calm ?now N (snd (api_event_emit env (put_sched (task_ended i rc (get_sched b)) b) p d))" if "sched_calm ?now (N - 1) b" for b rc p d
  proof -
    let ?t = "(sm_tasks (get_sched b) ! i)\<lparr>tk_status := if rc = 0 then SCHED_DONE else SCHED_FAILED\<rparr>"
    have "length (filter (task_due ?now) ((sm_tasks (get_sched b))[i := ?t])) \<le> length (filter (task_due ?now) (sm_tasks (get_sched b)))"
      by (rule filter_off_le) (simp add: off)
    also have "\<dots> \<le> N" using that by (simp add: sched_calm_def)
    finally show ?thesis by (simp add: sched_calm_def task_ended_def set_task_status_def)
  qed
  ultimately show ?thesis using bound(2) unfolding sched_run_def Let_def
    by (intro ends_obind [OF nested_settles [OF assms(1)]]) auto
qed

lemma sched_tick_calm:
  assumes "settles (sched_calm (uint (ev_now env))) N send" "sched_calm (uint (ev_now env)) N inst"
  shows "ends (sched_calm (uint (ev_now env)) N) (scheduler_tick env send inst)"
proof -
  have "sched_calm (uint (ev_now env)) N inst \<Longrightarrow> ends (sched_calm (uint (ev_now env)) N) (sched_loop env send k i inst)" for k i
  proof (induction k arbitrary: i inst)
    case (Suc k)
    then show ?case by (auto intro!: ends_obind [OF sched_run_calm [OF assms(1)]])
  qed simp
  with assms(2) show ?thesis by (simp add: scheduler_tick_def)
qed

lemma sched_plain: "msg_headers msg = [] \<Longrightarrow> ends (\<lambda>(rc, r, s, ev). s = m) (sched_request now path msg resp m)"
proof -
  assume none: "msg_headers msg = []"
  have "ends (\<lambda>(rc, r, s, ev). s = m) (sched_add now msg resp m)" "ends (\<lambda>(rc, r, s, ev). s = m) (sched_cancel msg resp m)"
    by (simp_all add: none sched_add_def sched_cancel_def with_header_def ends_text ends_status)
  then show ?thesis unfolding sched_request_def sched_status_reply_def sched_list_def
    by (intro plain_rules) simp_all
qed

lemma sched_handle_calm:
  assumes "settles (sched_calm (uint (ev_now env))) N send" "msg_headers msg = []" "sched_calm (uint (ev_now env)) N inst"
  shows "ends (\<lambda>(rc, resp, inst). sched_calm (uint (ev_now env)) N inst) (sched_handle env send msg resp inst)"
  unfolding sched_handle_def
proof (rule ends_obind [OF sched_tick_calm [OF assms(1,3)]])
  fix inst assume calm: "sched_calm (uint (ev_now env)) N inst"
  have plain: "ends (\<lambda>(rc, resp, inst). sched_calm (uint (ev_now env)) N inst)
      (answered env put_sched (sched_request (uint (ev_now env)) path msg resp (get_sched inst)) inst)" for path
    using calm by (intro ends_answered [OF sched_plain [OF assms(2)]]) (simp_all add: sched_calm_def)
  have checked: "ends (\<lambda>(rc, resp, inst). sched_calm (uint (ev_now env)) N inst) (answered env put_sched (sched_checked resp (get_sched b)) b)"
    if "sched_calm (uint (ev_now env)) N b" for b
    unfolding sched_checked_def using that by (intro ends_answered [OF ends_text]) (simp_all add: sched_calm_def)
  have "ends (\<lambda>(rc, resp, inst). sched_calm (uint (ev_now env)) N inst)
      (obind (scheduler_tick env send inst) (\<lambda>inst. answered env put_sched (sched_checked resp (get_sched inst)) inst))"
    by (rule ends_obind [OF sched_tick_calm [OF assms(1) calm] checked])
  with plain show "ends (\<lambda>(rc, resp, inst). sched_calm (uint (ev_now env)) N inst)
      (case msg_path msg of None \<Rightarrow> Inl Null_deref | Some path \<Rightarrow>
         if path = ''/scheduler/functions/check''
         then obind (scheduler_tick env send inst) (\<lambda>inst. answered env put_sched (sched_checked resp (get_sched inst)) inst)
         else answered env put_sched (sched_request (uint (ev_now env)) path msg resp (get_sched inst)) inst)"
    by (simp split: option.split)
qed

interpretation ss: self_calls "sched_handle env" sched_paths "sched_calm (uint (ev_now env))" for env
  by unfold_locales (rule sched_handle_calm)


text \<open>A job that asks its own module for the list of jobs, every minute.\<close>

definition minute_inst :: portal_instance where
  "minute_inst = put_cron \<lparr>cr_jobs = [\<lparr>cj_name = ''j'', cj_path = ''/cron/resources/jobs'', cj_interval = 60, cj_last_run = 5,
     cj_enabled = True, cj_run_count = 0\<rparr>], cr_max = 100\<rparr> task_inst"


end
