(* ===== verification/Cli.thy ===== *)
theory Cli
  imports Prelude "HOL-Library.Monad_Syntax"
begin

section \<open>The command registry (core_cli.c)\<close>

text \<open>
  \<^verbatim>\<open>src/core/core_cli.c\<close>. The commands form a linked list through entries that the modules
  own, so the model has a store: a function from addresses to entries with their \<open>next\<close>
  pointer, the head and the counter. A traversal of the list may not end when the list is
  cyclic; the traversals are partial functions into \<open>option\<close>, where \<open>None\<close> is a loop that never
  ends. On a well-formed list all of them return.
\<close>

subsection \<open>Words\<close>

definition tolower :: "char \<Rightarrow> char" where
  "tolower c =
     (let n = of_char c :: nat in if 65 \<le> n \<and> n \<le> 90 then char_of (n + 32) else c)"

definition strcaseeq :: "string \<Rightarrow> string \<Rightarrow> bool" where
  "strcaseeq a b \<longleftrightarrow> map tolower a = map tolower b"

definition split_words :: "string \<Rightarrow> nat \<Rightarrow> string list" where
  "split_words buf max_words = take max_words (strtok CHR '' '' buf)"

definition skip_word :: "string \<Rightarrow> string" where
  "skip_word p = dropWhile (\<lambda>c. c \<noteq> CHR '' '') (dropWhile (\<lambda>c. c = CHR '' '') p)"

text \<open>The number of pattern words, 0 when the line does not match, and the rest of the line.\<close>

definition words_match :: "string \<Rightarrow> string \<Rightarrow> nat \<times> string" where
  "words_match pattern line =
     (let pwords = split_words (csnprintf 512 pattern) 32;
          lwords = split_words (csnprintf 512 line) 32
      in if pwords = [] \<or> length lwords < length pwords then (0, [])
         else if \<not> list_all2 (\<lambda>p l. p = ''%'' \<or> strcaseeq p l) pwords (take (length pwords) lwords) then (0, [])
         else (length pwords, dropWhile (\<lambda>c. c = CHR '' '') ((skip_word ^^ length pwords) line)))"

subsection \<open>The list\<close>

record cli_entry =
  ce_words :: "string option"
  ce_module :: "string option"
  ce_handler :: "nat option"
  ce_next :: "nat option"

type_synonym cli_heap = "nat \<Rightarrow> cli_entry"

record cli_state =
  cs_heap :: cli_heap
  cs_head :: "nat option"
  cs_count :: int

definition portal_cli_register :: "cli_state \<Rightarrow> nat \<Rightarrow> string option \<Rightarrow> int \<times> cli_state" where
  "portal_cli_register st a module_name =
     (if ce_words (cs_heap st a) = None \<or> ce_handler (cs_heap st a) = None then (-1, st)
      else (0, st\<lparr>cs_heap := (cs_heap st)(a := (cs_heap st a)\<lparr>ce_module := module_name, ce_next := cs_head st\<rparr>),
                  cs_head := Some a, cs_count := cs_count st + 1\<rparr>))"

text \<open>
  The loops over a pointer to the link \<open>*pp\<close>: the result is the new value of the link, the
  store, and whether the entry was found (how many entries were removed).
\<close>

partial_function (option) cli_unlink :: "nat \<Rightarrow> cli_heap \<Rightarrow> nat option \<Rightarrow> (bool \<times> nat option \<times> cli_heap) option" where
  "cli_unlink a heap pp =
     (case pp of
        None \<Rightarrow> Some (False, None, heap)
      | Some b \<Rightarrow>
          if b = a then Some (True, ce_next (heap a), heap(a := (heap a)\<lparr>ce_next := None\<rparr>))
          else do { (found, link, heap') \<leftarrow> cli_unlink a heap (ce_next (heap b));
                    Some (found, Some b, heap'(b := (heap' b)\<lparr>ce_next := link\<rparr>)) })"

definition portal_cli_unregister :: "cli_state \<Rightarrow> nat \<Rightarrow> (int \<times> cli_state) option" where
  "portal_cli_unregister st a =
     do { (found, link, heap) \<leftarrow> cli_unlink a (cs_heap st) (cs_head st);
          Some (if found then (0, st\<lparr>cs_heap := heap, cs_head := link, cs_count := cs_count st - 1\<rparr>) else (-1, st)) }"

partial_function (option) cli_unlink_module ::
    "string \<Rightarrow> cli_heap \<Rightarrow> nat option \<Rightarrow> (int \<times> nat option \<times> cli_heap) option" where
  "cli_unlink_module m heap pp =
     (case pp of
        None \<Rightarrow> Some (0, None, heap)
      | Some b \<Rightarrow>
          if ce_module (heap b) = Some m
          then do { (n, link, heap') \<leftarrow> cli_unlink_module m (heap(b := (heap b)\<lparr>ce_next := None\<rparr>)) (ce_next (heap b));
                    Some (n + 1, link, heap') }
          else do { (n, link, heap') \<leftarrow> cli_unlink_module m heap (ce_next (heap b));
                    Some (n, Some b, heap'(b := (heap' b)\<lparr>ce_next := link\<rparr>)) })"

definition portal_cli_unregister_module :: "cli_state \<Rightarrow> string \<Rightarrow> (int \<times> cli_state) option" where
  "portal_cli_unregister_module st m =
     do { (n, link, heap) \<leftarrow> cli_unlink_module m (cs_heap st) (cs_head st);
          Some (n, st\<lparr>cs_heap := heap, cs_head := link, cs_count := cs_count st - n\<rparr>) }"

text \<open>
  The search keeps the best entry, its score and its arguments. \<open>words_match\<close> is called with
  the pattern of an entry, which is not NULL for a registered one.
\<close>

definition cli_score :: "cli_heap \<Rightarrow> string \<Rightarrow> nat \<Rightarrow> nat" where
  "cli_score heap line a = (case ce_words (heap a) of None \<Rightarrow> 0 | Some w \<Rightarrow> fst (words_match w line))"

definition cli_better ::
    "cli_heap \<Rightarrow> string \<Rightarrow> nat \<Rightarrow> (nat \<times> string) option \<times> nat \<Rightarrow> (nat \<times> string) option \<times> nat" where
  "cli_better heap line a best =
     (case ce_words (heap a) of
        None \<Rightarrow> best
      | Some w \<Rightarrow>
          (case words_match w line of
             (score, args) \<Rightarrow> if snd best < score then (Some (a, args), score) else best))"

partial_function (option) cli_find_loop ::
    "cli_heap \<Rightarrow> string \<Rightarrow> nat option \<Rightarrow> (nat \<times> string) option \<times> nat \<Rightarrow> (nat \<times> string) option option" where
  "cli_find_loop heap line e best =
     (case e of
        None \<Rightarrow> Some (fst best)
      | Some a \<Rightarrow> cli_find_loop heap line (ce_next (heap a)) (cli_better heap line a best))"

definition portal_cli_find :: "cli_state \<Rightarrow> string \<Rightarrow> (nat \<times> string) option option" where
  "portal_cli_find st line = cli_find_loop (cs_heap st) line (cs_head st) (None, 0)"

partial_function (option) cli_iter_loop ::
    "cli_heap \<Rightarrow> (cli_entry \<Rightarrow> 'a \<Rightarrow> 'a) \<Rightarrow> nat option \<Rightarrow> 'a \<Rightarrow> 'a option" where
  "cli_iter_loop heap cb e u =
     (case e of None \<Rightarrow> Some u | Some a \<Rightarrow> cli_iter_loop heap cb (ce_next (heap a)) (cb (heap a) u))"

definition portal_cli_iter :: "cli_state \<Rightarrow> (cli_entry \<Rightarrow> 'a \<Rightarrow> 'a) \<Rightarrow> 'a \<Rightarrow> 'a option" where
  "portal_cli_iter st cb u = cli_iter_loop (cs_heap st) cb (cs_head st) u"

definition portal_cli_count :: "cli_state \<Rightarrow> int" where
  "portal_cli_count st = cs_count st"


subsection \<open>Well-formed lists\<close>

fun chain :: "cli_heap \<Rightarrow> nat option \<Rightarrow> nat list \<Rightarrow> bool" where
  "chain heap p [] \<longleftrightarrow> p = None"
| "chain heap p (a # as) \<longleftrightarrow> p = Some a \<and> chain heap (ce_next (heap a)) as"

definition cli_ok :: "cli_state \<Rightarrow> nat list \<Rightarrow> bool" where
  "cli_ok st as \<longleftrightarrow>
     chain (cs_heap st) (cs_head st) as \<and> distinct as \<and> cs_count st = int (length as) \<and>
     (\<forall>a\<in>set as. ce_words (cs_heap st a) \<noteq> None \<and> ce_handler (cs_heap st a) \<noteq> None)"

text \<open>Two stores whose entries differ in their \<open>next\<close> pointers only.\<close>

definition same_entries :: "cli_heap \<Rightarrow> cli_heap \<Rightarrow> bool" where
  "same_entries heap heap' \<longleftrightarrow> (\<forall>b. (heap' b)\<lparr>ce_next := None\<rparr> = (heap b)\<lparr>ce_next := None\<rparr>)"

lemma same_entriesD:
  assumes "same_entries heap heap'"
  shows "ce_words (heap' b) = ce_words (heap b)" "ce_handler (heap' b) = ce_handler (heap b)" "ce_module (heap' b) = ce_module (heap b)"
proof -
  have "(heap' b)\<lparr>ce_next := None\<rparr> = (heap b)\<lparr>ce_next := None\<rparr>" using assms by (simp add: same_entries_def)
  then show "ce_words (heap' b) = ce_words (heap b)" "ce_handler (heap' b) = ce_handler (heap b)" "ce_module (heap' b) = ce_module (heap b)"
    by (metis cli_entry.select_convs cli_entry.surjective cli_entry.update_convs(4))+
qed

lemma chain_upd [simp]: "a \<notin> set as \<Longrightarrow> chain (heap(a := e)) p as = chain heap p as"
  by (induction as arbitrary: p) auto

lemma chain_cong: "\<forall>b\<in>set as. ce_next (heap' b) = ce_next (heap b) \<Longrightarrow> chain heap' p as = chain heap p as"
  by (induction as arbitrary: p) auto

lemma chain_det: "chain heap p xs \<Longrightarrow> chain heap p ys \<Longrightarrow> xs = ys"
proof (induction xs arbitrary: p ys)
  case Nil
  then show ?case by (cases ys) auto
next
  case (Cons x xs)
  then show ?case by (cases ys) auto
qed

lemma register_ok:
  assumes "cli_ok st as" "a \<notin> set as" "ce_words (cs_heap st a) \<noteq> None" "ce_handler (cs_heap st a) \<noteq> None"
  shows "fst (portal_cli_register st a m) = 0" and "cli_ok (snd (portal_cli_register st a m)) (a # as)"
  using assms by (auto simp: portal_cli_register_def cli_ok_def)

lemma cli_unlink_chain:
  assumes "chain heap pp as" "distinct as"
  shows "\<exists>link heap'. cli_unlink a heap pp = Some (a \<in> set as, link, heap') \<and> chain heap' link (remove1 a as) \<and>
           (\<forall>b. b \<notin> set as \<longrightarrow> heap' b = heap b) \<and> same_entries heap heap'"
  using assms
proof (induction as arbitrary: pp)
  case Nil
  then show ?case by (subst cli_unlink.simps) (simp add: same_entries_def)
next
  case (Cons b as)
  show ?case
  proof (cases "b = a")
    case True
    with Cons.prems show ?thesis by (subst cli_unlink.simps) (auto simp: same_entries_def)
  next
    case False
    from Cons.IH [of "ce_next (heap b)"] Cons.prems obtain link heap' where
      ih: "cli_unlink a heap (ce_next (heap b)) = Some (a \<in> set as, link, heap')" "chain heap' link (remove1 a as)"
        "\<forall>c. c \<notin> set as \<longrightarrow> heap' c = heap c" "same_entries heap heap'" by auto
    moreover have "b \<notin> set (remove1 a as)" using Cons.prems set_remove1_subset [of a as] by auto
    ultimately show ?thesis
      using False Cons.prems by (subst cli_unlink.simps) (auto simp: same_entries_def)
  qed
qed

lemma unregister_ok:
  assumes "cli_ok st as"
  shows "\<exists>st'. portal_cli_unregister st a = Some (if a \<in> set as then 0 else -1, st') \<and> cli_ok st' (remove1 a as)"
proof -
  obtain link heap' where u: "cli_unlink a (cs_heap st) (cs_head st) = Some (a \<in> set as, link, heap')"
      "chain heap' link (remove1 a as)" "same_entries (cs_heap st) heap'"
    using cli_unlink_chain [of "cs_heap st" "cs_head st" as a] assms by (auto simp: cli_ok_def)
  have "set (remove1 a as) \<subseteq> set as" by (rule set_remove1_subset)
  moreover have "a \<in> set as \<Longrightarrow> int (length as) - 1 = int (length as - Suc 0)" by (cases as) auto
  ultimately show ?thesis
    using u assms same_entriesD [OF u(3)]
    by (auto simp: portal_cli_unregister_def cli_ok_def length_remove1 remove1_idem)
qed

lemma cli_unlink_module_chain:
  assumes "chain heap pp as" "distinct as"
  shows "\<exists>link heap'. cli_unlink_module m heap pp = Some (int (length (filter (\<lambda>b. ce_module (heap b) = Some m) as)), link, heap') \<and>
           chain heap' link (filter (\<lambda>b. ce_module (heap b) \<noteq> Some m) as) \<and>
           (\<forall>b. b \<notin> set as \<longrightarrow> heap' b = heap b) \<and> same_entries heap heap'"
  using assms
proof (induction as arbitrary: heap pp)
  case Nil
  then show ?case by (subst cli_unlink_module.simps) (simp add: same_entries_def)
next
  case (Cons b as)
  show ?case
  proof (cases "ce_module (heap b) = Some m")
    case True
    let ?h = "heap(b := (heap b)\<lparr>ce_next := None\<rparr>)"
    have f: "filter (\<lambda>c. ce_module (?h c) = Some m) as = filter (\<lambda>c. ce_module (heap c) = Some m) as"
      "filter (\<lambda>c. ce_module (?h c) \<noteq> Some m) as = filter (\<lambda>c. ce_module (heap c) \<noteq> Some m) as"
      by (rule filter_cong; auto)+
    have "chain ?h (ce_next (heap b)) as" "distinct as" using Cons.prems by auto
    from Cons.IH [OF this]
    obtain link heap' where ih: "cli_unlink_module m ?h (ce_next (heap b)) =
        Some (int (length (filter (\<lambda>b. ce_module (heap b) = Some m) as)), link, heap')"
      "chain heap' link (filter (\<lambda>b. ce_module (heap b) \<noteq> Some m) as)"
      "\<forall>c. c \<notin> set as \<longrightarrow> heap' c = ?h c" "same_entries ?h heap'"
      unfolding f by blast
    moreover have "same_entries heap heap'" using ih(4) by (auto simp: same_entries_def split: if_splits)
    ultimately show ?thesis using True Cons.prems by (subst cli_unlink_module.simps) auto
  next
    case False
    from Cons.IH [of heap "ce_next (heap b)"] Cons.prems
    obtain link heap' where ih: "cli_unlink_module m heap (ce_next (heap b)) =
        Some (int (length (filter (\<lambda>b. ce_module (heap b) = Some m) as)), link, heap')"
      "chain heap' link (filter (\<lambda>b. ce_module (heap b) \<noteq> Some m) as)"
      "\<forall>c. c \<notin> set as \<longrightarrow> heap' c = heap c" "same_entries heap heap'" by auto
    then show ?thesis
      using False Cons.prems by (subst cli_unlink_module.simps) (auto simp: same_entries_def)
  qed
qed

lemma unregister_module_ok:
  fixes m :: string
  assumes "cli_ok st as"
  defines "mine \<equiv> \<lambda>b. ce_module (cs_heap st b) = Some m"
  shows "\<exists>st'. portal_cli_unregister_module st m = Some (int (length (filter mine as)), st') \<and>
           cli_ok st' (filter (\<lambda>b. \<not> mine b) as)"
proof -
  obtain link heap' where u: "cli_unlink_module m (cs_heap st) (cs_head st) = Some (int (length (filter mine as)), link, heap')"
      "chain heap' link (filter (\<lambda>b. \<not> mine b) as)" "same_entries (cs_heap st) heap'"
    using cli_unlink_module_chain [of "cs_heap st" "cs_head st" as m] assms(1) by (auto simp: cli_ok_def mine_def)
  have "int (length as) - int (length (filter mine as)) = int (length (filter (\<lambda>b. \<not> mine b) as))"
    using sum_length_filter_compl [of mine as] by linarith
  then show ?thesis
    using u assms(1) same_entriesD [OF u(3)] by (auto simp: portal_cli_unregister_module_def cli_ok_def)
qed


subsection \<open>Searching\<close>

lemma cli_find_chain:
  "chain heap p as \<Longrightarrow> cli_find_loop heap line p best = Some (fst (fold (cli_better heap line) as best))"
proof (induction as arbitrary: p best)
  case Nil
  then show ?case by (subst cli_find_loop.simps) simp
next
  case (Cons a as)
  then show ?case by (subst cli_find_loop.simps) simp
qed

lemma cli_iter_chain: "chain heap p as \<Longrightarrow> cli_iter_loop heap cb p u = Some (fold (\<lambda>a. cb (heap a)) as u)"
proof (induction as arbitrary: p u)
  case Nil
  then show ?case by (subst cli_iter_loop.simps) simp
next
  case (Cons a as)
  then show ?case by (subst cli_iter_loop.simps) simp
qed

text \<open>What the loop has found after a prefix of the list.\<close>

definition cli_best :: "cli_heap \<Rightarrow> string \<Rightarrow> nat list \<Rightarrow> (nat \<times> string) option \<times> nat \<Rightarrow> bool" where
  "cli_best heap line as r \<longleftrightarrow>
     (\<forall>b\<in>set as. cli_score heap line b \<le> snd r) \<and>
     (case fst r of
        None \<Rightarrow> snd r = 0
      | Some (a, args) \<Rightarrow>
          0 < snd r \<and> snd r = cli_score heap line a \<and>
          (\<exists>as1 as2 w. as = as1 @ a # as2 \<and> (\<forall>b\<in>set as1. cli_score heap line b < snd r) \<and>
             ce_words (heap a) = Some w \<and> args = snd (words_match w line)))"

lemma cli_better_best:
  assumes "cli_best heap line as r"
  shows "cli_best heap line (as @ [a]) (cli_better heap line a r)"
proof (cases "snd r < cli_score heap line a")
  case True
  then obtain w where w: "ce_words (heap a) = Some w" "snd r < fst (words_match w line)"
    by (auto simp: cli_score_def split: option.splits)
  then have "cli_better heap line a r = (Some (a, snd (words_match w line)), cli_score heap line a)"
    by (simp add: cli_better_def cli_score_def split_beta)
  moreover have "\<forall>b\<in>set as. cli_score heap line b < cli_score heap line a" using assms True by (auto simp: cli_best_def)
  ultimately show ?thesis using w(1) True by (auto simp: cli_best_def less_imp_le)
next
  case False
  then have "cli_better heap line a r = r"
    by (auto simp: cli_better_def cli_score_def split_beta split: option.splits)
  moreover have "as1 @ b # as2 @ [a] = as1 @ b # (as2 @ [a])" for as1 b as2 by simp
  ultimately show ?thesis
    using assms False by (auto simp: cli_best_def split: option.splits) blast+
qed

lemma fold_cli_better: "cli_best heap line as (fold (cli_better heap line) as (None, 0))"
proof (induction as rule: rev_induct)
  case Nil
  show ?case by (simp add: cli_best_def)
next
  case (snoc a as)
  from cli_better_best [OF this] show ?case by simp
qed

text \<open>A search that returns has walked along a finite list.\<close>

lemma cli_find_loop_returns:
  assumes "cli_find_loop heap line p best = Some r"
  shows "\<exists>as. chain heap p as"
proof (rule cli_find_loop.raw_induct [OF _ assms, where P = "\<lambda>heap line p best r. \<exists>as. chain heap p as"])
  fix loop heap line p best r
  assume ih: "\<And>heap line p best r. loop heap line p best = Some r \<Longrightarrow> \<exists>as. chain heap p as"
    and eq: "(case p of None \<Rightarrow> Some (fst best)
      | Some a \<Rightarrow> loop heap line (ce_next (heap a)) (cli_better heap line a best)) = Some (r :: (nat \<times> string) option)"
  show "\<exists>as. chain heap p as"
  proof (cases p)
    case None
    then have "chain heap p []" by simp
    then show ?thesis ..
  next
    case (Some a)
    with ih eq obtain as where "chain heap (ce_next (heap a)) as" by fastforce
    with Some have "chain heap p (a # as)" by simp
    then show ?thesis ..
  qed
qed

lemma chain_prefix:
  assumes "chain heap p (as1 @ a # as2)" "\<forall>b\<in>set as1. ce_next (heap' b) = ce_next (heap b)" "chain heap' p bs"
  shows "\<exists>cs. bs = as1 @ cs \<and> chain heap' (Some a) cs"
  using assms
proof (induction as1 arbitrary: p bs)
  case (Cons b as1)
  then obtain bs' where "bs = b # bs'" by (cases bs) auto
  with Cons show ?case by auto
qed auto

lemma double_register_cyclic:
  assumes "cli_ok st as" "a \<in> set as"
  shows "\<not> chain (cs_heap (snd (portal_cli_register st a m))) (Some a) bs"
proof
  let ?h = "cs_heap (snd (portal_cli_register st a m))"
  assume bs: "chain ?h (Some a) bs"
  obtain as1 as2 where as: "as = as1 @ a # as2" "a \<notin> set as1" using assms(2) by (metis split_list_first)
  have h: "?h = (cs_heap st)(a := (cs_heap st a)\<lparr>ce_module := m, ce_next := cs_head st\<rparr>)"
    using assms by (auto simp: portal_cli_register_def cli_ok_def)
  from bs obtain bs' where bs': "bs = a # bs'" "chain ?h (cs_head st) bs'" by (cases bs) (auto simp: h)
  have "chain (cs_heap st) (cs_head st) (as1 @ a # as2)" using assms(1) as(1) by (simp add: cli_ok_def)
  moreover have "\<forall>b\<in>set as1. ce_next (?h b) = ce_next (cs_heap st b)" using as(2) by (auto simp: h)
  ultimately obtain cs where "bs' = as1 @ cs" "chain ?h (Some a) cs" using chain_prefix [OF _ _ bs'(2)] by blast
  with chain_det [OF bs, of cs] bs'(1) have "length bs = length cs" "length bs = Suc (length as1 + length cs)" by simp_all
  then show False by simp
qed

subsection \<open>Properties\<close>

text \<open>
  Property C35. On a well-formed list every operation returns: a command that is not in the list
  becomes its first element, unregistering removes exactly the given command, unregistering a
  module removes exactly its commands and returns their number, and a search returns the
  arguments and the entry with the most matching words, the most recently registered of equals,
  or nothing exactly when no pattern matches.
\<close>

theorem cli_registry_correct:
  assumes "cli_ok st as" and "a \<notin> set as" and "ce_words (cs_heap st a) \<noteq> None" and "ce_handler (cs_heap st a) \<noteq> None"
  defines "score \<equiv> cli_score (cs_heap st)" and "mine \<equiv> \<lambda>m b. ce_module (cs_heap st b) = Some m"
  shows "fst (portal_cli_register st a m) = 0 \<and> cli_ok (snd (portal_cli_register st a m)) (a # as) \<and>
         (\<exists>st'. portal_cli_unregister st b = Some (if b \<in> set as then 0 else -1, st') \<and> cli_ok st' (remove1 b as)) \<and>
         (\<exists>st'. portal_cli_unregister_module st n = Some (int (length (filter (mine n) as)), st') \<and>
                cli_ok st' (filter (\<lambda>b. \<not> mine n b) as)) \<and>
         (\<exists>r. portal_cli_find st line = Some r \<and>
            (case r of
               None \<Rightarrow> \<forall>b\<in>set as. score line b = 0
             | Some (c, args) \<Rightarrow>
                 \<exists>as1 as2 w. as = as1 @ c # as2 \<and> 0 < score line c \<and> (\<forall>b\<in>set as1. score line b < score line c) \<and>
                   (\<forall>b\<in>set as2. score line b \<le> score line c) \<and>
                   ce_words (cs_heap st c) = Some w \<and> args = snd (words_match w line)))"
proof -
  define r where "r = fold (cli_better (cs_heap st) line) as (None, 0)"
  have "portal_cli_find st line = Some (fst r)"
    using assms(1) by (simp add: portal_cli_find_def cli_ok_def cli_find_chain r_def)
  moreover have "cli_best (cs_heap st) line as r" unfolding r_def by (rule fold_cli_better)
  then have "case fst r of
      None \<Rightarrow> \<forall>b\<in>set as. score line b = 0
    | Some (c, args) \<Rightarrow>
        \<exists>as1 as2 w. as = as1 @ c # as2 \<and> 0 < score line c \<and> (\<forall>b\<in>set as1. score line b < score line c) \<and>
          (\<forall>b\<in>set as2. score line b \<le> score line c) \<and>
          ce_words (cs_heap st c) = Some w \<and> args = snd (words_match w line)"
    by (fastforce simp: cli_best_def score_def split: option.splits prod.splits)
  ultimately show ?thesis
    using register_ok [OF assms(1-4)] unregister_ok [OF assms(1)] unregister_module_ok [OF assms(1), of n]
    by (simp add: mine_def)
qed

theorem cli_registry_correct_witness:
  "cli_ok (snd (portal_cli_register \<lparr>cs_heap = \<lambda>_. \<lparr>ce_words = Some ''cache get %'', ce_module = None, ce_handler = Some 1, ce_next = None\<rparr>,
     cs_head = None, cs_count = 0\<rparr> 5 (Some ''cache''))) [5]"
  using cli_registry_correct [of "\<lparr>cs_heap = \<lambda>_. \<lparr>ce_words = Some ''cache get %'', ce_module = None, ce_handler = Some 1, ce_next = None\<rparr>,
     cs_head = None, cs_count = 0\<rparr>" "[]" 5 "Some ''cache''"]
  by (simp add: cli_ok_def)

text \<open>
  Registering a command that is in the list already makes the list cyclic: every
  later search runs for ever, whatever the line.
\<close>

lemma cli_double_register_loops:
  assumes "cli_ok st as" and "a \<in> set as"
  shows "fst (portal_cli_register st a m) = 0 \<and> portal_cli_find (snd (portal_cli_register st a m)) line = None"
proof -
  let ?st = "snd (portal_cli_register st a m)"
  have head: "cs_head ?st = Some a" "fst (portal_cli_register st a m) = 0"
    using assms by (auto simp: portal_cli_register_def cli_ok_def)
  have "portal_cli_find ?st line \<noteq> Some r" for r
    using cli_find_loop_returns [of "cs_heap ?st" line "cs_head ?st"] double_register_cyclic [OF assms]
    by (auto simp: portal_cli_find_def head)
  with head(2) show ?thesis by (cases "portal_cli_find ?st line") auto
qed

end
