(* ===== verification/Sha256_Vectors.thy ===== *)
theory Sha256_Vectors
  imports Sha256
begin

section \<open>A published SHA-256 vector\<close>

text \<open>
  The definitions of \<^verbatim>\<open>lib/sha256/sha256.c\<close> run on the one-block message of FIPS 180-4. The
  evaluation takes minutes, so it has a theory of its own that nothing else waits for.
\<close>

text \<open>
  The hexadecimal digest of \<open>abc\<close> is the one FIPS 180-4 gives: padding, schedule,
  constants, compression and output digits agree with the standard.
\<close>

lemma sha256_abc:
  "sha256_hex ''abc'' = ''ba7816bf8f01cfea414140de5dae2223b00361a396177a9cb410ff61f20015ad''"
  by code_simp

end
