(* ===== verification/Spec2Isabelle.thy ===== *)
theory Spec2Isabelle
  imports Daemon Services Jobs Cli Sha256_Vectors
begin

text \<open>
  A verification of Portal, a modular core in C: \<^verbatim>\<open>src/src/core\<close> and \<^verbatim>\<open>src/src/main.c\<close>, with eleven of the loadable
  modules under \<^verbatim>\<open>src/modules\<close>.

  \<^bold>\<open>The program.\<close> Everything in Portal is a message to a path. A module registers paths with the core; the core finds
  the module that owns the path of a message, checks the labels of the sender against those of the path, and calls the
  handler of the module, or answers itself for the paths of its own (users, groups, keys, configuration, modules, locks,
  events). Around the router stand registries: paths, events and subscriptions, users with sessions and keys, resource
  locks, storage providers, terminal commands, trace subscribers, and the table of loaded modules. The paths and the
  settings live in a hash table each. The daemon reads the configuration, loads the modules, and serves messages in a
  binary encoding over TCP and UDP from an event loop; the same loop runs the timers.

  \<^bold>\<open>How the model corresponds to the code.\<close> Each C file has a theory of its own; a structure is a record, an
  enumeration a datatype, and a function a definition with the name of the source, which takes the state it changes and
  returns it. The state of a running daemon is the record \<open>portal_instance\<close>, and the static variables of a module are a
  field of it. A NULL string is \<open>None\<close>. Return codes are integers as in the source. What has no defined result in C, such as
  reading a NULL pointer or writing behind an array, is a value of the type \<open>fault\<close> (theory \<open>Reply\<close>); the router turns
  the fault of a module into the jump of its crash guard. \<open>snprintf\<close> keeps what fits and returns the full length, so that
  replies and listings leave their buffers in the model exactly when they do so in the code. Hashes, digests,
  encodings and the fields of the wire format are machine words.

  What the sources only call is a parameter: the clock, the kernel's random source, whether a file can be
  written, directory listings, the dynamic linker and the entry points of modules that are not modelled (all in the record
  \<open>env\<close> of \<open>Instance\<close>), storage providers, \<open>inet_pton\<close>, \<open>strtod\<close> and regular expressions (\<open>validator_os\<close>), local time
  (\<open>audit_os\<close>), the bytes that a socket delivers. Callbacks, writes to descriptors and calls of providers are recorded in
  order in the log \<open>in_effects\<close> of the instance.

  \<^bold>\<open>Theories, bottom up.\<close>

  \<^item> \<open>Prelude\<close>: C strings, bounded copies, search loops, words and bytes. \<open>Registry\<close>: the contract (a locale) of the tables with
    entries by name, which paths, events, storage providers and commands interpret. Further contracts are the bounded sets in
    \<open>Message\<close>, the tables of \<open>Hashtable\<close> that are searched before an insertion, and the tables of \<open>Ini\<close> that only grow.
  \<^item> \<open>Message\<close> (\<^verbatim>\<open>types.h\<close>, \<^verbatim>\<open>core_message.c\<close>): messages, contexts, label sets. \<open>Wire\<close> (\<^verbatim>\<open>core_wire.c\<close>): the encoders and
    decoders. Decoding never reads outside the received bytes, whatever they are, and gives back what was encoded.
  \<^item> \<open>Hashtable\<close> (\<^verbatim>\<open>core_hashtable.c\<close>): probing, tombstones, growth. Used as its clients use it, the table is a finite map.
    \<open>Paths\<close> (\<^verbatim>\<open>core_path.c\<close>): the path registry refines a map from paths to entries; the two label checks.
  \<^item> \<open>Events\<close> (\<^verbatim>\<open>core_events.c\<close>): an event reaches only active subscriptions that match and whose labels permit it.
  \<^item> \<open>Sha256\<close> with \<open>Sha256_Vectors\<close> (\<^verbatim>\<open>lib/sha256\<close>): feeding a digest piecewise is digesting the padded whole.
    \<open>Ini\<close> (\<^verbatim>\<open>core_store.c\<close>): files of keys and values, and their round trip. \<open>Auth\<close> (\<^verbatim>\<open>core_auth.c\<close>): users, groups, sessions,
    keys and their persistence.
  \<^item> \<open>Locks\<close> and \<open>Trace\<close> (parts of \<^verbatim>\<open>portal_instance.c\<close>), \<open>Storage\<close> (\<^verbatim>\<open>core_storage.c\<close>), \<open>Config\<close> (\<^verbatim>\<open>core_config.c\<close>), \<open>Evloop\<close>
    (\<^verbatim>\<open>core_event.c\<close>), \<open>Cli\<close> (\<^verbatim>\<open>core_cli.c\<close>, on an explicit store), \<open>Modules\<close> (\<^verbatim>\<open>core_module.c\<close>).
  \<^item> \<open>Reply\<close> and \<open>Mod_Kit\<close>: what the handlers share, faults, headers, reply buffers, and the rules by which an invariant of
    a module is proved branch by branch.
  \<^item> The modules: \<open>Queues\<close>, \<open>Cache\<close>, \<open>Firewall\<close>, \<open>Kv\<close>, \<open>Template\<close>, \<open>Crypto\<close>, \<open>Audit_Trail\<close>, \<open>Validator\<close>, \<open>Json\<close>, and \<open>Cron\<close>, which has the
    tables of both \<^verbatim>\<open>mod_cron\<close> and \<^verbatim>\<open>mod_scheduler\<close>. Each has the data, load, unload and every request of its module, a
    specification (queues as lists, the cache as a map with times, the audit trail as a bounded list, templates as
    substitution, and so on) and the proof that the requests implement it.
  \<^item> \<open>Statics\<close>, \<open>Instance\<close> (\<^verbatim>\<open>portal_instance.c\<close>): the data of all modules, the instance and the functions of the module API.
    \<open>Handlers\<close> (\<^verbatim>\<open>core_handlers.c\<close>): every path of the core, with the checks for administrators.
    \<open>Router\<close>: \<open>api_send\<close>, with routing, access, tracing, the crash guard, and loading and unloading of modules.
    \<open>Requests\<close>: requests to the core through the router.
  \<^item> \<open>Hosted\<close> and \<open>Services\<close>: the modules behind the router. The locale \<open>module_data\<close> is what the router needs to know of a
    module; it is interpreted for seven modules, and what a module promises holds for its clients through \<open>api_send\<close>.
  \<^item> \<open>Jobs\<close>: the modules that send messages themselves. A message may come back to the module that sent it; \<open>reenter\<close> closes
    this loop, and the locale \<open>self_calls\<close> gives, for both job tables, that it terminates.
  \<^item> \<open>Daemon\<close> (\<^verbatim>\<open>main.c\<close>): start-up, the listeners, connections and timers.

  \<^bold>\<open>Bounds and depths.\<close> Loops over tables are recursions on the table or carry a bound: the sizes of the tables of
  jobs (100) and tasks (256) bound \<open>cron_loop\<close> and \<open>sched_loop\<close>; a probe of the hash table visits each slot once. \<open>api_send\<close> calls itself
  only for the login of a module that is being loaded, so that depth 2 is enough for every message (\<open>Router\<close>). Messages
  of jobs and tasks need as many calls as there are due entries, at most the size of the table (\<open>Jobs\<close>); with an
  interval of zero no depth is enough, which is a property of its own. Times and counters are unbounded
  integers where the code has 64 bits and compares them, and words where they wrap.

  \<^bold>\<open>Not modelled.\<close> Logging (\<^verbatim>\<open>core_log.c\<close>) has no state that others read. The command line of the daemon, creating and removing
  instances, signals and shutdown, and the tool \<^verbatim>\<open>portalctl\<close> are process control and file creation. Third-party code
  (libev, Lua, Python, OpenSSL, SQLite, PostgreSQL, zlib, liblzma, libssh, microhttpd) is not part of the sources, and the modules that wrap
  it consist of calls to it. Modules on sockets, threads, devices or other processes (\<^verbatim>\<open>mod_node\<close>, \<^verbatim>\<open>mod_iot\<close>,
  \<^verbatim>\<open>mod_tunnel\<close>, \<^verbatim>\<open>mod_shell\<close>, \<^verbatim>\<open>mod_cli\<close>, \<^verbatim>\<open>mod_web\<close>, \<^verbatim>\<open>mod_worker\<close> and others) are left out: what they do is decided by the
  operating system and by other threads, for which the sources give no specification. \<^verbatim>\<open>mod_shm\<close> maps memory that other
  processes write. The terminal commands of the modelled modules only send the requests that are modelled. Mutexes have no effect
  in the model, which has the one thread of the event loop.
\<close>

section \<open>Properties across components\<close>

text \<open>
  Property C1. The life of a session through the router: a login with the right password is
  answered with a token; while the session lasts, a request with this token is recognised as the
  user's; after a logout with the token the same request is answered with 401.
\<close>

theorem session_through_router:
  assumes "auth_ok (in_auth inst)" and "\<exists>s\<in>set (ar_sessions (in_auth inst)). \<not> se_active s"
    and "in_rnd inst = Some raw # rs" and "length raw = 16" and "session_of (in_auth inst) (generate_token (Some raw) 32) = None"
    and "portal_auth_find_user (in_auth inst) user = Some u" and "portal_auth_check_password (au_password u) pw"
    and "\<not> ev_now env + word_of_int (ar_session_ttl (in_auth inst)) < ev_now env2"
    and "\<forall>p\<in>{''/auth/login'', ''/auth/whoami'', ''/auth/logout''}. open_core_path inst p"
  defines "login \<equiv> request ''/auth/login'' [(Some ''username'', Some user), (Some ''password'', Some pw)]"
    and "with_token \<equiv> \<lambda>path tok. request path [(Some ''token'', Some tok)]"
  shows "\<exists>tok m1 i1 m2 r2 i2 m3 i3 m4 r4 i4. length tok = 32 \<and>
    api_send env login resp inst = Inr (0, m1, resp\<lparr>resp_status := 200, resp_body := tok @ NL @ [NUL]\<rparr>, i1) \<and>
    api_send env2 (with_token ''/auth/whoami'' tok) resp i1 = Inr (0, m2, r2, i2) \<and>
    resp_status r2 = 200 \<and> prefix (''User: '' @ user @ NL) (resp_body r2) \<and>
    api_send env3 (with_token ''/auth/logout'' tok) resp i2 =
      Inr (0, m3, resp\<lparr>resp_status := 200, resp_body := ''Logged out'' @ NL @ [NUL]\<rparr>, i3) \<and>
    api_send env4 (with_token ''/auth/whoami'' tok) resp i3 = Inr (-1, m4, r4, i4) \<and> resp_status r4 = 401"
proof -
  define tok where "tok = generate_token (Some raw) 32"
  define auth' where "auth' = snd (start_session (in_auth inst) user (Some raw) (ev_now env))"
  note st = start_session_correct [OF assms(1,2,5), of user "ev_now env", folded tok_def auth'_def]
  have len: "length tok = 32" unfolding tok_def by (rule length_generate_token [OF refl]) (simp add: assms(4) token_need_def)
  have user: "length user < 64" "au_username u = user"
    using portal_auth_find_user_Some [OF assms(6)] assms(1) by (auto simp: auth_ok_def)
  have "portal_auth_login (in_auth inst) user pw (fst (draw (in_rnd inst))) (ev_now env) = (Some tok, auth')"
    using assms(3,6,7) st(1) by (simp add: portal_auth_login_def draw_def auth'_def prod_eq_iff)
  then obtain m1 i1 where 1: "api_send env login resp inst = Inr (0, m1, resp\<lparr>resp_status := 200, resp_body := tok @ NL @ [NUL]\<rparr>, i1)"
    "in_auth i1 = auth'" "routes_kept inst i1"
    unfolding login_def using login_request [of inst user pw env tok auth' resp] assms(9) len by auto
  have find: "portal_auth_find_user auth' = portal_auth_find_user (in_auth inst)"
    using st(4) by (simp add: portal_auth_find_user_def fun_eq_iff)
  have "fst (portal_auth_resolve_token auth' tok (ev_now env2)) = Some u"
    using len st(3) assms(6,8) user(1) by (auto simp: resolve_token_session session_expired_def find csnprintf_fits)
  then have res: "portal_auth_resolve_token auth' tok (ev_now env2) = (Some u, auth')" by (rule resolve_token_Some)
  obtain m2 i2 where 2: "api_send env2 (with_token ''/auth/whoami'' tok) resp i1 = Inr (0, m2, whoami_reply resp (Some u), i2)"
    "in_auth i2 = auth'" "routes_kept i1 i2"
    unfolding with_token_def
    using whoami_request [of i1 env2 tok resp] assms(9) open_core_path_kept [OF 1(3)] by (auto simp: 1(2) res)
  obtain m3 i3 where 3: "api_send env3 (with_token ''/auth/logout'' tok) resp i2 =
      Inr (0, m3, resp\<lparr>resp_status := 200, resp_body := ''Logged out'' @ NL @ [NUL]\<rparr>, i3)"
    "in_auth i3 = snd (portal_auth_logout auth' tok)" "routes_kept i2 i3"
    unfolding with_token_def
    using logout_request [of i2 env3 tok resp] assms(9) open_core_path_kept [OF 1(3)] open_core_path_kept [OF 2(3)] by (auto simp: 2(2))
  have none: "fst (portal_auth_resolve_token (in_auth i3) tok (ev_now env4)) = None"
    using logout_correct(3) [OF st(2), of tok] by (simp add: resolve_token_session 3(2))
  have "open_core_path i3 ''/auth/whoami''"
    using assms(9) open_core_path_kept [OF 1(3)] open_core_path_kept [OF 2(3)] open_core_path_kept [OF 3(3)] by simp
  then obtain m4 i4 where "api_send env4 (request ''/auth/whoami'' [(Some ''token'', Some tok)]) resp i3 =
      Inr (if fst (portal_auth_resolve_token (in_auth i3) tok (ev_now env4)) = None then -1 else 0, m4,
           whoami_reply resp (fst (portal_auth_resolve_token (in_auth i3) tok (ev_now env4))), i4)" by (rule whoami_request)
  then have 4: "api_send env4 (with_token ''/auth/whoami'' tok) resp i3 = Inr (-1, m4, whoami_reply resp None, i4)"
    by (simp add: with_token_def none)
  have "resp_status (whoami_reply resp (Some u)) = 200" "resp_status (whoami_reply resp None) = 401"
    "prefix (''User: '' @ user @ NL) (resp_body (whoami_reply resp (Some u)))"
    using whoami_body [OF user(1), of "''Labels: '' # sep_list '', '' (au_labels u) @ [NL]"] user(2)
    by (simp_all add: whoami_reply_def)
  with len 1(1) 2(1) 3(1) 4 show ?thesis by blast
qed

theorem session_through_router_witness:
  "\<exists>inst tok m1 i1. length tok = 32 \<and>
     api_send demo_env (request ''/auth/login'' [(Some ''username'', Some ''bob''), (Some ''password'', Some ''pw'')]) portal_resp_alloc inst =
       Inr (0, m1, portal_resp_alloc\<lparr>resp_status := 200, resp_body := tok @ NL @ [NUL]\<rparr>, i1)"
proof -
  let ?u = "\<lparr>au_username = ''bob'', au_password = ''pw'', au_api_key = [], au_labels = []\<rparr>"
  let ?auth = "portal_auth_zero\<lparr>ar_users := [?u]\<rparr>" and ?raw = "replicate 16 CHR ''a''"
  let ?inst = "demo_inst\<lparr>in_auth := ?auth, in_rnd := [Some ?raw]\<rparr>"
  have auth: "auth_ok (in_auth ?inst)" "\<exists>s\<in>set (ar_sessions (in_auth ?inst)). \<not> se_active s"
    "session_of (in_auth ?inst) (generate_token (Some ?raw) 32) = None"
    by (simp_all add: auth_ok_def portal_auth_zero_def session_zero_def session_of_def find_None_iff)
  have user: "portal_auth_find_user (in_auth ?inst) ''bob'' = Some ?u" "portal_auth_check_password (au_password ?u) ''pw''"
    by (simp_all add: portal_auth_find_user_def portal_auth_check_password_def strncmp_eq_def)
  have "open_core_path ?inst p" if "p \<in> {''/auth/login'', ''/auth/whoami'', ''/auth/logout''}" for p
    using that demo_strip [of p]
    by (auto simp: open_core_path_def find_route_def access_denied_def core_prefix_def under_def strncmp_eq_def demo_inst_def demo_lookup)
  then have paths: "\<forall>p\<in>{''/auth/login'', ''/auth/whoami'', ''/auth/logout''}. open_core_path ?inst p" by blast
  have "\<not> ev_now demo_env + word_of_int (ar_session_ttl (in_auth ?inst)) < ev_now demo_env" by (simp add: demo_env_def)
  from session_through_router [OF auth(1,2) _ _ auth(3) user this paths, of "[]" portal_resp_alloc demo_env demo_env] show ?thesis by auto
qed

text \<open>
  Property C40. A frame from the network can end the process: the encoder turns a header with an
  empty name into a valid frame, the decoder accepts it and leaves the name NULL, and the login
  handler, which needs no authentication, compares the NULL name.
\<close>

theorem empty_header_name_crashes:
  assumes "open_core_path inst ''/auth/login''"
  shows "\<exists>frame msg. portal_wire_encode_msg (request ''/auth/login'' [(Some [], Some ''x'')]) = Some (frame, length frame) \<and>
    portal_wire_decode_msg frame (fst (portal_msg_alloc g)) = ROk msg (length frame) \<and> api_send env msg resp inst = Inl Null_deref"
proof -
  define frame where "frame = fst (the (portal_wire_encode_msg (request ''/auth/login'' [(Some [], Some ''x'')])))"
  define msg where "msg = request ''/auth/login'' [(None, Some ''x'')]"
  have enc: "portal_wire_encode_msg (request ''/auth/login'' [(Some [], Some ''x'')]) = Some (frame, length frame)"
    unfolding frame_def by code_simp
  have dec: "portal_wire_decode_msg frame (fst (portal_msg_alloc g)) = ROk msg (length frame)"
    unfolding frame_def msg_def by (simp add: portal_msg_alloc_def portal_msg_next_id_def) code_simp
  have "msg_path msg = Some ''/auth/login''" "msg_ctx msg = None" by (simp_all add: msg_def request_def)
  then obtain m i where "stamped msg m"
    "api_send env msg resp inst = obind (core_handle_message env (api_send_rec 1 env) i ''/auth/login'' m resp)
       (\<lambda>(rc, resp, inst). Inr (rc, m, resp, trace_inst env m (Some resp) inst))"
    by (rule api_send_core [OF assms])
  then have "api_send env msg resp inst = Inl Null_deref" by (simp add: core_simps handle_auth_login_enhanced_def msg_def)
  with enc dec show ?thesis by blast
qed

theorem empty_header_name_crashes_witness:
  "\<exists>frame msg. portal_wire_decode_msg frame (fst (portal_msg_alloc 1)) = ROk msg (length frame) \<and>
     api_send demo_env msg portal_resp_alloc demo_inst = Inl Null_deref"
proof -
  have "open_core_path demo_inst ''/auth/login''"
    using demo_strip
    by (simp add: open_core_path_def find_route_def access_denied_def core_prefix_def under_def strncmp_eq_def demo_inst_def demo_lookup)
  from empty_header_name_crashes [OF this, of 1 demo_env portal_resp_alloc] show ?thesis by blast
qed

end
